theory Spec2Isabelle
  imports Main "HOL-Library.AList"
begin

section \<open>Syntax trees\<close>

text \<open>
  The bundler works on the trees the Lua parser builds: JavaScript objects with a
  \<open>type\<close> field. One datatype holds every kind of node, as the JavaScript does; the
  arguments of a constructor are the node's fields. \<open>Identifier\<close> carries \<open>name\<close> and the
  optional \<open>isLocal\<close> flag; \<open>NumericLiteral\<close> carries \<open>value\<close> (\<open>raw\<close> is its decimal
  rendering); \<open>MemberExpression\<close> carries \<open>base\<close>, \<open>indexer\<close>, \<open>identifier\<close>;
  \<open>FunctionDeclaration\<close> carries \<open>identifier\<close>, \<open>isLocal\<close>, \<open>parameters\<close>, \<open>body\<close>;
  \<open>RepeatStatement\<close> carries \<open>condition\<close>, \<open>body\<close>. The numeric and generic \<open>for\<close>
  statements, labels and \<open>goto\<close> are not represented.
\<close>

datatype node =
    Identifier string "bool option"
  | StringLiteral string
  | NumericLiteral int
  | BooleanLiteral bool
  | NilLiteral
  | VarargLiteral
  | TableKey node node
  | TableKeyString node node
  | TableValue node
  | TableConstructorExpression "node list"
  | BinaryExpression string node node
  | LogicalExpression string node node
  | UnaryExpression string node
  | MemberExpression node string node
  | IndexExpression node node
  | CallExpression node "node list"
  | TableCallExpression node node
  | StringCallExpression node node
  | FunctionDeclaration "node option" bool "node list" "node list"
  | LocalStatement "node list" "node list"
  | AssignmentStatement "node list" "node list"
  | CallStatement node
  | ReturnStatement "node list"
  | BreakStatement
  | IfStatement "node list"
  | IfClause node "node list"
  | ElseifClause node "node list"
  | ElseClause "node list"
  | WhileStatement node "node list"
  | DoStatement "node list"
  | RepeatStatement node "node list"

text \<open>The root of a parsed file: \<open>{type: "Chunk", body, comments, globals}\<close>.\<close>

record chunk =
  body :: "node list"
  comments :: "string list"
  globals :: "node list"

text \<open>The \<open>type\<close> field of a node.\<close>

fun node_type :: "node \<Rightarrow> string" where
  "node_type (Identifier _ _) = ''Identifier''"
| "node_type (StringLiteral _) = ''StringLiteral''"
| "node_type (NumericLiteral _) = ''NumericLiteral''"
| "node_type (BooleanLiteral _) = ''BooleanLiteral''"
| "node_type NilLiteral = ''NilLiteral''"
| "node_type VarargLiteral = ''VarargLiteral''"
| "node_type (TableKey _ _) = ''TableKey''"
| "node_type (TableKeyString _ _) = ''TableKeyString''"
| "node_type (TableValue _) = ''TableValue''"
| "node_type (TableConstructorExpression _) = ''TableConstructorExpression''"
| "node_type (BinaryExpression _ _ _) = ''BinaryExpression''"
| "node_type (LogicalExpression _ _ _) = ''LogicalExpression''"
| "node_type (UnaryExpression _ _) = ''UnaryExpression''"
| "node_type (MemberExpression _ _ _) = ''MemberExpression''"
| "node_type (IndexExpression _ _) = ''IndexExpression''"
| "node_type (CallExpression _ _) = ''CallExpression''"
| "node_type (TableCallExpression _ _) = ''TableCallExpression''"
| "node_type (StringCallExpression _ _) = ''StringCallExpression''"
| "node_type (FunctionDeclaration _ _ _ _) = ''FunctionDeclaration''"
| "node_type (LocalStatement _ _) = ''LocalStatement''"
| "node_type (AssignmentStatement _ _) = ''AssignmentStatement''"
| "node_type (CallStatement _) = ''CallStatement''"
| "node_type (ReturnStatement _) = ''ReturnStatement''"
| "node_type BreakStatement = ''BreakStatement''"
| "node_type (IfStatement _) = ''IfStatement''"
| "node_type (IfClause _ _) = ''IfClause''"
| "node_type (ElseifClause _ _) = ''ElseifClause''"
| "node_type (ElseClause _) = ''ElseClause''"
| "node_type (WhileStatement _ _) = ''WhileStatement''"
| "node_type (DoStatement _) = ''DoStatement''"
| "node_type (RepeatStatement _ _) = ''RepeatStatement''"

text \<open>
  The parser is a collaborator of the bundler: it builds a node by calling the factory of
  its kind (\<open>luaparse.ast[...]\<close>) once the nodes below it are built, in source order.
  \<open>children\<close> lists the nodes below a node in the order the parser builds them, and
  \<open>rebuild\<close> is the call of the factory on the nodes built for them. The name of a
  function declaration holds identifiers and member expressions only, so no hooked
  factory is ever called for it and it is not listed.
\<close>

fun children :: "node \<Rightarrow> node list" where
  "children (TableKey k v) = [k, v]"
| "children (TableKeyString k v) = [k, v]"
| "children (TableValue v) = [v]"
| "children (TableConstructorExpression fs) = fs"
| "children (BinaryExpression _ l r) = [l, r]"
| "children (LogicalExpression _ l r) = [l, r]"
| "children (UnaryExpression _ a) = [a]"
| "children (MemberExpression b _ i) = [b, i]"
| "children (IndexExpression b i) = [b, i]"
| "children (CallExpression b as) = b # as"
| "children (TableCallExpression b a) = [b, a]"
| "children (StringCallExpression b a) = [b, a]"
| "children (FunctionDeclaration _ _ ps bd) = ps @ bd"
| "children (LocalStatement vs is) = vs @ is"
| "children (AssignmentStatement vs is) = vs @ is"
| "children (CallStatement e) = [e]"
| "children (ReturnStatement as) = as"
| "children (IfStatement cs) = cs"
| "children (IfClause c bd) = c # bd"
| "children (ElseifClause c bd) = c # bd"
| "children (ElseClause bd) = bd"
| "children (WhileStatement c bd) = c # bd"
| "children (DoStatement bd) = bd"
| "children (RepeatStatement c bd) = bd @ [c]"
| "children _ = []"

fun rebuild :: "node \<Rightarrow> node list \<Rightarrow> node" where
  "rebuild (TableKey _ _) ch = TableKey (hd ch) (hd (tl ch))"
| "rebuild (TableKeyString _ _) ch = TableKeyString (hd ch) (hd (tl ch))"
| "rebuild (TableValue _) ch = TableValue (hd ch)"
| "rebuild (TableConstructorExpression _) ch = TableConstructorExpression ch"
| "rebuild (BinaryExpression op _ _) ch = BinaryExpression op (hd ch) (hd (tl ch))"
| "rebuild (LogicalExpression op _ _) ch = LogicalExpression op (hd ch) (hd (tl ch))"
| "rebuild (UnaryExpression op _) ch = UnaryExpression op (hd ch)"
| "rebuild (MemberExpression _ ix _) ch = MemberExpression (hd ch) ix (hd (tl ch))"
| "rebuild (IndexExpression _ _) ch = IndexExpression (hd ch) (hd (tl ch))"
| "rebuild (CallExpression _ _) ch = CallExpression (hd ch) (tl ch)"
| "rebuild (TableCallExpression _ _) ch = TableCallExpression (hd ch) (hd (tl ch))"
| "rebuild (StringCallExpression _ _) ch = StringCallExpression (hd ch) (hd (tl ch))"
| "rebuild (FunctionDeclaration f l ps _) ch =
     FunctionDeclaration f l (take (length ps) ch) (drop (length ps) ch)"
| "rebuild (LocalStatement vs _) ch = LocalStatement (take (length vs) ch) (drop (length vs) ch)"
| "rebuild (AssignmentStatement vs _) ch =
     AssignmentStatement (take (length vs) ch) (drop (length vs) ch)"
| "rebuild (CallStatement _) ch = CallStatement (hd ch)"
| "rebuild (ReturnStatement _) ch = ReturnStatement ch"
| "rebuild (IfStatement _) ch = IfStatement ch"
| "rebuild (IfClause _ _) ch = IfClause (hd ch) (tl ch)"
| "rebuild (ElseifClause _ _) ch = ElseifClause (hd ch) (tl ch)"
| "rebuild (ElseClause _) ch = ElseClause ch"
| "rebuild (WhileStatement _ _) ch = WhileStatement (hd ch) (tl ch)"
| "rebuild (DoStatement _) ch = DoStatement ch"
| "rebuild (RepeatStatement _ _) ch = RepeatStatement (last ch) (butlast ch)"
| "rebuild n _ = n"

section \<open>Errors and results\<close>

text \<open>
  Every \<open>throw\<close> of the source is a value. \<open>ModuleNotFound\<close> names the specifier and the
  requiring file, \<open>CircularDependency\<close> the revisited file and the file that required
  it, \<open>InvalidRequireArgument\<close> the type of the offending argument. \<open>TypeError\<close> is the
  JavaScript error of reading a property of \<open>undefined\<close>; \<open>ReadError\<close> and \<open>SyntaxError\<close>
  are the failures of reading and of parsing a file. \<open>OutOfFuel\<close> is not an error of
  the program: it is the model's answer when the nesting of files exceeds the fuel.
\<close>

datatype error =
    EntryNotFound
  | ModuleNotFound string string
  | InvalidRequireArgument string
  | CircularDependency string string
  | InvalidExportPosition
  | TypeError
  | ReadError string
  | SyntaxError string

datatype 'a result = Ok 'a | Throw error | OutOfFuel

section \<open>Packages, scripts and the world outside\<close>

text \<open>
  The \<open>onelua\<close> key of a manifest: absent, present without \<open>main\<close>, or present with
  \<open>main\<close>. \<open>require(package_json_path)\<close> throws, returns a falsy value or returns the
  manifest.
\<close>

record pkg_config =
  onelua :: "string option option"

datatype manifest_file = Unreadable | Falsy | Manifest pkg_config

record LuaPackage =
  packageConfig :: pkg_config
  packageDir :: string
  mainScriptPath :: string
  mainDir :: string

record LuaScript =
  path :: string
  package :: "LuaPackage option"
  baseDir :: string

text \<open>
  What the bundler asks of Node and of its libraries is a parameter of the model:
  the \<open>path\<close> module, \<open>fs.existsSync\<close>, \<open>fs.readFileSync\<close>, \<open>require\<close> of a manifest,
  the parser, and the \<open>resolve\<close> package. \<open>resolver m d\<close> is the outcome of
  \<open>resolver(m, {basedir: d, extensions: [".lua"], packageFilter})\<close> with the filter of
  the source: the path found (\<open>None\<close> when the call throws, also when the filter throws
  on a manifest without \<open>onelua\<close>) and the directory last passed to the filter (\<open>None\<close>
  when it was never called).

  The parser builds the nodes of a text in source order and calls the factory of a node
  when the nodes below it are built; it returns the chunk, or it throws a syntax error
  at the first token it cannot accept. \<open>luaparse_parse src\<close> is what it does on the text
  \<open>src\<close>: \<open>Parsed ast\<close> when the whole text is a chunk, and \<open>SyntaxErrorAfter ns\<close> when it
  throws, \<open>ns\<close> being the trees it has completed before the error, in source order.
  \<open>built\<close> lists the trees whose factories are called, in both cases.
\<close>

datatype parsed = Parsed chunk | SyntaxErrorAfter "node list"

fun built :: "parsed \<Rightarrow> node list" where
  "built (Parsed ast) = body ast"
| "built (SyntaxErrorAfter ns) = ns"

record env =
  cwd :: string
  path_resolve :: "string \<Rightarrow> string \<Rightarrow> string"
  path_join :: "string \<Rightarrow> string \<Rightarrow> string"
  path_dirname :: "string \<Rightarrow> string"
  existsSync :: "string \<Rightarrow> bool"
  readFileSync :: "string \<Rightarrow> string option"
  require_json :: "string \<Rightarrow> manifest_file"
  resolver :: "string \<Rightarrow> string \<Rightarrow> string option \<times> string option"
  luaparse_parse :: "string \<Rightarrow> parsed"

definition new_LuaPackage :: "env \<Rightarrow> pkg_config \<Rightarrow> string \<Rightarrow> string \<Rightarrow> LuaPackage" where
  "new_LuaPackage E pkg_config pkg_dir pkg_script =
     \<lparr>packageConfig = pkg_config, packageDir = pkg_dir, mainScriptPath = pkg_script,
      mainDir = path_dirname E pkg_script\<rparr>"

definition fromPackageJson :: "env \<Rightarrow> string \<Rightarrow> LuaPackage option result" where
  "fromPackageJson E package_json_path =
     (case require_json E package_json_path of
        Unreadable \<Rightarrow> Throw (ReadError package_json_path)
      | Falsy \<Rightarrow> Ok None
      | Manifest pkg_cfg \<Rightarrow>
          (case onelua pkg_cfg of
             None \<Rightarrow> Ok None
           | Some None \<Rightarrow> Ok None
           | Some (Some main) \<Rightarrow>
               if main = [] then Ok None
               else
                 let pkg_path = path_dirname E package_json_path;
                     pkg_script = path_resolve E pkg_path main
                 in if \<not> existsSync E pkg_script then Ok None
                    else Ok (Some (new_LuaPackage E pkg_cfg pkg_path pkg_script))))"

definition new_LuaScript :: "env \<Rightarrow> string \<Rightarrow> LuaPackage option \<Rightarrow> LuaScript" where
  "new_LuaScript E path_absol pkg =
     \<lparr>path = path_absol, package = pkg, baseDir = path_dirname E path_absol\<rparr>"

definition contents :: "env \<Rightarrow> LuaScript \<Rightarrow> string option" where
  "contents E script = readFileSync E (path script)"

definition exists_script :: "env \<Rightarrow> LuaScript \<Rightarrow> bool" where
  "exists_script E script = existsSync E (path script)"

section \<open>Module resolution\<close>

text \<open>\<open>module.replace(/\./g, "/")\<close>\<close>

definition dots_to_slashes :: "string \<Rightarrow> string" where
  "dots_to_slashes m = map (\<lambda>c. if c = CHR ''.'' then CHR ''/'' else c) m"

definition getRequiredModule :: "env \<Rightarrow> LuaScript \<Rightarrow> LuaScript \<Rightarrow> string \<Rightarrow> LuaScript option result" where
  "getRequiredModule E entryScript base_script module0 =
     (let base_dir = baseDir base_script;
          module = dots_to_slashes module0;
          script_path = path_join E base_dir (module @ ''.lua'')
      in if existsSync E script_path
         then Ok (Some (new_LuaScript E script_path (package base_script)))
         else
           let found =
             (case package base_script of
                Some pkg \<Rightarrow>
                  let script_path = path_join E (mainDir pkg) (module @ ''.lua'')
                  in if existsSync E script_path
                     then Some (new_LuaScript E script_path (package base_script))
                     else None
              | None \<Rightarrow>
                  let entry_dir = baseDir entryScript;
                      script_path = path_join E entry_dir (module @ ''.lua'')
                  in if existsSync E script_path
                     then Some (new_LuaScript E script_path None)
                     else None)
           in case found of
                Some script \<Rightarrow> Ok (Some script)
              | None \<Rightarrow>
                  (case resolver E module base_dir of
                     (None, _) \<Rightarrow> Ok None
                   | (Some nodeModPath, None) \<Rightarrow> Throw TypeError
                   | (Some nodeModPath, Some pkgPath) \<Rightarrow>
                       (case fromPackageJson E (path_join E pkgPath ''/package.json'') of
                          Throw e \<Rightarrow> Throw e
                        | OutOfFuel \<Rightarrow> OutOfFuel
                        | Ok None \<Rightarrow> Ok None
                        | Ok (Some pkg) \<Rightarrow> Ok (Some (new_LuaScript E nodeModPath (Some pkg))))))"

section \<open>The traversal\<close>

text \<open>
  The variables of \<open>process\<close> that \<open>recurseResolve\<close> and its hooks share: \<open>modulesIds\<close>
  (path to id, negative while the module is being resolved), \<open>modulesAst\<close> (id to
  tree, a JavaScript object: the pairs are kept in insertion order), \<open>mainAst\<close> and
  \<open>currModuleId\<close>. \<open>reads\<close> is the effect of \<open>script.contents\<close>: the paths read with
  \<open>fs.readFileSync\<close> and handed to the parser, in order. Identifiers are JavaScript
  numbers, exact below \<open>2 ^ 53\<close>; they are integers here.
\<close>

record build_state =
  modulesIds :: "string \<rightharpoonup> int"
  modulesAst :: "(int \<times> chunk) list"
  mainAst :: "chunk option"
  currModuleId :: int
  reads :: "string list"

text \<open>
  The test of the assignment hook on \<open>node.variables[0]\<close>: its \<open>base\<close> is a
  \<open>MemberExpression\<close> whose own \<open>base\<close> is named \<open>package\<close> and whose \<open>identifier\<close> is named
  \<open>loaded\<close>, and its \<open>index\<close> is the vararg literal. Only an \<open>IndexExpression\<close> has both a
  \<open>base\<close> and an \<open>index\<close>, and only an \<open>Identifier\<close> has a \<open>name\<close>.
\<close>

fun has_name :: "string \<Rightarrow> node \<Rightarrow> bool" where
  "has_name x (Identifier n _) = (n = x)"
| "has_name _ _ = False"

fun is_export_slot :: "node \<Rightarrow> bool" where
  "is_export_slot (IndexExpression (MemberExpression b _ i) VarargLiteral) =
     (has_name ''package'' b \<and> has_name ''loaded'' i)"
| "is_export_slot _ = False"

definition cache_slot :: "int \<Rightarrow> node" where
  "cache_slot thisModuleId =
     IndexExpression (Identifier ''__OL__cached_packages'' None) (NumericLiteral thisModuleId)"

fun assignmentStatement ::
  "LuaScript \<Rightarrow> bool \<Rightarrow> int \<Rightarrow> node \<Rightarrow> build_state \<Rightarrow> (node \<times> build_state) result" where
  "assignmentStatement script is_entry thisModuleId (AssignmentStatement variables init) s =
     (case variables of
        v0 # _ \<Rightarrow>
          if is_export_slot v0 then
            if is_entry then Throw InvalidExportPosition
            else Ok (AssignmentStatement [cache_slot thisModuleId] init,
                     s\<lparr>modulesIds := (modulesIds s)(path script \<mapsto> thisModuleId)\<rparr>)
          else Ok (AssignmentStatement variables init, s)
      | [] \<Rightarrow> Ok (AssignmentStatement variables init, s))"
| "assignmentStatement script is_entry thisModuleId node s = Ok (node, s)"

text \<open>\<open>modulesAst[id] = ast\<close> on a JavaScript object.\<close>

definition obj_set :: "(int \<times> chunk) list \<Rightarrow> int \<Rightarrow> chunk \<Rightarrow> (int \<times> chunk) list" where
  "obj_set obj k v = AList.update k v obj"

text \<open>
  The measure of the traversal: a nested file takes fuel; within one file the parser
  descends into strictly smaller trees, and the factories stand between a node and the
  next file.
\<close>

definition list_weight :: "node list \<Rightarrow> nat" where
  "list_weight ns = sum_list (map (\<lambda>n. 2 * size n + 1) ns)"

lemma list_weight_simps [simp]:
  "list_weight [] = 0"
  "list_weight (n # ns) = 2 * size n + 1 + list_weight ns"
  "list_weight (xs @ ys) = list_weight xs + list_weight ys"
  by (simp_all add: list_weight_def)

lemma list_weight_le: "list_weight ns \<le> 2 * size_list size ns"
  by (induction ns) simp_all

lemma weight_children: "list_weight (children n) < 2 * size n + 1"
  using list_weight_le [of "children n"]
  by (cases n) simp_all

text \<open>
  \<open>recurseResolve\<close> with the three factories it installs before it parses. The parser
  (\<open>walk_node\<close>, \<open>walk_nodes\<close>) builds the nodes below a node first and then calls the
  factory of the node's kind; a factory for a call that names \<open>require\<close> resolves the
  module and calls \<open>recurseResolve\<close> on it before the parser goes on. The factories run
  inside \<open>luaparse.parse\<close>: what a factory throws ends the parse, and a syntax error is
  thrown only after the factories of the trees before it have run. Each nested file
  takes one unit of fuel, as it takes a frame of the JavaScript stack.
\<close>

function recurseResolve ::
    "nat \<Rightarrow> env \<Rightarrow> LuaScript \<Rightarrow> LuaScript \<Rightarrow> LuaScript option \<Rightarrow> build_state
       \<Rightarrow> (int option \<times> build_state) result"
  and new_astnode ::
    "nat \<Rightarrow> env \<Rightarrow> LuaScript \<Rightarrow> LuaScript \<Rightarrow> string \<Rightarrow> node \<Rightarrow> build_state
       \<Rightarrow> (node \<times> build_state) result"
  and stringCallExpression ::
    "nat \<Rightarrow> env \<Rightarrow> LuaScript \<Rightarrow> LuaScript \<Rightarrow> node \<Rightarrow> build_state
       \<Rightarrow> (node \<times> build_state) result"
  and callExpression ::
    "nat \<Rightarrow> env \<Rightarrow> LuaScript \<Rightarrow> LuaScript \<Rightarrow> node \<Rightarrow> build_state
       \<Rightarrow> (node \<times> build_state) result"
  and walk_node ::
    "nat \<Rightarrow> env \<Rightarrow> LuaScript \<Rightarrow> LuaScript \<Rightarrow> bool \<Rightarrow> int \<Rightarrow> node \<Rightarrow> build_state
       \<Rightarrow> (node \<times> build_state) result"
  and walk_nodes ::
    "nat \<Rightarrow> env \<Rightarrow> LuaScript \<Rightarrow> LuaScript \<Rightarrow> bool \<Rightarrow> int \<Rightarrow> node list \<Rightarrow> build_state
       \<Rightarrow> (node list \<times> build_state) result"
where
  "recurseResolve fuel E entryScript script previousScript s =
     (let is_entry = (previousScript = None);
          resolvedId = modulesIds s (path script)
      in if resolvedId \<noteq> None \<and> the resolvedId > 0 then Ok (resolvedId, s)
         else if resolvedId \<noteq> None \<and> the resolvedId < 0 then
           (case previousScript of
              None \<Rightarrow> Throw TypeError
            | Some prev \<Rightarrow> Throw (CircularDependency (path script) (path prev)))
         else
           (case fuel of
              0 \<Rightarrow> OutOfFuel
            | Suc fuel' \<Rightarrow>
                let thisModuleId = (if is_entry then 0 else currModuleId s + 1);
                    s1 = s\<lparr>currModuleId := (if is_entry then currModuleId s else currModuleId s + 1),
                           modulesIds := (modulesIds s)(path script \<mapsto> - 1)\<rparr>
                in (case contents E script of
                      None \<Rightarrow> Throw (ReadError (path script))
                    | Some src \<Rightarrow>
                        (case walk_nodes fuel' E entryScript script is_entry thisModuleId
                                (built (luaparse_parse E src))
                                (s1\<lparr>reads := reads s1 @ [path script]\<rparr>) of
                           Throw e \<Rightarrow> Throw e
                         | OutOfFuel \<Rightarrow> OutOfFuel
                         | Ok (body', s2) \<Rightarrow>
                             (case luaparse_parse E src of
                                SyntaxErrorAfter _ \<Rightarrow> Throw (SyntaxError (path script))
                              | Parsed ast0 \<Rightarrow>
                                  (let ast = ast0\<lparr>body := body'\<rparr>
                                   in if is_entry then Ok (None, s2\<lparr>mainAst := Some ast\<rparr>)
                                      else Ok (Some thisModuleId,
                                               s2\<lparr>modulesIds := (modulesIds s2)(path script \<mapsto> thisModuleId),
                                                  modulesAst := obj_set (modulesAst s2) thisModuleId ast\<rparr>)))))))"
| "new_astnode fuel E entryScript script module node s =
     (case getRequiredModule E entryScript script module of
        Throw e \<Rightarrow> Throw e
      | OutOfFuel \<Rightarrow> OutOfFuel
      | Ok None \<Rightarrow> Throw (ModuleNotFound module (path script))
      | Ok (Some required) \<Rightarrow>
          (case recurseResolve fuel E entryScript required (Some script) s of
             Throw e \<Rightarrow> Throw e
           | OutOfFuel \<Rightarrow> OutOfFuel
           | Ok (None, s') \<Rightarrow> Throw TypeError
           | Ok (Some module_id, s') \<Rightarrow>
               Ok (CallExpression (Identifier ''__OL__require'' (Some True))
                     [NumericLiteral module_id], s')))"
| "stringCallExpression fuel E entryScript script node s =
     (case node of
        StringCallExpression base arg \<Rightarrow>
          if has_name ''require'' base then
            (case arg of
               StringLiteral v \<Rightarrow> new_astnode fuel E entryScript script v node s
             | _ \<Rightarrow> Throw TypeError)
          else Ok (node, s)
      | _ \<Rightarrow> Ok (node, s))"
| "callExpression fuel E entryScript script node s =
     (case node of
        CallExpression base arguments \<Rightarrow>
          if has_name ''require'' base then
            (case arguments of
               [] \<Rightarrow> Throw TypeError
             | first_arg # _ \<Rightarrow>
                 (case first_arg of
                    StringLiteral v \<Rightarrow> new_astnode fuel E entryScript script v node s
                  | _ \<Rightarrow> Throw (InvalidRequireArgument (node_type first_arg))))
          else Ok (node, s)
      | _ \<Rightarrow> Ok (node, s))"
| "walk_node fuel E entryScript script is_entry thisModuleId n s =
     (case walk_nodes fuel E entryScript script is_entry thisModuleId (children n) s of
        Throw e \<Rightarrow> Throw e
      | OutOfFuel \<Rightarrow> OutOfFuel
      | Ok (ch, s1) \<Rightarrow>
          let node = rebuild n ch
          in if node_type n = ''StringCallExpression''
               then stringCallExpression fuel E entryScript script node s1
             else if node_type n = ''CallExpression''
               then callExpression fuel E entryScript script node s1
             else if node_type n = ''AssignmentStatement''
               then assignmentStatement script is_entry thisModuleId node s1
             else Ok (node, s1))"
| "walk_nodes fuel E entryScript script is_entry thisModuleId [] s = Ok ([], s)"
| "walk_nodes fuel E entryScript script is_entry thisModuleId (n # ns) s =
     (case walk_node fuel E entryScript script is_entry thisModuleId n s of
        Throw e \<Rightarrow> Throw e
      | OutOfFuel \<Rightarrow> OutOfFuel
      | Ok (n', s1) \<Rightarrow>
          (case walk_nodes fuel E entryScript script is_entry thisModuleId ns s1 of
             Throw e \<Rightarrow> Throw e
           | OutOfFuel \<Rightarrow> OutOfFuel
           | Ok (ns', s2) \<Rightarrow> Ok (n' # ns', s2)))"
  by pat_completeness auto

termination
  apply (relation "inv_image (less_than <*lex*> less_than)
    (\<lambda>x. case x of
        Inl (Inl (fuel, _)) \<Rightarrow> (fuel, 0)
      | Inl (Inr (Inl (fuel, _))) \<Rightarrow> (fuel, 1)
      | Inl (Inr (Inr (fuel, _))) \<Rightarrow> (fuel, 2)
      | Inr (Inl (fuel, _)) \<Rightarrow> (fuel, 2)
      | Inr (Inr (Inl (fuel, E, en, sc, ie, tid, n, s))) \<Rightarrow> (fuel, 2 * (2 * size n + 1) + 4)
      | Inr (Inr (Inr (fuel, E, en, sc, ie, tid, ns, s))) \<Rightarrow> (fuel, 2 * list_weight ns + 5))")
  subgoal by (intro wf_inv_image wf_lex_prod wf_less_than)
       apply simp_all
  subgoal for n using weight_children [of n] by linarith
  done

declare recurseResolve.simps [simp del] new_astnode.simps [simp del]
  stringCallExpression.simps [simp del] callExpression.simps [simp del]
  walk_node.simps [simp del]

section \<open>The emitted program\<close>

text \<open>
  \<open>Object.keys\<close> of a JavaScript object lists the keys that are array indices (integers
  from \<open>0\<close> to \<open>2 ^ 32 - 2\<close>) in ascending order, then the other keys in insertion
  order.
\<close>

definition is_array_index :: "int \<Rightarrow> bool" where
  "is_array_index k = (0 \<le> k \<and> k < 4294967295)"

definition Object_keys :: "(int \<times> chunk) list \<Rightarrow> int list" where
  "Object_keys obj =
     (let ks = map fst obj
      in sort (filter is_array_index ks) @ filter (\<lambda>k. \<not> is_array_index k) ks)"

definition ident :: "string \<Rightarrow> node" where
  "ident name = Identifier name (Some True)"

definition createRequireDef :: "int \<Rightarrow> node list \<Rightarrow> node" where
  "createRequireDef key ast =
     AssignmentStatement
       [IndexExpression (ident ''__OL__packages'') (NumericLiteral key)]
       [FunctionDeclaration None False [] ast]"

definition push :: "chunk \<Rightarrow> node list \<Rightarrow> chunk" where
  "push finalAst ns = finalAst\<lparr>body := body finalAst @ ns\<rparr>"

definition push_globals :: "chunk \<Rightarrow> node list \<Rightarrow> chunk" where
  "push_globals finalAst ns = finalAst\<lparr>globals := globals finalAst @ ns\<rparr>"

text \<open>The body of the \<open>forEach\<close> over \<open>Object.keys(modulesAst)\<close>; a key of the object has a value.\<close>

definition push_module :: "(int \<times> chunk) list \<Rightarrow> chunk \<Rightarrow> int \<Rightarrow> chunk" where
  "push_module modsAst finalAst key =
     (case map_of modsAst key of
        None \<Rightarrow> finalAst
      | Some m \<Rightarrow> push_globals (push finalAst [createRequireDef key (body m)]) (globals m))"

definition cached_at_id :: node where
  "cached_at_id = IndexExpression (ident ''__OL__cached_packages'') (ident ''id'')"

definition loader_def :: node where
  "loader_def =
     AssignmentStatement [ident ''__OL__require'']
       [FunctionDeclaration None False [ident ''id'']
          [IfStatement [IfClause cached_at_id [ReturnStatement [cached_at_id]]],
           LocalStatement [ident ''package'']
             [CallExpression (IndexExpression (ident ''__OL__packages'') (ident ''id'')) []],
           AssignmentStatement [cached_at_id] [ident ''package''],
           ReturnStatement [ident ''package'']]]"

definition createFinalAst :: "(string \<rightharpoonup> int) \<Rightarrow> (int \<times> chunk) list \<Rightarrow> chunk \<Rightarrow> chunk" where
  "createFinalAst modsIds modsAst main =
     (let finalAst = \<lparr>body = [LocalStatement [ident ''__OL__require''] []],
                      comments = [], globals = []\<rparr>;
          finalAst = push finalAst
                       [LocalStatement [ident ''__OL__packages''] [TableConstructorExpression []]];
          finalAst = push finalAst
                       [LocalStatement [ident ''__OL__cached_packages''] [TableConstructorExpression []]];
          finalAst = foldl (push_module modsAst) finalAst (Object_keys modsAst);
          finalAst = push finalAst [loader_def];
          finalAst = push finalAst (body main);
          finalAst = push_globals finalAst (globals main)
      in finalAst)"

section \<open>The build\<close>

definition init_state :: build_state where
  "init_state = \<lparr>modulesIds = Map.empty, modulesAst = [], mainAst = None, currModuleId = 0,
                  reads = []\<rparr>"

definition entryScript_of :: "env \<Rightarrow> string \<Rightarrow> LuaScript" where
  "entryScript_of E entry = new_LuaScript E (path_resolve E (cwd E) entry) None"

text \<open>
  \<open>new OLProcessor(entry, options).process()\<close>, up to the final tree: rendering the
  tree as text is the printer's or the minifier's work.
\<close>

definition process :: "nat \<Rightarrow> env \<Rightarrow> string \<Rightarrow> chunk result" where
  "process fuel E entry =
     (let entryScript = entryScript_of E entry
      in if \<not> exists_script E entryScript then Throw EntryNotFound
         else
           (case recurseResolve fuel E entryScript entryScript None init_state of
              Throw e \<Rightarrow> Throw e
            | OutOfFuel \<Rightarrow> OutOfFuel
            | Ok (_, s) \<Rightarrow>
                (case mainAst s of
                   None \<Rightarrow> Throw TypeError
                 | Some main \<Rightarrow> Ok (createFinalAst (modulesIds s) (modulesAst s) main))))"

section \<open>Resolution as the specification words it\<close>

text \<open>
  The four strategies, each on its own, and the rule that the first match wins. A
  candidate path is the directory joined with the specifier, its dots turned into path
  separators, and the fixed extension.
\<close>

definition relative_to :: "env \<Rightarrow> string \<Rightarrow> string \<Rightarrow> string option" where
  "relative_to E dir specifier =
     (let candidate = path_join E dir (dots_to_slashes specifier @ ''.lua'')
      in if existsSync E candidate then Some candidate else None)"

definition own_directory :: "env \<Rightarrow> LuaScript \<Rightarrow> string \<Rightarrow> LuaScript option" where
  "own_directory E requiring specifier =
     map_option (\<lambda>p. new_LuaScript E p (package requiring))
       (relative_to E (baseDir requiring) specifier)"

definition package_entry_directory :: "env \<Rightarrow> LuaScript \<Rightarrow> string \<Rightarrow> LuaScript option" where
  "package_entry_directory E requiring specifier =
     (case package requiring of
        None \<Rightarrow> None
      | Some pkg \<Rightarrow>
          map_option (\<lambda>p. new_LuaScript E p (Some pkg)) (relative_to E (mainDir pkg) specifier))"

definition entry_directory :: "env \<Rightarrow> LuaScript \<Rightarrow> LuaScript \<Rightarrow> string \<Rightarrow> LuaScript option" where
  "entry_directory E entryScript requiring specifier =
     (if package requiring = None
      then map_option (\<lambda>p. new_LuaScript E p None) (relative_to E (baseDir entryScript) specifier)
      else None)"

text \<open>The entry field a manifest declares, if it declares one.\<close>

definition declared_entry :: "env \<Rightarrow> string \<Rightarrow> string option" where
  "declared_entry E pkg_dir =
     (case require_json E (path_join E pkg_dir ''/package.json'') of
        Manifest cfg \<Rightarrow>
          (case onelua cfg of
             Some (Some main) \<Rightarrow> if main = [] then None else Some main
           | _ \<Rightarrow> None)
      | _ \<Rightarrow> None)"

definition installed_dependency :: "env \<Rightarrow> LuaScript \<Rightarrow> string \<Rightarrow> LuaScript option" where
  "installed_dependency E requiring specifier =
     (case resolver E (dots_to_slashes specifier) (baseDir requiring) of
        (Some file, Some pkg_dir) \<Rightarrow>
          (case declared_entry E pkg_dir of
             None \<Rightarrow> None
           | Some main \<Rightarrow>
               (case fromPackageJson E (path_join E pkg_dir ''/package.json'') of
                  Ok (Some pkg) \<Rightarrow> Some (new_LuaScript E file (Some pkg))
                | _ \<Rightarrow> None))
      | _ \<Rightarrow> None)"

fun first_match :: "'a option list \<Rightarrow> 'a option" where
  "first_match [] = None"
| "first_match (Some x # _) = Some x"
| "first_match (None # xs) = first_match xs"

definition resolve_spec :: "env \<Rightarrow> LuaScript \<Rightarrow> LuaScript \<Rightarrow> string \<Rightarrow> LuaScript option" where
  "resolve_spec E entryScript requiring specifier =
     first_match
       [own_directory E requiring specifier,
        package_entry_directory E requiring specifier,
        entry_directory E entryScript requiring specifier,
        installed_dependency E requiring specifier]"

text \<open>
  The installed-dependency search names a package whenever it finds a file, and the
  manifest of that package can be read.
\<close>

definition resolver_names_package :: "env \<Rightarrow> bool" where
  "resolver_names_package E =
     (\<forall>m d file. fst (resolver E m d) = Some file \<longrightarrow>
        (\<exists>pkg_dir. snd (resolver E m d) = Some pkg_dir \<and>
           require_json E (path_join E pkg_dir ''/package.json'') \<noteq> Unreadable))"

section \<open>A small project\<close>

definition require_call :: "string \<Rightarrow> node" where
  "require_call m = CallExpression (Identifier ''require'' (Some False)) [StringLiteral m]"

definition export_slot :: node where
  "export_slot =
     IndexExpression
       (MemberExpression (Identifier ''package'' (Some False)) ''.'' (Identifier ''loaded'' None))
       VarargLiteral"

definition ex_files :: "(string \<times> chunk) list" where
  "ex_files =
    [(''/p/main.lua'',
        \<lparr>body = [LocalStatement [Identifier ''a'' (Some True)] [require_call ''a''],
                 CallStatement (StringCallExpression (Identifier ''require'' (Some False))
                                  (StringLiteral ''lib.b''))],
         comments = [], globals = [Identifier ''require'' (Some False)]\<rparr>),
     (''/p/a.lua'',
        \<lparr>body = [CallStatement (require_call ''lib.b''),
                 AssignmentStatement [export_slot] [NumericLiteral 1]],
         comments = [], globals = [Identifier ''require'' (Some False)]\<rparr>),
     (''/p/lib/b.lua'',
        \<lparr>body = [ReturnStatement [NumericLiteral 2]], comments = [], globals = []\<rparr>),
     (''/p/two.lua'',
        \<lparr>body = [CallStatement (CallExpression (Identifier ''require'' (Some False))
                                  [StringLiteral ''lib.b'', NumericLiteral 5])],
         comments = [], globals = []\<rparr>),
     (''/p/bad.lua'',
        \<lparr>body = [CallStatement (CallExpression (Identifier ''require'' (Some False))
                                  [Identifier ''name'' (Some False)])],
         comments = [], globals = []\<rparr>),
     (''/c/main.lua'',
        \<lparr>body = [CallStatement (require_call ''a'')], comments = [], globals = []\<rparr>),
     (''/c/a.lua'',
        \<lparr>body = [AssignmentStatement [export_slot] [NumericLiteral 1],
                 CallStatement (require_call ''b'')],
         comments = [], globals = []\<rparr>),
     (''/c/b.lua'',
        \<lparr>body = [CallStatement (require_call ''a'')], comments = [], globals = []\<rparr>),
     (''/d/main.lua'',
        \<lparr>body = [CallStatement (require_call ''a'')], comments = [], globals = []\<rparr>),
     (''/d/a.lua'',
        \<lparr>body = [CallStatement (require_call ''b''),
                 AssignmentStatement [export_slot] [NumericLiteral 1]],
         comments = [], globals = []\<rparr>),
     (''/d/b.lua'',
        \<lparr>body = [CallStatement (require_call ''a'')], comments = [], globals = []\<rparr>),
     (''/r/main.lua'',
        \<lparr>body = [CallStatement (require_call ''m''), CallStatement (require_call ''m'')],
         comments = [], globals = []\<rparr>),
     (''/r/m.lua'',
        \<lparr>body = [CallStatement (CallExpression (Identifier ''print'' (Some False))
                                  [StringLiteral ''hello''])],
         comments = [], globals = []\<rparr>),
     (''/p/table.lua'',
        \<lparr>body = [CallStatement (TableCallExpression (Identifier ''require'' (Some False))
                                  (TableConstructorExpression []))],
         comments = [], globals = [Identifier ''require'' (Some False)]\<rparr>),
     (''/p/none.lua'',
        \<lparr>body = [CallStatement (CallExpression (Identifier ''require'' (Some False)) [])],
         comments = [], globals = [Identifier ''require'' (Some False)]\<rparr>),
     (''/p/nested.lua'',
        \<lparr>body = [CallStatement (CallExpression (Identifier ''require'' (Some False))
                                  [require_call ''missing''])],
         comments = [], globals = [Identifier ''require'' (Some False)]\<rparr>),
     (''/p/lost.lua'',
        \<lparr>body = [CallStatement (require_call ''missing'')],
         comments = [], globals = [Identifier ''require'' (Some False)]\<rparr>),
     (''/p/uses_bad.lua'',
        \<lparr>body = [CallStatement (require_call ''bad'')],
         comments = [], globals = [Identifier ''require'' (Some False)]\<rparr>),
     (''/p/export.lua'',
        \<lparr>body = [AssignmentStatement [export_slot] [NumericLiteral 1]],
         comments = [], globals = [Identifier ''package'' (Some False)]\<rparr>),
     (''/p/export_bad.lua'',
        \<lparr>body = [AssignmentStatement [export_slot]
                   [CallExpression (Identifier ''require'' (Some False))
                      [Identifier ''name'' (Some False)]]],
         comments = [], globals = []\<rparr>),
     (''/p/later.lua'',
        \<lparr>body = [AssignmentStatement [Identifier ''x'' (Some False), export_slot]
                   [NumericLiteral 1, NumericLiteral 2]],
         comments = [],
         globals = [Identifier ''x'' (Some False), Identifier ''package'' (Some False)]\<rparr>),
     (''/p/uses_later.lua'',
        \<lparr>body = [CallStatement (require_call ''later'')],
         comments = [], globals = [Identifier ''require'' (Some False)]\<rparr>),
     (''/n/main.lua'',
        \<lparr>body = [CallStatement (require_call ''foo'')],
         comments = [], globals = [Identifier ''require'' (Some False)]\<rparr>),
     (''/n/node_modules/foo.lua'',
        \<lparr>body = [ReturnStatement [NumericLiteral 3]], comments = [], globals = []\<rparr>),
     (''/q/main.lua'',
        \<lparr>body = [CallStatement (require_call ''dep'')], comments = [], globals = []\<rparr>),
     (''/q/node_modules/dep/src/init.lua'',
        \<lparr>body = [ReturnStatement [require_call ''sub.x'']], comments = [], globals = []\<rparr>),
     (''/q/node_modules/dep/src/sub/x.lua'',
        \<lparr>body = [ReturnStatement [require_call ''util'']], comments = [], globals = []\<rparr>),
     (''/q/node_modules/dep/src/util.lua'',
        \<lparr>body = [ReturnStatement [NumericLiteral 7]], comments = [], globals = []\<rparr>)]"

text \<open>
  Files with a syntax error, with the trees the parser completes before it: in each a
  statement that cannot be parsed follows an import call.
\<close>

definition ex_broken :: "(string \<times> node list) list" where
  "ex_broken =
    [(''/p/broken.lua'', [CallStatement (require_call ''lib.b'')]),
     (''/p/broken_after_missing.lua'', [CallStatement (require_call ''missing'')]),
     (''/p/broken_bad.lua'',
        [CallStatement (CallExpression (Identifier ''require'' (Some False))
                          [Identifier ''name'' (Some False)])])]"

definition ex_join :: "string \<Rightarrow> string \<Rightarrow> string" where
  "ex_join a b = (if b \<noteq> [] \<and> hd b = CHR ''/'' then a @ b else a @ ''/'' @ b)"

definition ex_dirname :: "string \<Rightarrow> string" where
  "ex_dirname p = rev (tl (dropWhile (\<lambda>c. c \<noteq> CHR ''/'') (rev p)))"

text \<open>A file's text stands for itself here: the parser is the table of the trees.\<close>

definition ex_env :: env where
  "ex_env =
     \<lparr>cwd = ''/p'',
      path_resolve = ex_join,
      path_join = ex_join,
      path_dirname = ex_dirname,
      existsSync = (\<lambda>p. map_of ex_files p \<noteq> None \<or> map_of ex_broken p \<noteq> None),
      readFileSync =
        (\<lambda>p. if map_of ex_files p \<noteq> None \<or> map_of ex_broken p \<noteq> None then Some p else None),
      require_json =
        (\<lambda>p. if p = ''/q/node_modules/dep/package.json''
               then Manifest \<lparr>onelua = Some (Some ''src/init.lua'')\<rparr>
             else if p = ''/q/node_modules/bare/package.json''
               then Manifest \<lparr>onelua = Some None\<rparr>
             else Unreadable),
      resolver =
        (\<lambda>m d. if m = ''dep'' \<and> d = ''/q''
                 then (Some ''/q/node_modules/dep/src/init.lua'', Some ''/q/node_modules/dep'')
               else if m = ''bare'' \<and> d = ''/q''
                 then (Some ''/q/node_modules/bare/index.lua'', Some ''/q/node_modules/bare'')
               else (None, None)),
      luaparse_parse =
        (\<lambda>src. case map_of ex_files src of
                 Some ast \<Rightarrow> Parsed ast
               | None \<Rightarrow>
                   (case map_of ex_broken src of
                      Some ns \<Rightarrow> SyntaxErrorAfter ns
                    | None \<Rightarrow> SyntaxErrorAfter []))\<rparr>"

text \<open>The same files, built from the directories \<open>/c\<close>, \<open>/d\<close> and \<open>/r\<close>.\<close>

definition c_env :: env where
  "c_env = ex_env\<lparr>cwd := ''/c''\<rparr>"

definition d_env :: env where
  "d_env = ex_env\<lparr>cwd := ''/d''\<rparr>"

definition r_env :: env where
  "r_env = ex_env\<lparr>cwd := ''/r''\<rparr>"

text \<open>
  The directory \<open>/n\<close> has no manifest, and none of its ancestors has one: the dependency
  search finds the file \<open>/n/node_modules/foo.lua\<close> and never calls the package filter.
\<close>

definition n_env :: env where
  "n_env = ex_env\<lparr>cwd := ''/n'',
                   resolver := (\<lambda>m d. if m = ''foo'' \<and> d = ''/n''
                                       then (Some ''/n/node_modules/foo.lua'', None)
                                       else (None, None))\<rparr>"

text \<open>The same files where no file can be read.\<close>

definition unreadable_env :: env where
  "unreadable_env = ex_env\<lparr>readFileSync := (\<lambda>p. None)\<rparr>"

definition n_main :: LuaScript where
  "n_main = entryScript_of n_env ''main.lua''"

definition d_main :: LuaScript where
  "d_main = entryScript_of d_env ''main.lua''"

definition d_a :: LuaScript where
  "d_a = new_LuaScript d_env ''/d/a.lua'' None"

definition d_b :: LuaScript where
  "d_b = new_LuaScript d_env ''/d/b.lua'' None"

definition bad_main :: LuaScript where
  "bad_main = entryScript_of ex_env ''uses_bad.lua''"

definition bad_module :: LuaScript where
  "bad_module = new_LuaScript ex_env ''/p/bad.lua'' None"

definition export_main :: LuaScript where
  "export_main = entryScript_of ex_env ''export.lua''"

definition ex_main :: LuaScript where
  "ex_main = entryScript_of ex_env ''main.lua''"

definition q_main :: LuaScript where
  "q_main = new_LuaScript ex_env ''/q/main.lua'' None"

definition ex_state :: build_state where
  "ex_state = init_state\<lparr>modulesIds := [''/p/main.lua'' \<mapsto> - 1, ''/p/lib/b.lua'' \<mapsto> 1],
                         currModuleId := 1\<rparr>"

definition ex_modulesAst :: "(int \<times> chunk) list" where
  "ex_modulesAst =
     [(2, \<lparr>body = [ReturnStatement [NumericLiteral 2]], comments = [], globals = []\<rparr>),
      (1, \<lparr>body = [CallStatement (CallExpression (Identifier ''__OL__require'' (Some True))
                                    [NumericLiteral 2]),
                    AssignmentStatement
                      [IndexExpression (Identifier ''__OL__cached_packages'' None)
                         (NumericLiteral 1)]
                      [NumericLiteral 1]],
           comments = [], globals = [Identifier ''require'' (Some False)]\<rparr>)]"

definition ex_mainAst :: chunk where
  "ex_mainAst =
     \<lparr>body = [LocalStatement [Identifier ''a'' (Some True)]
                [CallExpression (Identifier ''__OL__require'' (Some True)) [NumericLiteral 1]],
              CallStatement (CallExpression (Identifier ''__OL__require'' (Some True))
                               [NumericLiteral 2])],
      comments = [], globals = [Identifier ''require'' (Some False)]\<rparr>"

text \<open>The modules of \<open>/p/main.lua\<close> and a rank for its files.\<close>

definition ex_a :: LuaScript where
  "ex_a = new_LuaScript ex_env ''/p/a.lua'' None"

definition ex_b :: LuaScript where
  "ex_b = new_LuaScript ex_env ''/p/lib/b.lua'' None"

definition ex_rank :: "string \<Rightarrow> nat" where
  "ex_rank p = (if p = ''/p/main.lua'' then 2 else if p = ''/p/a.lua'' then 1 else 0)"

text \<open>The shape of an emitted program, and a loader call, for the examples.\<close>

definition loader_call :: "int \<Rightarrow> node" where
  "loader_call module_id =
     CallExpression (Identifier ''__OL__require'' (Some True)) [NumericLiteral module_id]"

definition emitted :: "node list \<Rightarrow> node list \<Rightarrow> chunk" where
  "emitted registry main =
     \<lparr>body = [LocalStatement [ident ''__OL__require''] [],
              LocalStatement [ident ''__OL__packages''] [TableConstructorExpression []],
              LocalStatement [ident ''__OL__cached_packages''] [TableConstructorExpression []]]
             @ registry @ [loader_def] @ main,
      comments = [], globals = []\<rparr>"

section \<open>Invariants of the traversal\<close>

text \<open>
  The states the traversal reaches: the counter is not negative; a record is \<open>- 1\<close> or an
  id between \<open>1\<close> and the counter; no id is the record of two paths; the files read are
  the paths with a record, each read once; the keys of \<open>modulesAst\<close> are ids, each once.
\<close>

definition ok_state :: "build_state \<Rightarrow> bool" where
  "ok_state s \<longleftrightarrow>
     0 \<le> currModuleId s
     \<and> (\<forall>p v. modulesIds s p = Some v \<longrightarrow> v = - 1 \<or> (0 < v \<and> v \<le> currModuleId s))
     \<and> (\<forall>p q v. modulesIds s p = Some v \<longrightarrow> modulesIds s q = Some v \<longrightarrow> 0 < v \<longrightarrow> p = q)
     \<and> distinct (reads s) \<and> set (reads s) = dom (modulesIds s)
     \<and> distinct (map fst (modulesAst s))
     \<and> (\<forall>k \<in> fst ` set (modulesAst s). 0 < k \<and> k \<le> currModuleId s)"

text \<open>
  The parser is inside the file \<open>sc\<close> with the id \<open>tid\<close>: the record of \<open>sc\<close> is in
  progress or, in a module, already \<open>tid\<close>; the entry script has the id \<open>0\<close> and a module
  a positive id that no other path holds.
\<close>

definition in_module :: "LuaScript \<Rightarrow> bool \<Rightarrow> int \<Rightarrow> build_state \<Rightarrow> bool" where
  "in_module sc ie tid s \<longleftrightarrow>
     (modulesIds s (path sc) = Some (- 1) \<or> (\<not> ie \<and> modulesIds s (path sc) = Some tid))
     \<and> (if ie then tid = 0 else 0 < tid)
     \<and> tid \<le> currModuleId s
     \<and> (\<forall>p. modulesIds s p = Some tid \<longrightarrow> p = path sc)"

text \<open>
  From \<open>s\<close> to a later state \<open>s'\<close>: the counter does not decrease, a record stays what it
  is (inside the file \<open>p0\<close>, its own record may become its id), a record that is new got
  an id above the counter of \<open>s\<close>, and the files read are read after those of \<open>s\<close>.
\<close>

definition extends_in :: "string \<Rightarrow> int \<Rightarrow> build_state \<Rightarrow> build_state \<Rightarrow> bool" where
  "extends_in p0 tid s s' \<longleftrightarrow>
     currModuleId s \<le> currModuleId s'
     \<and> (\<forall>p v. modulesIds s p = Some v \<longrightarrow>
           modulesIds s' p = Some v \<or> (p = p0 \<and> modulesIds s' p = Some tid))
     \<and> (\<forall>p v. p \<noteq> p0 \<longrightarrow> modulesIds s p = None \<longrightarrow> modulesIds s' p = Some v \<longrightarrow>
           currModuleId s < v \<and> v \<le> currModuleId s')
     \<and> (\<exists>new. reads s' = reads s @ new)"

definition extends :: "build_state \<Rightarrow> build_state \<Rightarrow> bool" where
  "extends s s' \<longleftrightarrow>
     currModuleId s \<le> currModuleId s'
     \<and> (\<forall>p v. modulesIds s p = Some v \<longrightarrow> modulesIds s' p = Some v)
     \<and> (\<forall>p v. modulesIds s p = None \<longrightarrow> modulesIds s' p = Some v \<longrightarrow>
           currModuleId s < v \<and> v \<le> currModuleId s')
     \<and> (\<exists>new. reads s' = reads s @ new)"

text \<open>
  The state in which the parser starts on the file \<open>p\<close>: a module takes the next id, the
  record of \<open>p\<close> is in progress, and the file is read.
\<close>

definition entered :: "bool \<Rightarrow> string \<Rightarrow> build_state \<Rightarrow> build_state" where
  "entered is_entry p s =
     s\<lparr>currModuleId := (if is_entry then currModuleId s else currModuleId s + 1),
       modulesIds := (modulesIds s)(p \<mapsto> - 1), reads := reads s @ [p]\<rparr>"

text \<open>
  From \<open>s\<close> to \<open>s'\<close> every record stays what it is, except that the record of \<open>p0\<close> may
  have become \<open>tid\<close>.
\<close>

definition keeps_records :: "string \<Rightarrow> int \<Rightarrow> build_state \<Rightarrow> build_state \<Rightarrow> bool" where
  "keeps_records p0 tid s s' \<longleftrightarrow>
     (\<forall>p v. modulesIds s p = Some v \<longrightarrow>
        modulesIds s' p = Some v \<or> (p = p0 \<and> modulesIds s' p = Some tid))"

text \<open>A node \<open>x\<close> occurs in a node: it is the node, or it occurs in a node below it.\<close>

inductive occurs :: "node \<Rightarrow> node \<Rightarrow> bool" for x where
  here: "occurs x x"
| below: "c \<in> set (children n) \<Longrightarrow> occurs x c \<Longrightarrow> occurs x n"

text \<open>
  The specifier of an import site: the string literal the call factories hand to
  \<open>new_astnode\<close>, for a call of \<open>require\<close> in the general form, whatever follows its first
  argument, or in the string form.
\<close>

fun import_of :: "node \<Rightarrow> string option" where
  "import_of (CallExpression b (StringLiteral m # _)) =
     (if has_name ''require'' b then Some m else None)"
| "import_of (StringCallExpression b (StringLiteral m)) =
     (if has_name ''require'' b then Some m else None)"
| "import_of _ = None"

text \<open>
  The traversal reaches a node. With fuel \<open>f\<close>, inside the script \<open>sc\<close> parsed with
  \<open>is_entry = ie\<close> and the id \<open>tid\<close>, the parser is about to build the node \<open>n\<close> in the state
  \<open>s\<close>; \<open>reaches E en f' sc' ie' tid' x s' f sc ie tid n s\<close> holds when, from there, it comes to
  build the node \<open>x\<close> in the state \<open>s'\<close>, inside \<open>sc'\<close> with \<open>f'\<close>, \<open>ie'\<close>, \<open>tid'\<close>, every node
  before \<open>x\<close> having been built without an error: \<open>x\<close> is \<open>n\<close>; or \<open>x\<close> is reached from
  the nodes below \<open>n\<close>; or \<open>n\<close> is an import site whose module is met for the first time,
  and \<open>x\<close> is reached from the trees of the module's file. From a list of nodes, \<open>x\<close> is
  reached from its first node, or from the nodes after it once the first is built.
\<close>

inductive reaches ::
    "env \<Rightarrow> LuaScript \<Rightarrow> nat \<Rightarrow> LuaScript \<Rightarrow> bool \<Rightarrow> int \<Rightarrow> node \<Rightarrow> build_state
       \<Rightarrow> nat \<Rightarrow> LuaScript \<Rightarrow> bool \<Rightarrow> int \<Rightarrow> node \<Rightarrow> build_state \<Rightarrow> bool"
  and reaches_list ::
    "env \<Rightarrow> LuaScript \<Rightarrow> nat \<Rightarrow> LuaScript \<Rightarrow> bool \<Rightarrow> int \<Rightarrow> node \<Rightarrow> build_state
       \<Rightarrow> nat \<Rightarrow> LuaScript \<Rightarrow> bool \<Rightarrow> int \<Rightarrow> node list \<Rightarrow> build_state \<Rightarrow> bool"
  for E en f' sc' ie' tid' x s'
where
  here: "reaches E en f' sc' ie' tid' x s' f' sc' ie' tid' x s'"
| below:
    "reaches_list E en f' sc' ie' tid' x s' f sc ie tid (children n) s \<Longrightarrow>
     reaches E en f' sc' ie' tid' x s' f sc ie tid n s"
| imported:
    "walk_nodes (Suc f) E en sc ie tid (children n) s = Ok (ch, s1) \<Longrightarrow>
     import_of (rebuild n ch) = Some m \<Longrightarrow>
     getRequiredModule E en sc m = Ok (Some t) \<Longrightarrow>
     modulesIds s1 (path t) = None \<Longrightarrow>
     contents E t = Some src \<Longrightarrow>
     reaches_list E en f' sc' ie' tid' x s' f t False (currModuleId s1 + 1)
       (built (luaparse_parse E src)) (entered False (path t) s1) \<Longrightarrow>
     reaches E en f' sc' ie' tid' x s' (Suc f) sc ie tid n s"
| first:
    "reaches E en f' sc' ie' tid' x s' f sc ie tid c s \<Longrightarrow>
     reaches_list E en f' sc' ie' tid' x s' f sc ie tid (c # cs) s"
| later:
    "walk_node f E en sc ie tid c s = Ok (c', s1) \<Longrightarrow>
     reaches_list E en f' sc' ie' tid' x s' f sc ie tid cs s1 \<Longrightarrow>
     reaches_list E en f' sc' ie' tid' x s' f sc ie tid (c # cs) s"

text \<open>
  The build of \<open>entry\<close> reaches the node \<open>x\<close>: the entry script exists and is read, and \<open>x\<close>
  is reached from the trees of its file, parsed as the entry from the initial state.
\<close>

definition build_reaches ::
  "env \<Rightarrow> string \<Rightarrow> nat \<Rightarrow> nat \<Rightarrow> LuaScript \<Rightarrow> bool \<Rightarrow> int \<Rightarrow> node \<Rightarrow> build_state \<Rightarrow> bool" where
  "build_reaches E entry fuel f' sc' ie' tid' x s' =
     (let en = entryScript_of E entry
      in exists_script E en \<and>
         (case fuel of
            0 \<Rightarrow> False
          | Suc f \<Rightarrow>
              (case contents E en of
                 None \<Rightarrow> False
               | Some src \<Rightarrow>
                   reaches_list E en f' sc' ie' tid' x s' f en True 0
                     (built (luaparse_parse E src)) (entered True (path en) init_state))))"

section \<open>Well-formed acyclic projects\<close>

text \<open>
  What a project must have for its build to succeed. At a node: a hooked call of
  \<open>require\<close> has a string literal as its first argument, and the specifier is accepted by
  \<open>P\<close>; in the entry script the first target of an assignment is not the export slot.
\<close>

fun local_ok :: "(string \<Rightarrow> bool) \<Rightarrow> bool \<Rightarrow> node \<Rightarrow> bool" where
  "local_ok P ie (CallExpression b args) =
     (has_name ''require'' b \<longrightarrow> (case args of StringLiteral m # _ \<Rightarrow> P m | _ \<Rightarrow> False))"
| "local_ok P ie (StringCallExpression b a) =
     (has_name ''require'' b \<longrightarrow> (case a of StringLiteral m \<Rightarrow> P m | _ \<Rightarrow> False))"
| "local_ok P ie (AssignmentStatement vs is) =
     (ie \<longrightarrow> (case vs of v # _ \<Rightarrow> \<not> is_export_slot v | [] \<Rightarrow> True))"
| "local_ok P ie _ = True"

text \<open>The same at every node of a tree.\<close>

lemma size_in_list: "c \<in> set xs \<Longrightarrow> size c \<le> size_list size xs"
  by (erule size_list_estimation') simp

lemma size_child: "c \<in> set (children n) \<Longrightarrow> size c < size n"
  by (cases n) (auto dest: size_in_list)

function imports_ok :: "(string \<Rightarrow> bool) \<Rightarrow> bool \<Rightarrow> node \<Rightarrow> bool" where
  "imports_ok P ie n = (local_ok P ie n \<and> list_all (imports_ok P ie) (children n))"
  by pat_completeness auto

termination
  by (relation "measure (\<lambda>(P, ie, n). size n)") (auto simp: size_child)

declare imports_ok.simps [simp del]

text \<open>No assignment of a tree has the export slot as its first target.\<close>

fun not_export :: "node \<Rightarrow> bool" where
  "not_export (AssignmentStatement (v # vs) init) = (\<not> is_export_slot v)"
| "not_export _ = True"

function no_export :: "node \<Rightarrow> bool" where
  "no_export n = (not_export n \<and> list_all no_export (children n))"
  by pat_completeness auto

termination
  by (relation "measure size") (auto simp: size_child)

declare no_export.simps [simp del]

text \<open>
  A specifier of the script \<open>sc\<close> is accepted when it resolves to a script of the set \<open>R\<close>
  of strictly smaller rank: the ranks witness that no import chain comes back. A script
  parses when its file is read and parsed and every node of its tree is good. A project
  is acyclic and well formed when the entry script parses as the entry and every script
  of \<open>R\<close> parses as a module.
\<close>

definition resolves_below ::
  "env \<Rightarrow> LuaScript \<Rightarrow> LuaScript set \<Rightarrow> (string \<Rightarrow> nat) \<Rightarrow> LuaScript \<Rightarrow> string \<Rightarrow> bool" where
  "resolves_below E en R rk sc m =
     (case getRequiredModule E en sc m of
        Ok (Some t) \<Rightarrow> t \<in> R \<and> rk (path t) < rk (path sc)
      | _ \<Rightarrow> False)"

definition parses_ok ::
  "env \<Rightarrow> LuaScript \<Rightarrow> LuaScript set \<Rightarrow> (string \<Rightarrow> nat) \<Rightarrow> bool \<Rightarrow> LuaScript \<Rightarrow> bool" where
  "parses_ok E en R rk ie sc =
     (case contents E sc of
        None \<Rightarrow> False
      | Some src \<Rightarrow>
          (case luaparse_parse E src of
             SyntaxErrorAfter _ \<Rightarrow> False
           | Parsed ast \<Rightarrow> list_all (imports_ok (resolves_below E en R rk sc) ie) (body ast)))"

definition acyclic_project ::
  "env \<Rightarrow> LuaScript \<Rightarrow> LuaScript set \<Rightarrow> (string \<Rightarrow> nat) \<Rightarrow> bool" where
  "acyclic_project E en R rk \<longleftrightarrow>
     parses_ok E en R rk True en \<and> (\<forall>sc \<in> R. parses_ok E en R rk False sc)"

text \<open>
  Every record in progress has at least the rank \<open>b\<close>; and no record is in progress in
  \<open>s'\<close> that was not so in \<open>s\<close>.
\<close>

definition above :: "(string \<Rightarrow> nat) \<Rightarrow> nat \<Rightarrow> build_state \<Rightarrow> bool" where
  "above rk b s \<longleftrightarrow> (\<forall>p v. modulesIds s p = Some v \<longrightarrow> v < 0 \<longrightarrow> b \<le> rk p)"

definition no_new_neg :: "build_state \<Rightarrow> build_state \<Rightarrow> bool" where
  "no_new_neg s s' \<longleftrightarrow> (\<forall>p v. modulesIds s' p = Some v \<longrightarrow> v < 0 \<longrightarrow> modulesIds s p = Some v)"

section \<open>The emitted loader at run time\<close>

text \<open>
  The loader the bundler emits (\<open>loader_def\<close>) is a Lua function; this is the function it
  denotes. The cache table maps an id to a value, \<open>nil\<close> where it has no entry, and the
  registry maps an id to a factory. Lua takes \<open>nil\<close> and \<open>false\<close> as false. A factory is the
  rewritten body of a module, which is any Lua code; of what a body does, only this is
  kept: an observable effect, a loader call \<open>__OL__require(k)\<close>, the rewritten export
  \<open>__OL__cached_packages[self] = v\<close>, and \<open>return v\<close>. A body that ends without \<open>return\<close>
  returns no value, which the caller reads as \<open>nil\<close>. \<open>executed\<close> records the calls of
  factories. Each nested factory call takes one unit of fuel.
\<close>

datatype lua_value = LNil | LBool bool | LNum int | LStr string | LTable nat

datatype action = Effect string | Require int | Export lua_value | Return lua_value

record runtime =
  OL_packages :: "int \<rightharpoonup> action list"
  OL_cached_packages :: "int \<Rightarrow> lua_value"
  printed :: "string list"
  executed :: "int list"

datatype 'a outcome = Done 'a | LuaError string | Diverged

definition truthy :: "lua_value \<Rightarrow> bool" where
  "truthy v = (v \<noteq> LNil \<and> v \<noteq> LBool False)"

text \<open>
  \<open>OL_require\<close>, statement by statement: \<open>if __OL__cached_packages[id] then return
  __OL__cached_packages[id] end\<close>; \<open>local package = __OL__packages[id]()\<close>;
  \<open>__OL__cached_packages[id] = package\<close>; \<open>return package\<close>.
\<close>

function OL_require :: "nat \<Rightarrow> int \<Rightarrow> runtime \<Rightarrow> (lua_value \<times> runtime) outcome"
  and run_body :: "nat \<Rightarrow> int \<Rightarrow> action list \<Rightarrow> runtime \<Rightarrow> (lua_value \<times> runtime) outcome"
where
  "OL_require fuel id' rt =
     (if truthy (OL_cached_packages rt id') then Done (OL_cached_packages rt id', rt)
      else
        (case OL_packages rt id' of
           None \<Rightarrow> LuaError ''attempt to call a nil value''
         | Some factory \<Rightarrow>
             (case fuel of
                0 \<Rightarrow> Diverged
              | Suc fuel' \<Rightarrow>
                  (case run_body fuel' id' factory (rt\<lparr>executed := executed rt @ [id']\<rparr>) of
                     Done (package', rt') \<Rightarrow>
                       Done (package',
                             rt'\<lparr>OL_cached_packages := (OL_cached_packages rt')(id' := package')\<rparr>)
                   | LuaError e \<Rightarrow> LuaError e
                   | Diverged \<Rightarrow> Diverged))))"
| "run_body fuel self [] rt = Done (LNil, rt)"
| "run_body fuel self (Effect e # rest) rt = run_body fuel self rest (rt\<lparr>printed := printed rt @ [e]\<rparr>)"
| "run_body fuel self (Require k # rest) rt =
     (case OL_require fuel k rt of
        Done (_, rt') \<Rightarrow> run_body fuel self rest rt'
      | LuaError e \<Rightarrow> LuaError e
      | Diverged \<Rightarrow> Diverged)"
| "run_body fuel self (Export v # rest) rt =
     run_body fuel self rest (rt\<lparr>OL_cached_packages := (OL_cached_packages rt)(self := v)\<rparr>)"
| "run_body fuel self (Return v # rest) rt = Done (v, rt)"
  by pat_completeness auto

termination
  by (relation "inv_image (less_than <*lex*> less_than)
        (\<lambda>x. case x of Inl (fuel, _) \<Rightarrow> (fuel, 0)
                      | Inr (fuel, self, acts, rt) \<Rightarrow> (fuel, Suc (length acts)))")
    auto

declare OL_require.simps [simp del]

definition start :: "(int \<times> action list) list \<Rightarrow> runtime" where
  "start registry = \<lparr>OL_packages = map_of registry, OL_cached_packages = (\<lambda>_. LNil),
                     printed = [], executed = []\<rparr>"

section \<open>Properties of the model\<close>

subsection \<open>The parser's traversal\<close>

lemma rebuild_children [simp]: "rebuild n (children n) = n"
  by (cases n) simp_all

lemma node_type_rebuild [simp]: "node_type (rebuild n ch) = node_type n"
  by (cases n) simp_all

lemma walk_nodes_Cons_Ok:
  "walk_nodes f E en sc ie tid (n # ns) s = Ok (r, s') \<longleftrightarrow>
     (\<exists>n' s1 ns'. walk_node f E en sc ie tid n s = Ok (n', s1) \<and>
        walk_nodes f E en sc ie tid ns s1 = Ok (ns', s') \<and> r = n' # ns')"
  by (auto split: result.splits)

lemma walk_nodes_append_Ok:
  "walk_nodes f E en sc ie tid (xs @ ys) s = Ok (r, s') \<longleftrightarrow>
     (\<exists>xs' s1 ys'. walk_nodes f E en sc ie tid xs s = Ok (xs', s1) \<and>
        walk_nodes f E en sc ie tid ys s1 = Ok (ys', s') \<and> r = xs' @ ys')"
proof (induction xs arbitrary: s r)
  case Nil
  then show ?case by simp
next
  case (Cons x xs)
  have "(walk_nodes f E en sc ie tid ((x # xs) @ ys) s = Ok (r, s')) \<longleftrightarrow>
     (\<exists>n' s1 ns'. walk_node f E en sc ie tid x s = Ok (n', s1) \<and>
        (\<exists>xs' s2 ys'. walk_nodes f E en sc ie tid xs s1 = Ok (xs', s2) \<and>
        walk_nodes f E en sc ie tid ys s2 = Ok (ys', s') \<and> ns' = xs' @ ys') \<and> r = n' # ns')"
    by (simp only: append_Cons walk_nodes_Cons_Ok Cons.IH)
  also have "\<dots> \<longleftrightarrow> (\<exists>xs' s1 ys'. walk_nodes f E en sc ie tid (x # xs) s = Ok (xs', s1) \<and>
        walk_nodes f E en sc ie tid ys s1 = Ok (ys', s') \<and> r = xs' @ ys')"
    unfolding walk_nodes_Cons_Ok by (rule iffI; clarsimp)
  finally show ?case .
qed

lemma walk_nodes_length:
  "walk_nodes f E en sc ie tid ns s = Ok (ns', s') \<Longrightarrow> length ns' = length ns"
  by (induction ns arbitrary: s ns') (auto simp: walk_nodes_Cons_Ok simp del: walk_nodes.simps(2))

lemma walk_node_leaf:
  "children n = [] \<Longrightarrow> node_type n \<noteq> ''StringCallExpression'' \<Longrightarrow>
   node_type n \<noteq> ''CallExpression'' \<Longrightarrow> node_type n \<noteq> ''AssignmentStatement'' \<Longrightarrow>
   walk_node f E en sc ie tid n s = Ok (n, s)"
  using rebuild_children [of n] by (simp add: walk_node.simps)

lemma walk_node_Identifier [simp]:
  "walk_node f E en sc ie tid (Identifier x l) s = Ok (Identifier x l, s)"
  by (simp add: walk_node_leaf)

lemma walk_node_StringLiteral [simp]:
  "walk_node f E en sc ie tid (StringLiteral x) s = Ok (StringLiteral x, s)"
  by (simp add: walk_node_leaf)

lemma walk_node_NumericLiteral [simp]:
  "walk_node f E en sc ie tid (NumericLiteral x) s = Ok (NumericLiteral x, s)"
  by (simp add: walk_node_leaf)

lemma walk_node_VarargLiteral [simp]:
  "walk_node f E en sc ie tid VarargLiteral s = Ok (VarargLiteral, s)"
  by (simp add: walk_node_leaf)

lemma has_name_Identifier: "has_name x b \<Longrightarrow> \<exists>l. b = Identifier x l"
  by (cases b) simp_all

lemma has_name_walk:
  "has_name x b \<Longrightarrow> walk_node f E en sc ie tid b s = Ok (b, s)"
  by (cases b) simp_all

lemma walk_node_member_names:
  "walk_node f E en sc ie tid (MemberExpression (Identifier x l) ix (Identifier y l')) s =
     Ok (MemberExpression (Identifier x l) ix (Identifier y l'), s)"
  by (subst walk_node.simps) simp

lemma is_export_slot_walk:
  "is_export_slot v \<Longrightarrow> walk_node f E en sc ie tid v s = Ok (v, s)"
proof (erule is_export_slot.elims, goal_cases)
  case (1 b ix i)
  then obtain l l' where "b = Identifier ''package'' l" "i = Identifier ''loaded'' l'"
    using has_name_Identifier by blast
  with 1 show ?case
    by (subst walk_node.simps) (simp add: walk_node_member_names)
qed

lemma is_export_slot_ex [simp]: "is_export_slot export_slot"
  by (simp add: export_slot_def)

lemma first_match_single [simp]: "first_match [x] = x"
  by (cases x) simp_all

lemmas ex_defs =
  ex_env_def c_env_def d_env_def r_env_def n_env_def unreadable_env_def ex_files_def ex_broken_def
  ex_join_def ex_dirname_def ex_main_def q_main_def
  entryScript_of_def new_LuaScript_def new_LuaPackage_def require_call_def export_slot_def
  init_state_def contents_def exists_script_def dots_to_slashes_def

lemmas run_simps =
  recurseResolve.simps new_astnode.simps stringCallExpression.simps callExpression.simps
  walk_node.simps getRequiredModule_def fromPackageJson_def obj_set_def Let_def

subsection \<open>Invariants\<close>

lemma extends_refl [simp]: "extends s s"
  by (simp add: extends_def)

lemma extends_in_refl [simp]: "extends_in p t s s"
  by (simp add: extends_in_def)

lemma extends_imp_in: "extends s s' \<Longrightarrow> extends_in p t s s'"
  by (auto simp: extends_def extends_in_def)

lemma extends_in_trans:
  assumes "extends_in p t s1 s2" "extends_in p t s2 s3"
  shows "extends_in p t s1 s3"
proof -
  have c: "currModuleId s1 \<le> currModuleId s2" "currModuleId s2 \<le> currModuleId s3"
    using assms by (auto simp: extends_in_def)
  have a: "modulesIds s3 q = Some v \<or> (q = p \<and> modulesIds s3 q = Some t)"
    if "modulesIds s1 q = Some v" for q v
  proof -
    from that assms(1) have "modulesIds s2 q = Some v \<or> (q = p \<and> modulesIds s2 q = Some t)"
      by (auto simp: extends_in_def)
    then show ?thesis using assms(2) by (auto simp: extends_in_def)
  qed
  have b: "currModuleId s1 < v \<and> v \<le> currModuleId s3"
    if "q \<noteq> p" "modulesIds s1 q = None" "modulesIds s3 q = Some v" for q v
  proof (cases "modulesIds s2 q")
    case None
    with that assms(2) have "currModuleId s2 < v \<and> v \<le> currModuleId s3"
      by (auto simp: extends_in_def)
    with c show ?thesis by simp
  next
    case (Some w)
    with that assms(1) have w: "currModuleId s1 < w \<and> w \<le> currModuleId s2"
      by (auto simp: extends_in_def)
    from Some assms(2) that(1) have "modulesIds s3 q = Some w"
      by (auto simp: extends_in_def)
    with that w c show ?thesis by simp
  qed
  have d: "\<exists>new. reads s3 = reads s1 @ new"
    using assms by (auto simp: extends_in_def)
  show ?thesis
    unfolding extends_in_def using c a b d by (intro conjI allI impI) auto
qed

lemma in_module_extends:
  assumes "in_module sc ie tid s" "extends s s'"
  shows "in_module sc ie tid s'"
proof -
  have u: "q = path sc" if "modulesIds s' q = Some tid" for q
  proof (cases "modulesIds s q")
    case None
    with that assms(2) have "currModuleId s < tid" by (auto simp: extends_def)
    with assms(1) show ?thesis by (auto simp: in_module_def)
  next
    case (Some v)
    with assms(2) have "modulesIds s' q = Some v" by (auto simp: extends_def)
    with that Some assms(1) show ?thesis by (auto simp: in_module_def)
  qed
  have "modulesIds s' (path sc) = Some (- 1) \<or> (\<not> ie \<and> modulesIds s' (path sc) = Some tid)"
    using assms by (auto simp: in_module_def extends_def)
  moreover have "tid \<le> currModuleId s'"
    using assms by (auto simp: in_module_def extends_def)
  ultimately show ?thesis
    using assms(1) u by (auto simp: in_module_def)
qed

text \<open>The assignment factory.\<close>

lemma assignmentStatement_inv:
  assumes "ok_state s" "in_module sc ie tid s"
    and "assignmentStatement sc ie tid node s = Ok (n', s')"
  shows "ok_state s' \<and> in_module sc ie tid s' \<and> extends_in (path sc) tid s s'"
proof -
  have "s' = s \<or> (\<not> ie \<and> s' = s\<lparr>modulesIds := (modulesIds s)(path sc \<mapsto> tid)\<rparr>)"
    using assms(3)
    by (cases "(sc, ie, tid, node, s)" rule: assignmentStatement.cases)
      (auto split: list.splits if_splits)
  then show ?thesis
  proof
    assume "s' = s"
    with assms show ?thesis by simp
  next
    assume a: "\<not> ie \<and> s' = s\<lparr>modulesIds := (modulesIds s)(path sc \<mapsto> tid)\<rparr>"
    have dom: "path sc \<in> dom (modulesIds s)"
      using assms(2) by (auto simp: in_module_def)
    have 1: "ok_state s'"
      using assms(1,2) a dom unfolding ok_state_def in_module_def
      by (auto split: if_splits)
    have 2: "in_module sc ie tid s'"
      using assms(2) a by (auto simp: in_module_def)
    have 3: "extends_in (path sc) tid s s'"
      using a by (auto simp: extends_in_def)
    from 1 2 3 show ?thesis by simp
  qed
qed

text \<open>Entering and leaving a file.\<close>

lemma enter_ok:
  assumes "ok_state s" "modulesIds s p = None"
  shows "ok_state (s\<lparr>currModuleId := currModuleId s + 1,
                     modulesIds := (modulesIds s)(p \<mapsto> - 1), reads := reads s @ [p]\<rparr>)"
  using assms unfolding ok_state_def
  by (auto split: if_splits simp: domIff) (force+)?


lemma ok_init_state: "ok_state init_state"
  by (simp add: ok_state_def init_state_def)

lemma entered_entry_ok:
  "ok_state (entered True p init_state) \<and> in_module sc True 0 (entered True (path sc) init_state)"
  by (simp add: ok_state_def in_module_def init_state_def entered_def)

lemma ok_state_bound:
  "ok_state s \<Longrightarrow> modulesIds s p = Some v \<Longrightarrow> v \<le> currModuleId s"
  unfolding ok_state_def by force

lemma ok_state_pos: "ok_state s \<Longrightarrow> 0 \<le> currModuleId s"
  by (simp add: ok_state_def)

lemma ok_stateI:
  assumes "0 \<le> currModuleId s"
    and "\<And>p v. modulesIds s p = Some v \<Longrightarrow> v = - 1 \<or> (0 < v \<and> v \<le> currModuleId s)"
    and "\<And>p q v. modulesIds s p = Some v \<Longrightarrow> modulesIds s q = Some v \<Longrightarrow> 0 < v \<Longrightarrow> p = q"
    and "distinct (reads s)" and "set (reads s) = dom (modulesIds s)"
    and "distinct (map fst (modulesAst s))"
    and "\<And>k. k \<in> fst ` set (modulesAst s) \<Longrightarrow> 0 < k \<and> k \<le> currModuleId s"
  shows "ok_state s"
  unfolding ok_state_def using assms by blast

lemma enter_in_module:
  assumes "ok_state s" "modulesIds s p = None" "path sc = p"
  shows "in_module sc False (currModuleId s + 1)
           (s\<lparr>currModuleId := currModuleId s + 1,
              modulesIds := (modulesIds s)(p \<mapsto> - 1), reads := reads s @ [p]\<rparr>)"
proof -
  have u: "q = p" if "((modulesIds s)(p \<mapsto> - 1)) q = Some (currModuleId s + 1)" for q
  proof (rule ccontr)
    assume "q \<noteq> p"
    with that have "modulesIds s q = Some (currModuleId s + 1)" by simp
    with assms(1) have "currModuleId s + 1 \<le> currModuleId s" by (rule ok_state_bound)
    then show False by simp
  qed
  let ?s1 = "s\<lparr>currModuleId := currModuleId s + 1,
              modulesIds := (modulesIds s)(p \<mapsto> - 1), reads := reads s @ [p]\<rparr>"
  have 1: "modulesIds ?s1 (path sc) = Some (- 1)"
    using assms(3) by simp
  have 2: "0 < currModuleId s + 1"
    using ok_state_pos [OF assms(1)] by simp
  have 3: "currModuleId s + 1 \<le> currModuleId ?s1"
    by simp
  have 4: "\<forall>q. modulesIds ?s1 q = Some (currModuleId s + 1) \<longrightarrow> q = path sc"
  proof (intro allI impI)
    fix q
    assume "modulesIds ?s1 q = Some (currModuleId s + 1)"
    then have "((modulesIds s)(p \<mapsto> - 1)) q = Some (currModuleId s + 1)" by simp
    then show "q = path sc" using u assms(3) by blast
  qed
  show ?thesis
    unfolding in_module_def using 1 2 3 4 by (simp only: if_False simp_thms)
qed

lemma entered_simps:
  "modulesIds (entered ie p s) = (modulesIds s)(p \<mapsto> - 1)"
  "currModuleId (entered ie p s) = (if ie then currModuleId s else currModuleId s + 1)"
  "reads (entered ie p s) = reads s @ [p]"
  by (simp_all add: entered_def)

lemma entered_module_ok:
  "ok_state s \<Longrightarrow> modulesIds s p = None \<Longrightarrow> ok_state (entered False p s)"
  unfolding entered_def using enter_ok [of s p] by simp

lemma entered_in_module:
  "ok_state s \<Longrightarrow> modulesIds s (path t) = None \<Longrightarrow>
   in_module t False (currModuleId s + 1) (entered False (path t) s)"
  unfolding entered_def using enter_in_module [of s "path t" t] by simp

lemma keeps_records_refl [simp]: "keeps_records p t s s"
  by (simp add: keeps_records_def)

lemma extends_in_keeps: "extends_in p t s s' \<Longrightarrow> keeps_records p t s s'"
  unfolding extends_in_def keeps_records_def by blast

lemma keeps_records_trans:
  assumes "keeps_records p t s1 s2" "keeps_records p t s2 s3"
  shows "keeps_records p t s1 s3"
  unfolding keeps_records_def
proof (intro allI impI)
  fix q v
  assume "modulesIds s1 q = Some v"
  with assms(1) have "modulesIds s2 q = Some v \<or> (q = p \<and> modulesIds s2 q = Some t)"
    unfolding keeps_records_def by blast
  then show "modulesIds s3 q = Some v \<or> (q = p \<and> modulesIds s3 q = Some t)"
    using assms(2) unfolding keeps_records_def by blast
qed

lemma keeps_records_enter:
  assumes "keeps_records p t s s1" "modulesIds s1 q = None"
    and "keeps_records q u (entered False q s1) s'"
  shows "keeps_records p t s s'"
  unfolding keeps_records_def
proof (intro allI impI)
  fix r v
  assume "modulesIds s r = Some v"
  with assms(1) have a: "modulesIds s1 r = Some v \<or> (r = p \<and> modulesIds s1 r = Some t)"
    unfolding keeps_records_def by blast
  then have rq: "r \<noteq> q" using assms(2) by auto
  from a rq have "modulesIds (entered False q s1) r = Some v
      \<or> (r = p \<and> modulesIds (entered False q s1) r = Some t)"
    by (simp add: entered_simps)
  with assms(3) rq show "modulesIds s' r = Some v \<or> (r = p \<and> modulesIds s' r = Some t)"
    unfolding keeps_records_def by blast
qed

lemma leave_ok:
  assumes "ok_state s" "in_module sc False tid s"
  shows "ok_state (s\<lparr>modulesIds := (modulesIds s)(path sc \<mapsto> tid),
                     modulesAst := obj_set (modulesAst s) tid ast\<rparr>)"
proof -
  let ?m = "(modulesIds s)(path sc \<mapsto> tid)"
  have dom: "path sc \<in> dom (modulesIds s)"
    using assms(2) by (auto simp: in_module_def)
  have t: "0 < tid" "tid \<le> currModuleId s"
    using assms(2) by (auto simp: in_module_def)
  have uq: "q = path sc" if "modulesIds s q = Some tid" for q
    using assms(2) that by (auto simp: in_module_def)
  have k: "fst ` set (obj_set (modulesAst s) tid ast) = {tid} \<union> fst ` set (modulesAst s)"
    by (simp add: obj_set_def dom_update)
  have d: "distinct (map fst (obj_set (modulesAst s) tid ast))"
    using assms(1) by (simp add: obj_set_def distinct_update ok_state_def)
  have 1: "v = - 1 \<or> (0 < v \<and> v \<le> currModuleId s)" if "?m q = Some v" for q v
  proof (cases "q = path sc")
    case True
    with that t show ?thesis by simp
  next
    case False
    with that assms(1) show ?thesis unfolding ok_state_def by force
  qed
  have 2: "q = r" if "?m q = Some v" "?m r = Some v" "0 < v" for q r v
  proof (cases "q = path sc")
    case True
    with that have v: "v = tid" by simp
    show ?thesis
    proof (cases "r = path sc")
      case True
      with \<open>q = path sc\<close> show ?thesis by simp
    next
      case False
      with that v have "modulesIds s r = Some tid" by simp
      with uq False show ?thesis by blast
    qed
  next
    case False
    with that have q: "modulesIds s q = Some v" by simp
    show ?thesis
    proof (cases "r = path sc")
      case True
      with that have "v = tid" by simp
      with q uq False show ?thesis by blast
    next
      case False
      with that have "modulesIds s r = Some v" by simp
      with q that(3) assms(1) show ?thesis unfolding ok_state_def by blast
    qed
  qed
  have 3: "dom ?m = dom (modulesIds s)"
    using dom by auto
  have 4: "\<forall>k \<in> {tid} \<union> fst ` set (modulesAst s). 0 < k \<and> k \<le> currModuleId s"
    using assms(1) t unfolding ok_state_def by blast
  have 5: "0 \<le> currModuleId s" "distinct (reads s)" "set (reads s) = dom (modulesIds s)"
    using assms(1) by (simp_all add: ok_state_def)
  show ?thesis
  proof (rule ok_stateI, goal_cases)
    case 1
    show ?case using 5 by simp
  next
    case (2 q v)
    then have "?m q = Some v" by simp
    from 1 [OF this] show ?case by simp
  next
    case (3 q r v)
    then have "?m q = Some v" "?m r = Some v" by simp_all
    from 2 [OF this 3(3)] show ?case .
  next
    case 4
    show ?case using 5 by simp
  next
    case 5
    show ?case using \<open>set (reads s) = dom (modulesIds s)\<close> 3 by simp
  next
    case 6
    show ?case using d by simp
  next
    case (7 k')
    then have "k' \<in> {tid} \<union> fst ` set (modulesAst s)" using k by simp
    with 4 show ?case by auto
  qed
qed

lemma leave_extends:
  assumes "modulesIds s p = None"
    and "extends_in p (currModuleId s + 1)
           (s\<lparr>currModuleId := currModuleId s + 1,
              modulesIds := (modulesIds s)(p \<mapsto> - 1), reads := reads s @ [p]\<rparr>) s2"
  shows "extends s (s2\<lparr>modulesIds := (modulesIds s2)(p \<mapsto> currModuleId s + 1),
                        modulesAst := m\<rparr>)"
proof -
  let ?s1 = "s\<lparr>currModuleId := currModuleId s + 1,
              modulesIds := (modulesIds s)(p \<mapsto> - 1), reads := reads s @ [p]\<rparr>"
  let ?s' = "s2\<lparr>modulesIds := (modulesIds s2)(p \<mapsto> currModuleId s + 1), modulesAst := m\<rparr>"
  have c: "currModuleId s + 1 \<le> currModuleId s2"
    using assms(2) by (simp add: extends_in_def)
  have a: "modulesIds ?s' q = Some v" if "modulesIds s q = Some v" for q v
  proof -
    from that assms(1) have "q \<noteq> p" by auto
    moreover from this that have "modulesIds ?s1 q = Some v" by simp
    ultimately have "modulesIds s2 q = Some v"
      using assms(2) unfolding extends_in_def by blast
    with \<open>q \<noteq> p\<close> show ?thesis by simp
  qed
  have b: "currModuleId s < v \<and> v \<le> currModuleId ?s'"
    if "modulesIds s q = None" "modulesIds ?s' q = Some v" for q v
  proof (cases "q = p")
    case True
    with that c show ?thesis by simp
  next
    case False
    with that have "modulesIds ?s1 q = None" "modulesIds s2 q = Some v" by simp_all
    with False assms(2) have "currModuleId ?s1 < v \<and> v \<le> currModuleId s2"
      unfolding extends_in_def by blast
    then show ?thesis by simp
  qed
  have r: "\<exists>new. reads ?s' = reads s @ new"
    using assms(2) by (auto simp: extends_in_def)
  show ?thesis
    unfolding extends_def using c a b r by (intro conjI allI impI) auto
qed

lemma ok_state_lookup:
  "ok_state s \<Longrightarrow> modulesIds s p = Some v \<Longrightarrow> v = - 1 \<or> 0 < v"
  by (auto simp: ok_state_def)

text \<open>What a successful call of \<open>recurseResolve\<close> from a factory is made of.\<close>

lemma recurseResolve_resolved:
  "modulesIds s (path sc) = Some v \<Longrightarrow> 0 < v \<Longrightarrow>
   recurseResolve fuel E en sc prev s = Ok (Some v, s)"
  by (subst recurseResolve.simps) (simp add: Let_def)

lemma recurseResolve_in_progress:
  "modulesIds s (path sc) = Some v \<Longrightarrow> v < 0 \<Longrightarrow>
   recurseResolve fuel E en sc (Some prev) s = Throw (CircularDependency (path sc) (path prev))"
  by (subst recurseResolve.simps) (simp add: Let_def)

lemma recurseResolve_no_fuel:
  "modulesIds s (path sc) = None \<Longrightarrow> recurseResolve 0 E en sc prev s = OutOfFuel"
  by (subst recurseResolve.simps) (simp add: Let_def)

lemma recurseResolve_fresh:
  "modulesIds s (path sc) = None \<Longrightarrow>
   recurseResolve (Suc fuel') E en sc (Some prev) s =
     (case contents E sc of
        None \<Rightarrow> Throw (ReadError (path sc))
      | Some src \<Rightarrow>
          (case walk_nodes fuel' E en sc False (currModuleId s + 1) (built (luaparse_parse E src))
                  (s\<lparr>currModuleId := currModuleId s + 1,
                     modulesIds := (modulesIds s)(path sc \<mapsto> - 1),
                     reads := reads s @ [path sc]\<rparr>) of
             Throw e \<Rightarrow> Throw e
           | OutOfFuel \<Rightarrow> OutOfFuel
           | Ok (body', s2) \<Rightarrow>
               (case luaparse_parse E src of
                  SyntaxErrorAfter ns \<Rightarrow> Throw (SyntaxError (path sc))
                | Parsed ast0 \<Rightarrow>
                    Ok (Some (currModuleId s + 1),
                        s2\<lparr>modulesIds := (modulesIds s2)(path sc \<mapsto> currModuleId s + 1),
                           modulesAst := obj_set (modulesAst s2) (currModuleId s + 1)
                                           (ast0\<lparr>body := body'\<rparr>)\<rparr>))))"
  by (subst recurseResolve.simps)
    (simp add: Let_def split: option.split result.split prod.split parsed.split)

lemma recurseResolve_entry:
  "modulesIds s (path sc) = None \<Longrightarrow>
   recurseResolve (Suc fuel') E en sc None s =
     (case contents E sc of
        None \<Rightarrow> Throw (ReadError (path sc))
      | Some src \<Rightarrow>
          (case walk_nodes fuel' E en sc True 0 (built (luaparse_parse E src))
                  (s\<lparr>modulesIds := (modulesIds s)(path sc \<mapsto> - 1),
                     reads := reads s @ [path sc]\<rparr>) of
             Throw e \<Rightarrow> Throw e
           | OutOfFuel \<Rightarrow> OutOfFuel
           | Ok (body', s2) \<Rightarrow>
               (case luaparse_parse E src of
                  SyntaxErrorAfter ns \<Rightarrow> Throw (SyntaxError (path sc))
                | Parsed ast0 \<Rightarrow> Ok (None, s2\<lparr>mainAst := Some (ast0\<lparr>body := body'\<rparr>)\<rparr>))))"
  by (subst recurseResolve.simps)
    (simp add: Let_def split: option.split result.split prod.split parsed.split)

lemma recurseResolve_Ok_cases:
  assumes "recurseResolve fuel E en sc (Some prev) s = Ok (r, s')" "ok_state s"
  shows "(\<exists>v. modulesIds s (path sc) = Some v \<and> 0 < v \<and> r = Some v \<and> s' = s)
     \<or> (\<exists>fuel' src ast0 body' s2.
          modulesIds s (path sc) = None \<and> fuel = Suc fuel' \<and>
          contents E sc = Some src \<and> luaparse_parse E src = Parsed ast0 \<and>
          walk_nodes fuel' E en sc False (currModuleId s + 1) (body ast0)
            (s\<lparr>currModuleId := currModuleId s + 1,
               modulesIds := (modulesIds s)(path sc \<mapsto> - 1), reads := reads s @ [path sc]\<rparr>)
            = Ok (body', s2) \<and>
          r = Some (currModuleId s + 1) \<and>
          s' = s2\<lparr>modulesIds := (modulesIds s2)(path sc \<mapsto> currModuleId s + 1),
                  modulesAst := obj_set (modulesAst s2) (currModuleId s + 1) (ast0\<lparr>body := body'\<rparr>)\<rparr>)"
proof (cases "modulesIds s (path sc)")
  case None
  show ?thesis
  proof (cases fuel)
    case 0
    with None assms(1) show ?thesis by (simp add: recurseResolve_no_fuel)
  next
    case (Suc fuel')
    from assms(1) have e: "recurseResolve (Suc fuel') E en sc (Some prev) s = Ok (r, s')"
      using Suc by simp
    from e obtain src where src: "contents E sc = Some src"
      unfolding recurseResolve_fresh [OF None] by (cases "contents E sc") auto
    from e src obtain body' s2 where
      w0: "walk_nodes fuel' E en sc False (currModuleId s + 1) (built (luaparse_parse E src))
            (s\<lparr>currModuleId := currModuleId s + 1,
               modulesIds := (modulesIds s)(path sc \<mapsto> - 1), reads := reads s @ [path sc]\<rparr>)
            = Ok (body', s2)"
      unfolding recurseResolve_fresh [OF None]
      by (auto split: result.splits)
    from e src w0 obtain ast0 where ast0: "luaparse_parse E src = Parsed ast0"
      unfolding recurseResolve_fresh [OF None] by (cases "luaparse_parse E src") auto
    from w0 ast0 have
      w: "walk_nodes fuel' E en sc False (currModuleId s + 1) (body ast0)
            (s\<lparr>currModuleId := currModuleId s + 1,
               modulesIds := (modulesIds s)(path sc \<mapsto> - 1), reads := reads s @ [path sc]\<rparr>)
            = Ok (body', s2)"
      by simp
    from e src ast0 w have "r = Some (currModuleId s + 1)"
      "s' = s2\<lparr>modulesIds := (modulesIds s2)(path sc \<mapsto> currModuleId s + 1),
                  modulesAst := obj_set (modulesAst s2) (currModuleId s + 1) (ast0\<lparr>body := body'\<rparr>)\<rparr>"
      unfolding recurseResolve_fresh [OF None] by auto
    with None Suc src ast0 w show ?thesis by blast
  qed
next
  case (Some v)
  with assms(2) have "v = - 1 \<or> 0 < v" by (rule ok_state_lookup)
  with Some assms(1) show ?thesis
    by (auto simp: recurseResolve_resolved recurseResolve_in_progress)
qed

lemma walk_node_Ok_cases:
  assumes "walk_node fuel E en sc ie tid n s = Ok (n', s')"
  obtains ch s1 where "walk_nodes fuel E en sc ie tid (children n) s = Ok (ch, s1)"
    and "(node_type n = ''StringCallExpression'' \<and>
           stringCallExpression fuel E en sc (rebuild n ch) s1 = Ok (n', s'))
       \<or> (node_type n = ''CallExpression'' \<and>
           callExpression fuel E en sc (rebuild n ch) s1 = Ok (n', s'))
       \<or> (node_type n = ''AssignmentStatement'' \<and>
           assignmentStatement sc ie tid (rebuild n ch) s1 = Ok (n', s'))
       \<or> (node_type n \<noteq> ''StringCallExpression'' \<and> node_type n \<noteq> ''CallExpression'' \<and>
           node_type n \<noteq> ''AssignmentStatement'' \<and> n' = rebuild n ch \<and> s' = s1)"
proof -
  from assms obtain ch s1 where w: "walk_nodes fuel E en sc ie tid (children n) s = Ok (ch, s1)"
    by (subst (asm) walk_node.simps) (auto split: result.splits)
  with assms have "(if node_type n = ''StringCallExpression''
               then stringCallExpression fuel E en sc (rebuild n ch) s1
             else if node_type n = ''CallExpression''
               then callExpression fuel E en sc (rebuild n ch) s1
             else if node_type n = ''AssignmentStatement''
               then assignmentStatement sc ie tid (rebuild n ch) s1
             else Ok (rebuild n ch, s1)) = Ok (n', s')"
    by (subst (asm) walk_node.simps) (simp add: Let_def)
  then have "(node_type n = ''StringCallExpression'' \<and>
           stringCallExpression fuel E en sc (rebuild n ch) s1 = Ok (n', s'))
       \<or> (node_type n = ''CallExpression'' \<and>
           callExpression fuel E en sc (rebuild n ch) s1 = Ok (n', s'))
       \<or> (node_type n = ''AssignmentStatement'' \<and>
           assignmentStatement sc ie tid (rebuild n ch) s1 = Ok (n', s'))
       \<or> (node_type n \<noteq> ''StringCallExpression'' \<and> node_type n \<noteq> ''CallExpression'' \<and>
           node_type n \<noteq> ''AssignmentStatement'' \<and> n' = rebuild n ch \<and> s' = s1)"
    by (auto split: if_splits)
  with w show ?thesis using that by blast
qed

lemma new_astnode_Ok:
  assumes "new_astnode fuel E en sc m node s = Ok (n', s')"
  obtains required module_id where "getRequiredModule E en sc m = Ok (Some required)"
    and "recurseResolve fuel E en required (Some sc) s = Ok (Some module_id, s')"
    and "n' = CallExpression (Identifier ''__OL__require'' (Some True)) [NumericLiteral module_id]"
  using assms
  by (subst (asm) new_astnode.simps)
    (auto split: result.splits option.splits prod.splits)

lemma stringCallExpression_Ok:
  assumes "stringCallExpression fuel E en sc node s = Ok (n', s')"
  shows "(n' = node \<and> s' = s)
     \<or> (\<exists>b m. node = StringCallExpression b (StringLiteral m) \<and> has_name ''require'' b \<and>
           new_astnode fuel E en sc m node s = Ok (n', s'))"
  using assms
  by (subst (asm) stringCallExpression.simps)
    (auto split: node.splits if_splits)

lemma callExpression_Ok:
  assumes "callExpression fuel E en sc node s = Ok (n', s')"
  shows "(n' = node \<and> s' = s)
     \<or> (\<exists>b m rest. node = CallExpression b (StringLiteral m # rest) \<and> has_name ''require'' b \<and>
           new_astnode fuel E en sc m node s = Ok (n', s'))"
  using assms
  by (subst (asm) callExpression.simps)
    (auto split: node.splits if_splits list.splits)


lemma traversal_invariants:
  shows "\<forall>r s'. previousScript \<noteq> None \<longrightarrow> ok_state s \<longrightarrow>
           recurseResolve fuel E entryScript script previousScript s = Ok (r, s') \<longrightarrow>
           ok_state s' \<and> extends s s' \<and>
           (\<exists>i. r = Some i \<and> 0 < i \<and> modulesIds s' (path script) = Some i)"
    and "\<forall>n' s'. ok_state s \<longrightarrow>
           new_astnode fuel E entryScript script module node s = Ok (n', s') \<longrightarrow>
           ok_state s' \<and> extends s s'"
    and "\<forall>n' s'. ok_state s \<longrightarrow>
           stringCallExpression fuel E entryScript script node s = Ok (n', s') \<longrightarrow>
           ok_state s' \<and> extends s s'"
    and "\<forall>n' s'. ok_state s \<longrightarrow>
           callExpression fuel E entryScript script node s = Ok (n', s') \<longrightarrow>
           ok_state s' \<and> extends s s'"
    and "\<forall>n' s'. ok_state s \<longrightarrow> in_module script is_entry thisModuleId s \<longrightarrow>
           walk_node fuel E entryScript script is_entry thisModuleId n s = Ok (n', s') \<longrightarrow>
           ok_state s' \<and> in_module script is_entry thisModuleId s' \<and>
           extends_in (path script) thisModuleId s s'"
    and "\<forall>ns' s'. ok_state s \<longrightarrow> in_module script is_entry thisModuleId s \<longrightarrow>
           walk_nodes fuel E entryScript script is_entry thisModuleId ns s = Ok (ns', s') \<longrightarrow>
           ok_state s' \<and> in_module script is_entry thisModuleId s' \<and>
           extends_in (path script) thisModuleId s s'"
proof (induction fuel E entryScript script previousScript s
    and fuel E entryScript script module node s
    and fuel E entryScript script node s
    and fuel E entryScript script node s
    and fuel E entryScript script is_entry thisModuleId n s
    and fuel E entryScript script is_entry thisModuleId ns s
    rule: recurseResolve_new_astnode_stringCallExpression_callExpression_walk_node_walk_nodes.induct)
  case (1 fuel E entryScript script previousScript s)
  show ?case
  proof (intro allI impI)
    fix r s'
    assume prev: "previousScript \<noteq> None" and ok: "ok_state s"
      and run: "recurseResolve fuel E entryScript script previousScript s = Ok (r, s')"
    from prev obtain pv where pv: "previousScript = Some pv" by auto
    from run ok pv consider
      (resolved) v where "modulesIds s (path script) = Some v" "0 < v" "r = Some v" "s' = s"
    | (fresh) fuel' src ast0 body' s2 where
        "modulesIds s (path script) = None" "fuel = Suc fuel'"
        "contents E script = Some src" "luaparse_parse E src = Parsed ast0"
        "walk_nodes fuel' E entryScript script False (currModuleId s + 1) (body ast0)
            (s\<lparr>currModuleId := currModuleId s + 1,
               modulesIds := (modulesIds s)(path script \<mapsto> - 1),
               reads := reads s @ [path script]\<rparr>) = Ok (body', s2)"
        "r = Some (currModuleId s + 1)"
        "s' = s2\<lparr>modulesIds := (modulesIds s2)(path script \<mapsto> currModuleId s + 1),
                  modulesAst := obj_set (modulesAst s2) (currModuleId s + 1)
                                  (ast0\<lparr>body := body'\<rparr>)\<rparr>"
      using recurseResolve_Ok_cases [of fuel E entryScript script pv s r s'] by blast
    then show "ok_state s' \<and> extends s s' \<and>
           (\<exists>i. r = Some i \<and> 0 < i \<and> modulesIds s' (path script) = Some i)"
    proof cases
      case resolved
      with ok show ?thesis by simp
    next
      case fresh
      let ?s1 = "s\<lparr>currModuleId := currModuleId s + 1,
               modulesIds := (modulesIds s)(path script \<mapsto> - 1),
               reads := reads s @ [path script]\<rparr>"
      let ?tid = "currModuleId s + 1"
      have ok1: "ok_state ?s1" using ok fresh(1) by (rule enter_ok)
      have in1: "in_module script False ?tid ?s1"
        using ok fresh(1) by (rule enter_in_module) simp
      have IH: "\<forall>ns' s'. ok_state ?s1 \<longrightarrow> in_module script False ?tid ?s1 \<longrightarrow>
           walk_nodes fuel' E entryScript script False ?tid (body ast0) ?s1 = Ok (ns', s') \<longrightarrow>
           ok_state s' \<and> in_module script False ?tid s' \<and>
           extends_in (path script) ?tid ?s1 s'"
        using "1.IH" [of False None fuel' ?tid
            "s\<lparr>currModuleId := currModuleId s + 1,
               modulesIds := (modulesIds s)(path script \<mapsto> - 1)\<rparr>" src]
          pv fresh(1-4)
        by simp
      from IH ok1 in1 fresh(5) have
        2: "ok_state s2" "in_module script False ?tid s2" "extends_in (path script) ?tid ?s1 s2"
        by blast+
      have a: "ok_state s'"
        unfolding fresh(7) using 2(1,2) by (rule leave_ok)
      have b: "extends s s'"
        unfolding fresh(7) using fresh(1) 2(3) by (rule leave_extends)
      have c: "0 < ?tid" using ok_state_pos [OF ok] by simp
      show ?thesis
        using a b c fresh(6) by (simp add: fresh(7))
    qed
  qed
next
  case (2 fuel E entryScript script module node s)
  show ?case
  proof (intro allI impI)
    fix n' s'
    assume ok: "ok_state s"
      and run: "new_astnode fuel E entryScript script module node s = Ok (n', s')"
    from run obtain required module_id where
      g: "getRequiredModule E entryScript script module = Ok (Some required)"
      and r: "recurseResolve fuel E entryScript required (Some script) s = Ok (Some module_id, s')"
      by (rule new_astnode_Ok)
    from "2.IH" [OF g refl] ok r show "ok_state s' \<and> extends s s'"
      by blast
  qed
next
  case (3 fuel E entryScript script node s)
  show ?case
  proof (intro allI impI)
    fix n' s'
    assume ok: "ok_state s"
      and run: "stringCallExpression fuel E entryScript script node s = Ok (n', s')"
    from stringCallExpression_Ok [OF run] show "ok_state s' \<and> extends s s'"
    proof (elim disjE exE conjE)
      assume "n' = node" "s' = s"
      with ok show ?thesis by simp
    next
      fix b m
      assume "node = StringCallExpression b (StringLiteral m)" "has_name ''require'' b"
        "new_astnode fuel E entryScript script m node s = Ok (n', s')"
      with "3.IH" [of b "StringLiteral m" m] ok show ?thesis by blast
    qed
  qed
next
  case (4 fuel E entryScript script node s)
  show ?case
  proof (intro allI impI)
    fix n' s'
    assume ok: "ok_state s"
      and run: "callExpression fuel E entryScript script node s = Ok (n', s')"
    from callExpression_Ok [OF run] show "ok_state s' \<and> extends s s'"
    proof (elim disjE exE conjE)
      assume "n' = node" "s' = s"
      with ok show ?thesis by simp
    next
      fix b m rest
      assume "node = CallExpression b (StringLiteral m # rest)" "has_name ''require'' b"
        "new_astnode fuel E entryScript script m node s = Ok (n', s')"
      with "4.IH" [of b "StringLiteral m # rest" "StringLiteral m" rest m] ok show ?thesis by blast
    qed
  qed
next
  case (5 fuel E entryScript script is_entry thisModuleId n s)
  show ?case
  proof (intro allI impI)
    fix n' s'
    assume ok: "ok_state s" and im: "in_module script is_entry thisModuleId s"
      and run: "walk_node fuel E entryScript script is_entry thisModuleId n s = Ok (n', s')"
    from run obtain ch s1 where
      w: "walk_nodes fuel E entryScript script is_entry thisModuleId (children n) s = Ok (ch, s1)"
      and h: "(node_type n = ''StringCallExpression'' \<and>
           stringCallExpression fuel E entryScript script (rebuild n ch) s1 = Ok (n', s'))
       \<or> (node_type n = ''CallExpression'' \<and>
           callExpression fuel E entryScript script (rebuild n ch) s1 = Ok (n', s'))
       \<or> (node_type n = ''AssignmentStatement'' \<and>
           assignmentStatement script is_entry thisModuleId (rebuild n ch) s1 = Ok (n', s'))
       \<or> (node_type n \<noteq> ''StringCallExpression'' \<and> node_type n \<noteq> ''CallExpression'' \<and>
           node_type n \<noteq> ''AssignmentStatement'' \<and> n' = rebuild n ch \<and> s' = s1)"
      by (rule walk_node_Ok_cases)
    from "5.IH"(1) ok im w have
      1: "ok_state s1" "in_module script is_entry thisModuleId s1"
         "extends_in (path script) thisModuleId s s1"
      by blast+
    have nested: "ok_state s' \<and> in_module script is_entry thisModuleId s' \<and>
           extends_in (path script) thisModuleId s s'"
      if "ok_state s'" "extends s1 s'"
      using that 1 in_module_extends extends_imp_in extends_in_trans by blast
    from h show "ok_state s' \<and> in_module script is_entry thisModuleId s' \<and>
           extends_in (path script) thisModuleId s s'"
    proof (elim disjE conjE)
      assume t: "node_type n = ''StringCallExpression''"
        and r: "stringCallExpression fuel E entryScript script (rebuild n ch) s1 = Ok (n', s')"
      from "5.IH"(2) [OF w refl refl t] 1(1) r have "ok_state s'" "extends s1 s'" by blast+
      then show ?thesis by (rule nested)
    next
      assume t: "node_type n = ''CallExpression''"
        and r: "callExpression fuel E entryScript script (rebuild n ch) s1 = Ok (n', s')"
      then have nt: "node_type n \<noteq> ''StringCallExpression''" by simp
      from "5.IH"(3) [OF w refl refl nt t] 1(1) r have "ok_state s'" "extends s1 s'" by blast+
      then show ?thesis by (rule nested)
    next
      assume "node_type n = ''AssignmentStatement''"
        and r: "assignmentStatement script is_entry thisModuleId (rebuild n ch) s1 = Ok (n', s')"
      from assignmentStatement_inv [OF 1(1,2) r] 1(3) show ?thesis
        using extends_in_trans by blast
    next
      assume "s' = s1"
      with 1 show ?thesis by simp
    qed
  qed
next
  case (6 fuel E entryScript script is_entry thisModuleId s)
  show ?case by simp
next
  case (7 fuel E entryScript script is_entry thisModuleId n ns s)
  show ?case
  proof (intro allI impI)
    fix ns' s'
    assume ok: "ok_state s" and im: "in_module script is_entry thisModuleId s"
      and run: "walk_nodes fuel E entryScript script is_entry thisModuleId (n # ns) s = Ok (ns', s')"
    from run obtain n' s1 ns1 where
      a: "walk_node fuel E entryScript script is_entry thisModuleId n s = Ok (n', s1)"
      and b: "walk_nodes fuel E entryScript script is_entry thisModuleId ns s1 = Ok (ns1, s')"
      unfolding walk_nodes_Cons_Ok by blast
    from "7.IH"(1) ok im a have
      1: "ok_state s1" "in_module script is_entry thisModuleId s1"
         "extends_in (path script) thisModuleId s s1"
      by blast+
    from "7.IH"(2) [OF a refl] 1(1,2) b have
      2: "ok_state s'" "in_module script is_entry thisModuleId s'"
         "extends_in (path script) thisModuleId s1 s'"
      by blast+
    from 1(3) 2 show "ok_state s' \<and> in_module script is_entry thisModuleId s' \<and>
           extends_in (path script) thisModuleId s s'"
      using extends_in_trans by blast
  qed
qed

subsection \<open>The first error ends the build\<close>

text \<open>
  An import site is built by \<open>new_astnode\<close>; and what a factory throws at a node the
  traversal reaches is what the parser, \<open>recurseResolve\<close> and the build throw.
\<close>

lemma import_of_type:
  "import_of node = Some m \<Longrightarrow>
     node_type node = ''CallExpression'' \<or> node_type node = ''StringCallExpression''"
  by (cases "node" rule: import_of.cases) simp_all

lemma import_of_callExpression:
  "import_of node = Some m \<Longrightarrow> node_type node = ''CallExpression'' \<Longrightarrow>
   callExpression f E en sc node s = new_astnode f E en sc m node s"
  by (cases "node" rule: import_of.cases)
     (simp_all add: callExpression.simps split: if_splits)

lemma import_of_stringCallExpression:
  "import_of node = Some m \<Longrightarrow> node_type node = ''StringCallExpression'' \<Longrightarrow>
   stringCallExpression f E en sc node s = new_astnode f E en sc m node s"
  by (cases "node" rule: import_of.cases)
     (simp_all add: stringCallExpression.simps split: if_splits)

lemma walk_node_import:
  assumes "walk_nodes f E en sc ie tid (children n) s = Ok (ch, s1)"
    and "import_of (rebuild n ch) = Some m"
  shows "walk_node f E en sc ie tid n s = new_astnode f E en sc m (rebuild n ch) s1"
proof -
  from import_of_type [OF assms(2)]
  have t: "node_type n = ''CallExpression'' \<or> node_type n = ''StringCallExpression''"
    by simp
  then show ?thesis
  proof
    assume c: "node_type n = ''CallExpression''"
    then have "node_type (rebuild n ch) = ''CallExpression''" by simp
    from import_of_callExpression [OF assms(2) this] c assms(1) show ?thesis
      by (subst walk_node.simps) simp
  next
    assume c: "node_type n = ''StringCallExpression''"
    then have "node_type (rebuild n ch) = ''StringCallExpression''" by simp
    from import_of_stringCallExpression [OF assms(2) this] c assms(1) show ?thesis
      by (subst walk_node.simps) simp
  qed
qed

lemma walk_nodes_Cons_Throw:
  "walk_node f E en sc ie tid c s = Throw e \<Longrightarrow>
   walk_nodes f E en sc ie tid (c # cs) s = Throw e"
  by simp

lemma walk_nodes_later_Throw:
  "walk_node f E en sc ie tid c s = Ok (c', s1) \<Longrightarrow>
   walk_nodes f E en sc ie tid cs s1 = Throw e \<Longrightarrow>
   walk_nodes f E en sc ie tid (c # cs) s = Throw e"
  by simp

lemma walk_node_children_Throw:
  "walk_nodes f E en sc ie tid (children n) s = Throw e \<Longrightarrow>
   walk_node f E en sc ie tid n s = Throw e"
  by (subst walk_node.simps) simp

lemma recurseResolve_walk_Throw:
  assumes "modulesIds s (path t) = None" "contents E t = Some src"
    and "walk_nodes f E en t False (currModuleId s + 1) (built (luaparse_parse E src))
           (entered False (path t) s) = Throw e"
  shows "recurseResolve (Suc f) E en t (Some prev) s = Throw e"
  using assms(2,3) unfolding recurseResolve_fresh [OF assms(1)]
  by (simp add: entered_def)

lemma new_astnode_Throw:
  "getRequiredModule E en sc m = Ok (Some t) \<Longrightarrow>
   recurseResolve f E en t (Some sc) s = Throw e \<Longrightarrow>
   new_astnode f E en sc m node s = Throw e"
  by (subst new_astnode.simps) simp

lemma reaches_Throw:
  assumes "walk_node f' E en sc' ie' tid' x s' = Throw e"
  shows "reaches E en f' sc' ie' tid' x s' f sc ie tid n s \<Longrightarrow>
           walk_node f E en sc ie tid n s = Throw e"
    and "reaches_list E en f' sc' ie' tid' x s' f sc ie tid ns s \<Longrightarrow>
           walk_nodes f E en sc ie tid ns s = Throw e"
proof (induction rule: reaches_reaches_list.inducts)
  case here
  show ?case by (rule assms)
next
  case (below f sc ie tid n s)
  then show ?case by (intro walk_node_children_Throw)
next
  case (imported f sc ie tid n s ch s1 m t src)
  have w: "walk_nodes (Suc f) E en sc ie tid (children n) s = Ok (ch, s1)" by fact
  have i: "import_of (rebuild n ch) = Some m" by fact
  have g: "getRequiredModule E en sc m = Ok (Some t)" by fact
  have fresh: "modulesIds s1 (path t) = None" by fact
  have c: "contents E t = Some src" by fact
  have IH: "walk_nodes f E en t False (currModuleId s1 + 1) (built (luaparse_parse E src))
              (entered False (path t) s1) = Throw e" by fact
  have "recurseResolve (Suc f) E en t (Some sc) s1 = Throw e"
    using fresh c IH by (rule recurseResolve_walk_Throw)
  with g have "new_astnode (Suc f) E en sc m (rebuild n ch) s1 = Throw e"
    by (rule new_astnode_Throw)
  with walk_node_import [OF w i] show ?case by simp
next
  case (first f sc ie tid c s cs)
  then show ?case by (intro walk_nodes_Cons_Throw)
next
  case (later f sc ie tid c s c' s1 cs)
  then show ?case by (intro walk_nodes_later_Throw)
qed

lemma build_reaches_Throw:
  assumes "build_reaches E entry fuel f' sc' ie' tid' x s'"
    and "walk_node f' E (entryScript_of E entry) sc' ie' tid' x s' = Throw e"
  shows "process fuel E entry = Throw e"
proof -
  let ?en = "entryScript_of E entry"
  from assms(1) obtain f src where ex: "exists_script E ?en" and fuel: "fuel = Suc f"
    and src: "contents E ?en = Some src"
    and r: "reaches_list E ?en f' sc' ie' tid' x s' f ?en True 0
              (built (luaparse_parse E src)) (entered True (path ?en) init_state)"
    unfolding build_reaches_def Let_def by (auto split: nat.splits option.splits)
  from reaches_Throw(2) [OF assms(2) r]
  have w: "walk_nodes f E ?en ?en True 0 (built (luaparse_parse E src))
             (entered True (path ?en) init_state) = Throw e" .
  have n: "modulesIds init_state (path ?en) = None" by (simp add: init_state_def)
  have "recurseResolve (Suc f) E ?en ?en None init_state = Throw e"
    unfolding recurseResolve_entry [OF n] using src w by (simp add: entered_def)
  with ex fuel show ?thesis by (simp add: process_def Let_def)
qed

lemma walk_require_children:
  "walk_nodes f E en sc ie tid (children (require_call m)) s =
     Ok ([Identifier ''require'' (Some False), StringLiteral m], s)"
  by (simp add: require_call_def)

lemma rebuild_require:
  "rebuild (require_call m) [Identifier ''require'' (Some False), StringLiteral m] = require_call m"
  by (simp add: require_call_def)

lemma import_of_require [simp]: "import_of (require_call m) = Some m"
  by (simp add: require_call_def)

lemma reaches_statement:
  "reaches E en f' sc' ie' tid' x s' f sc ie tid e s \<Longrightarrow>
   reaches_list E en f' sc' ie' tid' x s' f sc ie tid (CallStatement e # rest) s"
  by (rule reaches_reaches_list.first, rule reaches_reaches_list.below, simp,
      rule reaches_reaches_list.first)

lemma reaches_import:
  assumes "getRequiredModule E en sc m = Ok (Some t)"
    and "modulesIds s (path t) = None"
    and "contents E t = Some src"
    and "reaches_list E en f' sc' ie' tid' x s' f t False (currModuleId s + 1)
       (built (luaparse_parse E src)) (entered False (path t) s)"
  shows "reaches E en f' sc' ie' tid' x s' (Suc f) sc ie tid (require_call m) s"
  using assms
  by (intro reaches_reaches_list.imported [OF walk_require_children, where m = m and t = t and src = src])
     (simp_all add: rebuild_require)

text \<open>
  The factories run before a syntax error is raised: \<open>/p/broken.lua\<close> imports \<open>lib.b\<close>,
  which is read and parsed, and then fails to parse; \<open>/p/broken_after_missing.lua\<close>
  imports a module that is not found, and the build raises that error, not the syntax
  error that follows.
\<close>

lemma hooks_run_before_syntax_error:
  "process 2 ex_env ''broken.lua'' = Throw (SyntaxError ''/p/broken.lua'')"
  "process 1 ex_env ''broken_after_missing.lua'' =
     Throw (ModuleNotFound ''missing'' ''/p/broken_after_missing.lua'')"
  by code_simp+

subsection \<open>What the parser keeps of a node\<close>

lemma assignmentStatement_type:
  "assignmentStatement sc ie tid node s = Ok (n', s') \<Longrightarrow> node_type n' = node_type node"
  by (cases "(sc, ie, tid, node, s)" rule: assignmentStatement.cases)
    (auto split: list.splits if_splits)

lemma new_astnode_type:
  "new_astnode fuel E en sc m node s = Ok (n', s') \<Longrightarrow> node_type n' = ''CallExpression''"
  by (erule new_astnode_Ok) simp

lemma walk_node_type:
  assumes "walk_node fuel E en sc ie tid n s = Ok (n', s')"
  shows "node_type n' = node_type n
     \<or> (node_type n = ''StringCallExpression'' \<and> node_type n' = ''CallExpression'')"
  using assms
proof (rule walk_node_Ok_cases)
  fix ch s1
  assume "(node_type n = ''StringCallExpression'' \<and>
           stringCallExpression fuel E en sc (rebuild n ch) s1 = Ok (n', s'))
       \<or> (node_type n = ''CallExpression'' \<and>
           callExpression fuel E en sc (rebuild n ch) s1 = Ok (n', s'))
       \<or> (node_type n = ''AssignmentStatement'' \<and>
           assignmentStatement sc ie tid (rebuild n ch) s1 = Ok (n', s'))
       \<or> (node_type n \<noteq> ''StringCallExpression'' \<and> node_type n \<noteq> ''CallExpression'' \<and>
           node_type n \<noteq> ''AssignmentStatement'' \<and> n' = rebuild n ch \<and> s' = s1)"
  then show ?thesis
  proof (elim disjE conjE)
    assume "node_type n = ''StringCallExpression''"
      "stringCallExpression fuel E en sc (rebuild n ch) s1 = Ok (n', s')"
    then show ?thesis
      using stringCallExpression_Ok [of fuel E en sc "rebuild n ch" s1 n' s'] new_astnode_type
      by auto
  next
    assume "node_type n = ''CallExpression''"
      "callExpression fuel E en sc (rebuild n ch) s1 = Ok (n', s')"
    then show ?thesis
      using callExpression_Ok [of fuel E en sc "rebuild n ch" s1 n' s'] new_astnode_type
      by auto
  next
    assume "node_type n = ''AssignmentStatement''"
      "assignmentStatement sc ie tid (rebuild n ch) s1 = Ok (n', s')"
    then show ?thesis
      using assignmentStatement_type by fastforce
  next
    assume "n' = rebuild n ch"
    then show ?thesis by simp
  qed
qed

lemma node_type_Identifier: "node_type n = ''Identifier'' \<Longrightarrow> \<exists>x l. n = Identifier x l"
  by (cases n) simp_all

lemma node_type_StringLiteral: "node_type n = ''StringLiteral'' \<Longrightarrow> \<exists>x. n = StringLiteral x"
  by (cases n) simp_all

lemma node_type_VarargLiteral: "node_type n = ''VarargLiteral'' \<Longrightarrow> n = VarargLiteral"
  by (cases n) simp_all

lemma walk_node_to_Identifier:
  assumes "walk_node fuel E en sc ie tid n s = Ok (Identifier x l, s')"
  shows "n = Identifier x l"
proof -
  from walk_node_type [OF assms] have "node_type n = ''Identifier''" by simp
  then obtain y k where "n = Identifier y k" using node_type_Identifier by blast
  with assms show ?thesis by simp
qed

lemma walk_node_to_VarargLiteral:
  assumes "walk_node fuel E en sc ie tid n s = Ok (VarargLiteral, s')"
  shows "n = VarargLiteral"
proof -
  from walk_node_type [OF assms] have "node_type n = ''VarargLiteral''" by simp
  then show ?thesis by (rule node_type_VarargLiteral)
qed

lemma walk_node_not_StringLiteral:
  assumes "walk_node fuel E en sc ie tid n s = Ok (n', s')" "node_type n \<noteq> ''StringLiteral''"
  shows "node_type n' \<noteq> ''StringLiteral''"
  using walk_node_type [OF assms(1)] assms(2) by auto

lemma has_name_walked:
  assumes "walk_node fuel E en sc ie tid n s = Ok (n', s')" "has_name x n'"
  shows "n = n'"
proof -
  from assms(2) obtain l where "n' = Identifier x l" using has_name_Identifier by blast
  with assms(1) show ?thesis using walk_node_to_Identifier by blast
qed

lemma walk_node_plain:
  assumes "node_type n \<noteq> ''StringCallExpression''" "node_type n \<noteq> ''CallExpression''"
    "node_type n \<noteq> ''AssignmentStatement''"
  shows "walk_node fuel E en sc ie tid n s = Ok (n', s') \<longleftrightarrow>
     (\<exists>ch. walk_nodes fuel E en sc ie tid (children n) s = Ok (ch, s') \<and> n' = rebuild n ch)"
  using assms
  by (subst walk_node.simps) (auto simp: Let_def split: result.splits)

lemma walk_nodes_two:
  "walk_nodes fuel E en sc ie tid [a, b] s = Ok (ch, s') \<longleftrightarrow>
     (\<exists>a' s1 b'. walk_node fuel E en sc ie tid a s = Ok (a', s1) \<and>
        walk_node fuel E en sc ie tid b s1 = Ok (b', s') \<and> ch = [a', b'])"
  by (simp only: walk_nodes_Cons_Ok walk_nodes.simps(1)) auto

lemma is_export_slot_shape:
  "is_export_slot v \<longleftrightarrow>
     (\<exists>l ix l'. v = IndexExpression
        (MemberExpression (Identifier ''package'' l) ix (Identifier ''loaded'' l')) VarargLiteral)"
proof
  assume "is_export_slot v"
  then show "\<exists>l ix l'. v = IndexExpression
        (MemberExpression (Identifier ''package'' l) ix (Identifier ''loaded'' l')) VarargLiteral"
    by (rule is_export_slot.elims) (auto dest: has_name_Identifier)
qed auto

lemma node_type_IndexExpression:
  "node_type n = ''IndexExpression'' \<Longrightarrow> \<exists>b i. n = IndexExpression b i"
  by (cases n) simp_all

lemma node_type_MemberExpression:
  "node_type n = ''MemberExpression'' \<Longrightarrow> \<exists>b ix i. n = MemberExpression b ix i"
  by (cases n) simp_all

lemma is_export_slot_walked:
  assumes "walk_node fuel E en sc ie tid v s = Ok (v', s')" "is_export_slot v'"
  shows "is_export_slot v"
proof -
  from assms(2) obtain l ix l' where
    v': "v' = IndexExpression
        (MemberExpression (Identifier ''package'' l) ix (Identifier ''loaded'' l')) VarargLiteral"
    unfolding is_export_slot_shape by blast
  from walk_node_type [OF assms(1)] v' have "node_type v = ''IndexExpression''" by simp
  then obtain x y where v: "v = IndexExpression x y" using node_type_IndexExpression by blast
  from assms(1) v v' obtain s1 where
    x: "walk_node fuel E en sc ie tid x s =
          Ok (MemberExpression (Identifier ''package'' l) ix (Identifier ''loaded'' l'), s1)"
    and y: "walk_node fuel E en sc ie tid y s1 = Ok (VarargLiteral, s')"
    by (auto simp: walk_node_plain walk_nodes_two simp del: walk_nodes.simps(2))
  from y have y': "y = VarargLiteral" by (rule walk_node_to_VarargLiteral)
  from walk_node_type [OF x] have "node_type x = ''MemberExpression''" by simp
  then obtain b jx i where xm: "x = MemberExpression b jx i"
    using node_type_MemberExpression by blast
  from x xm obtain s2 where
    b: "walk_node fuel E en sc ie tid b s = Ok (Identifier ''package'' l, s2)"
    and i: "walk_node fuel E en sc ie tid i s2 = Ok (Identifier ''loaded'' l', s1)"
    and "jx = ix"
    by (auto simp: walk_node_plain walk_nodes_two simp del: walk_nodes.simps(2))
  from b i have "b = Identifier ''package'' l" "i = Identifier ''loaded'' l'"
    using walk_node_to_Identifier by blast+
  with v xm y' show ?thesis by simp
qed

subsection \<open>Module resolution\<close>

lemma fromPackageJson_declared:
  "fromPackageJson E (path_join E d ''/package.json'') = Ok (Some pkg) \<Longrightarrow>
     declared_entry E d \<noteq> None"
  by (auto simp: fromPackageJson_def declared_entry_def Let_def
      split: manifest_file.splits option.splits if_splits)

lemma fromPackageJson_undeclared:
  "declared_entry E d = None \<Longrightarrow>
   require_json E (path_join E d ''/package.json'') \<noteq> Unreadable \<Longrightarrow>
   fromPackageJson E (path_join E d ''/package.json'') = Ok None"
  by (auto simp: fromPackageJson_def declared_entry_def Let_def
      split: manifest_file.splits option.splits if_splits)

lemma fromPackageJson_readable:
  "require_json E p \<noteq> Unreadable \<Longrightarrow> \<exists>r. fromPackageJson E p = Ok r"
  by (auto simp: fromPackageJson_def Let_def split: manifest_file.splits option.splits)

lemma getRequiredModule_returns_spec:
  "getRequiredModule E entryScript requiring specifier = Ok r \<Longrightarrow>
     r = resolve_spec E entryScript requiring specifier"
  by (auto simp: getRequiredModule_def resolve_spec_def own_directory_def
      package_entry_directory_def entry_directory_def installed_dependency_def relative_to_def
      Let_def dest: fromPackageJson_declared
      split: option.splits if_splits prod.splits result.splits)

lemma getRequiredModule_total:
  assumes "resolver_names_package E"
  shows "\<exists>r. getRequiredModule E entryScript requiring specifier = Ok r"
proof -
  obtain a b where ab: "resolver E (dots_to_slashes specifier) (baseDir requiring) = (a, b)"
    by (cases "resolver E (dots_to_slashes specifier) (baseDir requiring)")
  have "a \<noteq> None \<Longrightarrow> \<exists>d r. b = Some d \<and> fromPackageJson E (path_join E d ''/package.json'') = Ok r"
    using assms ab fromPackageJson_readable unfolding resolver_names_package_def
    by (metis fst_conv snd_conv not_None_eq)
  then show ?thesis
    using ab
    by (auto simp: getRequiredModule_def Let_def split: option.splits if_splits result.splits)
qed

text \<open>
  Where the dependency search names a package with a manifest that can be read for every
  file it finds, \<open>getRequiredModule\<close> returns what the four strategies of the
  specification give, the first match winning.
\<close>

lemma getRequiredModule_is_resolve_spec:
  assumes "resolver_names_package E"
  shows "getRequiredModule E entryScript requiring specifier =
           Ok (resolve_spec E entryScript requiring specifier)"
proof -
  from assms obtain r where "getRequiredModule E entryScript requiring specifier = Ok r"
    using getRequiredModule_total by blast
  then show ?thesis
    using getRequiredModule_returns_spec by blast
qed

text \<open>
  Claim C4 fails on the code. For the entry script \<open>/n/main.lua\<close> and the specifier \<open>foo\<close>
  the first three strategies find nothing, and the dependency search finds the file
  \<open>/n/node_modules/foo.lua\<close> without meeting a manifest, so the package filter is never
  called and \<open>pkgPath\<close> stays undefined. The fourth strategy of the specification reports
  not found, since no manifest declares an entry field; \<open>getRequiredModule\<close> neither
  returns a script nor reports not found: \<open>path.join(pkgPath, "/package.json")\<close> throws a
  \<open>TypeError\<close>, and so does the build.
\<close>

theorem dependency_without_package_throws:
  "getRequiredModule n_env n_main n_main ''foo'' = Throw TypeError
   \<and> resolve_spec n_env n_main n_main ''foo'' = None
   \<and> own_directory n_env n_main ''foo'' = None
   \<and> package_entry_directory n_env n_main ''foo'' = None
   \<and> entry_directory n_env n_main n_main ''foo'' = None
   \<and> installed_dependency n_env n_main ''foo'' = None
   \<and> resolver n_env (dots_to_slashes ''foo'') (baseDir n_main) =
       (Some ''/n/node_modules/foo.lua'', None)
   \<and> process 1 n_env ''main.lua'' = Throw TypeError"
  by code_simp

subsection \<open>The rewrites\<close>

lemma walk_export_assignment:
  assumes "is_export_slot v"
    and "walk_nodes f E en sc ie tid (vs @ init) s = Ok (ch, s1)"
  shows "walk_node f E en sc ie tid (AssignmentStatement (v # vs) init) s =
     (if ie then Throw InvalidExportPosition
      else Ok (AssignmentStatement [cache_slot tid] (drop (length vs) ch),
               s1\<lparr>modulesIds := (modulesIds s1)(path sc \<mapsto> tid)\<rparr>))"
  using assms
  by (subst walk_node.simps) (simp add: is_export_slot_walk)

lemma is_export_slot_pattern [simp]:
  "is_export_slot (IndexExpression
      (MemberExpression (Identifier ''package'' l) ix (Identifier ''loaded'' l')) VarargLiteral)"
  by simp

lemma map_of_obj_set: "map_of (obj_set m k v) k = Some v"
  by (simp add: obj_set_def update_conv')

lemma module_walked_with_its_id:
  assumes "ok_state s0" "modulesIds s0 (path sc) = None"
    and "recurseResolve fuel E en sc (Some prev) s0 = Ok (r, s')"
  shows "\<exists>fuel' src ast0 body' s2.
           fuel = Suc fuel' \<and> contents E sc = Some src \<and> luaparse_parse E src = Parsed ast0 \<and>
           walk_nodes fuel' E en sc False (currModuleId s0 + 1) (body ast0)
             (entered False (path sc) s0) = Ok (body', s2) \<and>
           r = Some (currModuleId s0 + 1) \<and>
           map_of (modulesAst s') (currModuleId s0 + 1) = Some (ast0\<lparr>body := body'\<rparr>)"
  using recurseResolve_Ok_cases [OF assms(3,1)] assms(2)
  by (auto simp: entered_def map_of_obj_set)

lemma assignment_left_alone:
  assumes "\<forall>l ix l'. w \<noteq> IndexExpression
      (MemberExpression (Identifier ''package'' l) ix (Identifier ''loaded'' l')) VarargLiteral"
  shows "assignmentStatement sc ie tid (AssignmentStatement (w # ws) init) s =
           Ok (AssignmentStatement (w # ws) init, s)"
proof -
  from assms have "\<not> is_export_slot w" unfolding is_export_slot_shape by blast
  then show ?thesis by simp
qed

text \<open>
  Claim C7, as amended. An assignment statement whose first target matches the export
  slot, \<open>package.loaded[...]\<close>, is rewritten, in a module that is not the entry script,
  into a write to \<open>__OL__cached_packages\<close> at the module's own id, and the module is marked
  resolved; the nodes below the assignment are built first, and the right-hand sides are
  kept as built. When the build reaches such an assignment in the entry script, the nodes
  below it built without an error, it raises \<open>InvalidExportPosition\<close>. The id is the module's own: the file of a module met for the
  first time is parsed with the id that \<open>recurseResolve\<close> returns for it, the key of its
  tree in \<open>modulesAst\<close>. An assignment whose first target does not match is left as it is,
  whatever its other targets.
\<close>

theorem export_assignment_rewritten:
  assumes "walk_nodes f E en sc ie tid (vs @ init) s = Ok (ch, s1)"
  shows "walk_node f E en sc ie tid
           (AssignmentStatement
              (IndexExpression
                 (MemberExpression (Identifier ''package'' l) ix (Identifier ''loaded'' l'))
                 VarargLiteral # vs) init) s =
     (if ie then Throw InvalidExportPosition
      else Ok (AssignmentStatement
                 [IndexExpression (Identifier ''__OL__cached_packages'' None) (NumericLiteral tid)]
                 (drop (length vs) ch),
               s1\<lparr>modulesIds := (modulesIds s1)(path sc \<mapsto> tid)\<rparr>))
   \<and> (\<forall>entry fuel ch' s1'.
        build_reaches E entry fuel f sc True tid
          (AssignmentStatement
              (IndexExpression
                 (MemberExpression (Identifier ''package'' l) ix (Identifier ''loaded'' l'))
                 VarargLiteral # vs) init) s \<longrightarrow>
        walk_nodes f E (entryScript_of E entry) sc True tid (vs @ init) s = Ok (ch', s1') \<longrightarrow>
        process fuel E entry = Throw InvalidExportPosition)
   \<and> (\<forall>fuel prev s0 r s'. ok_state s0 \<longrightarrow> modulesIds s0 (path sc) = None \<longrightarrow>
        recurseResolve fuel E en sc (Some prev) s0 = Ok (r, s') \<longrightarrow>
        (\<exists>fuel' src ast0 body' s2.
           fuel = Suc fuel' \<and> contents E sc = Some src \<and> luaparse_parse E src = Parsed ast0 \<and>
           walk_nodes fuel' E en sc False (currModuleId s0 + 1) (body ast0)
             (entered False (path sc) s0) = Ok (body', s2) \<and>
           r = Some (currModuleId s0 + 1) \<and>
           map_of (modulesAst s') (currModuleId s0 + 1) = Some (ast0\<lparr>body := body'\<rparr>)))
   \<and> (\<forall>w ws init0 s0.
        (\<forall>l ix l'. w \<noteq> IndexExpression
           (MemberExpression (Identifier ''package'' l) ix (Identifier ''loaded'' l')) VarargLiteral) \<longrightarrow>
        assignmentStatement sc ie tid (AssignmentStatement (w # ws) init0) s0 =
          Ok (AssignmentStatement (w # ws) init0, s0))"
proof (intro conjI allI impI)
  show "walk_node f E en sc ie tid
           (AssignmentStatement
              (IndexExpression
                 (MemberExpression (Identifier ''package'' l) ix (Identifier ''loaded'' l'))
                 VarargLiteral # vs) init) s =
     (if ie then Throw InvalidExportPosition
      else Ok (AssignmentStatement
                 [IndexExpression (Identifier ''__OL__cached_packages'' None) (NumericLiteral tid)]
                 (drop (length vs) ch),
               s1\<lparr>modulesIds := (modulesIds s1)(path sc \<mapsto> tid)\<rparr>))"
    using walk_export_assignment [OF is_export_slot_pattern assms]
    by (simp add: cache_slot_def)
next
  fix entry fuel ch' s1'
  assume r: "build_reaches E entry fuel f sc True tid
          (AssignmentStatement
              (IndexExpression
                 (MemberExpression (Identifier ''package'' l) ix (Identifier ''loaded'' l'))
                 VarargLiteral # vs) init) s"
    and w: "walk_nodes f E (entryScript_of E entry) sc True tid (vs @ init) s = Ok (ch', s1')"
  from walk_export_assignment [OF is_export_slot_pattern w]
  have "walk_node f E (entryScript_of E entry) sc True tid
          (AssignmentStatement
              (IndexExpression
                 (MemberExpression (Identifier ''package'' l) ix (Identifier ''loaded'' l'))
                 VarargLiteral # vs) init) s = Throw InvalidExportPosition"
    by simp
  with r show "process fuel E entry = Throw InvalidExportPosition"
    by (rule build_reaches_Throw)
next
  fix fuel prev s0 r s'
  assume "ok_state s0" "modulesIds s0 (path sc) = None"
    "recurseResolve fuel E en sc (Some prev) s0 = Ok (r, s')"
  then show "\<exists>fuel' src ast0 body' s2.
           fuel = Suc fuel' \<and> contents E sc = Some src \<and> luaparse_parse E src = Parsed ast0 \<and>
           walk_nodes fuel' E en sc False (currModuleId s0 + 1) (body ast0)
             (entered False (path sc) s0) = Ok (body', s2) \<and>
           r = Some (currModuleId s0 + 1) \<and>
           map_of (modulesAst s') (currModuleId s0 + 1) = Some (ast0\<lparr>body := body'\<rparr>)"
    by (rule module_walked_with_its_id)
next
  fix w ws init0 s0
  assume "\<forall>l ix l'. w \<noteq> IndexExpression
           (MemberExpression (Identifier ''package'' l) ix (Identifier ''loaded'' l')) VarargLiteral"
  then show "assignmentStatement sc ie tid (AssignmentStatement (w # ws) init0) s0 =
          Ok (AssignmentStatement (w # ws) init0, s0)"
    by (rule assignment_left_alone)
qed

text \<open>
  The amended claim at \<open>package.loaded[...] = 1\<close>: in the module \<open>/p/a.lua\<close>, whose id is \<open>1\<close>
  in the build of \<open>/p/main.lua\<close>, and as the only statement of the entry script
  \<open>/p/export.lua\<close>; and at \<open>x, package.loaded[...] = 1, 2\<close>.
\<close>

lemma export_lua:
  "built (luaparse_parse ex_env ''/p/export.lua'') =
     [AssignmentStatement
        [IndexExpression
           (MemberExpression (Identifier ''package'' (Some False)) ''.'' (Identifier ''loaded'' None))
           VarargLiteral]
        [NumericLiteral 1]]"
  "contents ex_env export_main = Some ''/p/export.lua''"
  "path export_main = ''/p/export.lua''"
  "exists_script ex_env export_main"
  by (simp_all add: ex_defs export_main_def)

lemma export_reaches:
  "build_reaches ex_env ''export.lua'' (Suc 0) 0 export_main True 0
     (AssignmentStatement
        [IndexExpression
           (MemberExpression (Identifier ''package'' (Some False)) ''.'' (Identifier ''loaded'' None))
           VarargLiteral]
        [NumericLiteral 1])
     (entered True ''/p/export.lua'' init_state)"
  unfolding build_reaches_def Let_def export_main_def [symmetric]
  by (simp add: export_lua) (intro reaches_reaches_list.first reaches_reaches_list.here)

lemma ex_a_build:
  "\<exists>s'. recurseResolve (Suc (Suc 0)) ex_env ex_main ex_a (Some ex_main)
           (entered True ''/p/main.lua'' init_state) = Ok (Some 1, s')
     \<and> map_of (modulesAst s') 1 =
         Some \<lparr>body = [CallStatement (CallExpression (Identifier ''__OL__require'' (Some True))
                                         [NumericLiteral 2]),
                        AssignmentStatement
                          [IndexExpression (Identifier ''__OL__cached_packages'' None)
                             (NumericLiteral 1)]
                          [NumericLiteral 1]],
                comments = [], globals = [Identifier ''require'' (Some False)]\<rparr>"
  by (simp add: run_simps ex_defs ex_a_def entered_def cache_slot_def)

theorem export_assignment_rewritten_witness:
  "walk_nodes 0 ex_env ex_main ex_a False 1 ([] @ [NumericLiteral 1])
       (entered False ''/p/a.lua'' (entered True ''/p/main.lua'' init_state)) =
       Ok ([NumericLiteral 1], entered False ''/p/a.lua'' (entered True ''/p/main.lua'' init_state))
   \<and> walk_node 0 ex_env ex_main ex_a False 1
       (AssignmentStatement
          [IndexExpression
             (MemberExpression (Identifier ''package'' (Some False)) ''.'' (Identifier ''loaded'' None))
             VarargLiteral]
          [NumericLiteral 1])
       (entered False ''/p/a.lua'' (entered True ''/p/main.lua'' init_state)) =
       Ok (AssignmentStatement
             [IndexExpression (Identifier ''__OL__cached_packages'' None) (NumericLiteral 1)]
             [NumericLiteral 1],
           (entered False ''/p/a.lua'' (entered True ''/p/main.lua'' init_state))
             \<lparr>modulesIds :=
                (modulesIds (entered False ''/p/a.lua'' (entered True ''/p/main.lua'' init_state)))
                  (path ex_a \<mapsto> 1)\<rparr>)
   \<and> build_reaches ex_env ''export.lua'' (Suc 0) 0 export_main True 0
       (AssignmentStatement
          [IndexExpression
             (MemberExpression (Identifier ''package'' (Some False)) ''.'' (Identifier ''loaded'' None))
             VarargLiteral]
          [NumericLiteral 1])
       (entered True ''/p/export.lua'' init_state)
   \<and> walk_nodes 0 ex_env (entryScript_of ex_env ''export.lua'') export_main True 0
       ([] @ [NumericLiteral 1]) (entered True ''/p/export.lua'' init_state) =
       Ok ([NumericLiteral 1], entered True ''/p/export.lua'' init_state)
   \<and> process (Suc 0) ex_env ''export.lua'' = Throw InvalidExportPosition
   \<and> ok_state (entered True ''/p/main.lua'' init_state)
   \<and> modulesIds (entered True ''/p/main.lua'' init_state) (path ex_a) = None
   \<and> (\<exists>s'. recurseResolve (Suc (Suc 0)) ex_env ex_main ex_a (Some ex_main)
              (entered True ''/p/main.lua'' init_state) = Ok (Some 1, s')
          \<and> map_of (modulesAst s') 1 =
              Some \<lparr>body = [CallStatement (CallExpression (Identifier ''__OL__require'' (Some True))
                                              [NumericLiteral 2]),
                             AssignmentStatement
                               [IndexExpression (Identifier ''__OL__cached_packages'' None)
                                  (NumericLiteral 1)]
                               [NumericLiteral 1]],
                     comments = [], globals = [Identifier ''require'' (Some False)]\<rparr>)
   \<and> assignmentStatement ex_a False 1
       (AssignmentStatement
          [Identifier ''x'' (Some False),
           IndexExpression
             (MemberExpression (Identifier ''package'' (Some False)) ''.'' (Identifier ''loaded'' None))
             VarargLiteral]
          [NumericLiteral 1, NumericLiteral 2])
       (entered False ''/p/a.lua'' (entered True ''/p/main.lua'' init_state)) =
       Ok (AssignmentStatement
             [Identifier ''x'' (Some False),
              IndexExpression
                (MemberExpression (Identifier ''package'' (Some False)) ''.'' (Identifier ''loaded'' None))
                VarargLiteral]
             [NumericLiteral 1, NumericLiteral 2],
           entered False ''/p/a.lua'' (entered True ''/p/main.lua'' init_state))"
proof -
  let ?sa = "entered False ''/p/a.lua'' (entered True ''/p/main.lua'' init_state)"
  let ?se = "entered True ''/p/export.lua'' init_state"
  let ?s0 = "entered True ''/p/main.lua'' init_state"
  have w: "walk_nodes 0 ex_env ex_main ex_a False 1 ([] @ [NumericLiteral 1]) ?sa =
       Ok ([NumericLiteral 1], ?sa)"
    by simp
  have we: "walk_nodes 0 ex_env (entryScript_of ex_env ''export.lua'') export_main True 0
       ([] @ [NumericLiteral 1]) ?se = Ok ([NumericLiteral 1], ?se)"
    by simp
  note t = export_assignment_rewritten [OF w, of "Some False" "''.''" None]
  note te = export_assignment_rewritten [OF we, of "Some False" "''.''" None]
  have 1: "walk_node 0 ex_env ex_main ex_a False 1
       (AssignmentStatement
          [IndexExpression
             (MemberExpression (Identifier ''package'' (Some False)) ''.'' (Identifier ''loaded'' None))
             VarargLiteral]
          [NumericLiteral 1]) ?sa =
       Ok (AssignmentStatement
             [IndexExpression (Identifier ''__OL__cached_packages'' None) (NumericLiteral 1)]
             [NumericLiteral 1],
           ?sa\<lparr>modulesIds := (modulesIds ?sa)(path ex_a \<mapsto> 1)\<rparr>)"
    using t [THEN conjunct1] by simp
  have 2: "process (Suc 0) ex_env ''export.lua'' = Throw InvalidExportPosition"
    by (rule te [THEN conjunct2, THEN conjunct1, rule_format, OF export_reaches we])
  have ok: "ok_state ?s0"
    using entered_entry_ok [of "''/p/main.lua''" ex_main] by blast
  have fr: "modulesIds ?s0 (path ex_a) = None"
    by (simp add: entered_simps init_state_def ex_a_def ex_defs)
  obtain s' where
    run: "recurseResolve (Suc (Suc 0)) ex_env ex_main ex_a (Some ex_main) ?s0 = Ok (Some 1, s')"
    and m: "map_of (modulesAst s') 1 =
         Some \<lparr>body = [CallStatement (CallExpression (Identifier ''__OL__require'' (Some True))
                                         [NumericLiteral 2]),
                        AssignmentStatement
                          [IndexExpression (Identifier ''__OL__cached_packages'' None)
                             (NumericLiteral 1)]
                          [NumericLiteral 1]],
                comments = [], globals = [Identifier ''require'' (Some False)]\<rparr>"
    using ex_a_build by blast
  from t [THEN conjunct2, THEN conjunct2, THEN conjunct1, rule_format, OF ok fr run]
  have 3: "Some (1::int) = Some (currModuleId ?s0 + 1)" by blast
  have 4: "assignmentStatement ex_a False 1
       (AssignmentStatement
          [Identifier ''x'' (Some False),
           IndexExpression
             (MemberExpression (Identifier ''package'' (Some False)) ''.'' (Identifier ''loaded'' None))
             VarargLiteral]
          [NumericLiteral 1, NumericLiteral 2]) ?sa =
       Ok (AssignmentStatement
             [Identifier ''x'' (Some False),
              IndexExpression
                (MemberExpression (Identifier ''package'' (Some False)) ''.'' (Identifier ''loaded'' None))
                VarargLiteral]
             [NumericLiteral 1, NumericLiteral 2], ?sa)"
    by (rule t [THEN conjunct2, THEN conjunct2, THEN conjunct2, rule_format]) simp
  from w 1 export_reaches we 2 ok fr run m 4 show ?thesis by blast
qed

text \<open>
  Claim C7 as stated fails: in \<open>x, package.loaded[...] = 1, 2\<close> a target matches the export
  slot, and the statement is neither rejected in the entry script \<open>/p/later.lua\<close> nor
  rewritten in the module \<open>/p/later.lua\<close> of \<open>/p/uses_later.lua\<close>. The factory tests
  \<open>node.variables[0]\<close> only. And in the entry script \<open>/p/export_bad.lua\<close>, which is
  \<open>package.loaded[...] = require(name)\<close>, the right-hand side is built first: the build
  raises \<open>InvalidRequireArgument\<close>, and never comes to the assignment.
\<close>

theorem export_slot_as_later_target:
  "process 1 ex_env ''later.lua'' =
     Ok ((emitted []
            [AssignmentStatement
               [Identifier ''x'' (Some False),
                IndexExpression
                  (MemberExpression (Identifier ''package'' (Some False)) ''.''
                     (Identifier ''loaded'' None))
                  VarargLiteral]
               [NumericLiteral 1, NumericLiteral 2]])
         \<lparr>globals := [Identifier ''x'' (Some False), Identifier ''package'' (Some False)]\<rparr>)
   \<and> process 2 ex_env ''uses_later.lua'' =
     Ok ((emitted
            [createRequireDef 1
               [AssignmentStatement
                  [Identifier ''x'' (Some False),
                   IndexExpression
                     (MemberExpression (Identifier ''package'' (Some False)) ''.''
                        (Identifier ''loaded'' None))
                     VarargLiteral]
                  [NumericLiteral 1, NumericLiteral 2]]]
            [CallStatement (loader_call 1)])
         \<lparr>globals := [Identifier ''x'' (Some False), Identifier ''package'' (Some False),
                      Identifier ''require'' (Some False)]\<rparr>)
   \<and> process 1 ex_env ''export_bad.lua'' = Throw (InvalidRequireArgument ''Identifier'')"
  by code_simp

text \<open>
  Claim C9. When an assignment in a module that is not the entry script has several
  targets and the first matches the export slot, the factory replaces the whole list of
  targets by the single write to \<open>__OL__cached_packages\<close> at the module's id and keeps
  every right-hand side; through the parser, the right-hand sides are kept as built.
\<close>

theorem multiple_targets_discarded:
  "assignmentStatement sc False tid
     (AssignmentStatement
        (IndexExpression
           (MemberExpression (Identifier ''package'' l) ix (Identifier ''loaded'' l'))
           VarargLiteral # w # ws) init) s =
     Ok (AssignmentStatement
           [IndexExpression (Identifier ''__OL__cached_packages'' None) (NumericLiteral tid)] init,
         s\<lparr>modulesIds := (modulesIds s)(path sc \<mapsto> tid)\<rparr>)
   \<and> (\<forall>f E en ch s1. walk_nodes f E en sc False tid ((w # ws) @ init) s = Ok (ch, s1) \<longrightarrow>
        walk_node f E en sc False tid
          (AssignmentStatement
             (IndexExpression
                (MemberExpression (Identifier ''package'' l) ix (Identifier ''loaded'' l'))
                VarargLiteral # w # ws) init) s =
          Ok (AssignmentStatement
                [IndexExpression (Identifier ''__OL__cached_packages'' None) (NumericLiteral tid)]
                (drop (length (w # ws)) ch),
              s1\<lparr>modulesIds := (modulesIds s1)(path sc \<mapsto> tid)\<rparr>))"
proof (intro conjI allI impI)
  show "assignmentStatement sc False tid
     (AssignmentStatement
        (IndexExpression
           (MemberExpression (Identifier ''package'' l) ix (Identifier ''loaded'' l'))
           VarargLiteral # w # ws) init) s =
     Ok (AssignmentStatement
           [IndexExpression (Identifier ''__OL__cached_packages'' None) (NumericLiteral tid)] init,
         s\<lparr>modulesIds := (modulesIds s)(path sc \<mapsto> tid)\<rparr>)"
    by (simp add: cache_slot_def)
next
  fix f E en ch s1
  assume "walk_nodes f E en sc False tid ((w # ws) @ init) s = Ok (ch, s1)"
  from walk_export_assignment [OF is_export_slot_pattern this]
  show "walk_node f E en sc False tid
          (AssignmentStatement
             (IndexExpression
                (MemberExpression (Identifier ''package'' l) ix (Identifier ''loaded'' l'))
                VarargLiteral # w # ws) init) s =
          Ok (AssignmentStatement
                [IndexExpression (Identifier ''__OL__cached_packages'' None) (NumericLiteral tid)]
                (drop (length (w # ws)) ch),
              s1\<lparr>modulesIds := (modulesIds s1)(path sc \<mapsto> tid)\<rparr>)"
    by (simp add: cache_slot_def)
qed

text \<open>The claim at \<open>package.loaded[...], x, y = 1, 2, 3\<close>.\<close>

theorem multiple_targets_discarded_witness:
  "assignmentStatement ex_a False 1
       (AssignmentStatement
          [IndexExpression
             (MemberExpression (Identifier ''package'' (Some False)) ''.'' (Identifier ''loaded'' None))
             VarargLiteral,
           Identifier ''x'' (Some False), Identifier ''y'' (Some False)]
          [NumericLiteral 1, NumericLiteral 2, NumericLiteral 3]) init_state =
       Ok (AssignmentStatement
             [IndexExpression (Identifier ''__OL__cached_packages'' None) (NumericLiteral 1)]
             [NumericLiteral 1, NumericLiteral 2, NumericLiteral 3],
           init_state\<lparr>modulesIds := (modulesIds init_state)(path ex_a \<mapsto> 1)\<rparr>)
   \<and> walk_nodes 0 ex_env ex_main ex_a False 1
       ([Identifier ''x'' (Some False), Identifier ''y'' (Some False)]
          @ [NumericLiteral 1, NumericLiteral 2, NumericLiteral 3]) init_state =
       Ok ([Identifier ''x'' (Some False), Identifier ''y'' (Some False),
            NumericLiteral 1, NumericLiteral 2, NumericLiteral 3], init_state)
   \<and> walk_node 0 ex_env ex_main ex_a False 1
       (AssignmentStatement
          [IndexExpression
             (MemberExpression (Identifier ''package'' (Some False)) ''.'' (Identifier ''loaded'' None))
             VarargLiteral,
           Identifier ''x'' (Some False), Identifier ''y'' (Some False)]
          [NumericLiteral 1, NumericLiteral 2, NumericLiteral 3]) init_state =
       Ok (AssignmentStatement
             [IndexExpression (Identifier ''__OL__cached_packages'' None) (NumericLiteral 1)]
             [NumericLiteral 1, NumericLiteral 2, NumericLiteral 3],
           init_state\<lparr>modulesIds := (modulesIds init_state)(path ex_a \<mapsto> 1)\<rparr>)"
proof -
  note t = multiple_targets_discarded [of ex_a 1 "Some False" "''.''" None
      "Identifier ''x'' (Some False)" "[Identifier ''y'' (Some False)]"
      "[NumericLiteral 1, NumericLiteral 2, NumericLiteral 3]" init_state]
  have w: "walk_nodes 0 ex_env ex_main ex_a False 1
       ([Identifier ''x'' (Some False), Identifier ''y'' (Some False)]
          @ [NumericLiteral 1, NumericLiteral 2, NumericLiteral 3]) init_state =
       Ok ([Identifier ''x'' (Some False), Identifier ''y'' (Some False),
            NumericLiteral 1, NumericLiteral 2, NumericLiteral 3], init_state)"
    by simp
  from t [THEN conjunct2, rule_format, OF w] t [THEN conjunct1] w show ?thesis
    by simp
qed

text \<open>
  Claim C10. For a general call of \<open>require\<close> whose first argument is a string literal,
  only that argument is inspected: the call with further arguments is treated exactly as
  the call without them, and when it succeeds the whole call is replaced by a loader call
  with one numeric argument, the id \<open>recurseResolve\<close> returned for the resolved module.
\<close>

theorem extra_arguments_discarded:
  assumes "has_name ''require'' b"
  shows "callExpression f E en sc (CallExpression b (StringLiteral m # extra)) s =
           callExpression f E en sc (CallExpression b [StringLiteral m]) s \<and>
         (\<forall>n' s'. callExpression f E en sc (CallExpression b (StringLiteral m # extra)) s = Ok (n', s')
            \<longrightarrow> (\<exists>required module_id.
                  getRequiredModule E en sc m = Ok (Some required) \<and>
                  recurseResolve f E en required (Some sc) s = Ok (Some module_id, s') \<and>
                  n' = CallExpression (Identifier ''__OL__require'' (Some True))
                         [NumericLiteral module_id]))"
  using assms
  by (auto simp: callExpression.simps new_astnode.simps split: result.splits option.splits prod.splits)

text \<open>The claim at \<open>require("lib.b", 5, x)\<close>, with \<open>lib/b.lua\<close> resolved before.\<close>

theorem extra_arguments_discarded_witness:
  "has_name ''require'' (Identifier ''require'' (Some False))
   \<and> callExpression 0 ex_env ex_main ex_main
       (CallExpression (Identifier ''require'' (Some False))
          [StringLiteral ''lib.b'', NumericLiteral 5, Identifier ''x'' (Some False)]) ex_state =
       Ok (CallExpression (Identifier ''__OL__require'' (Some True)) [NumericLiteral 1], ex_state)"
proof -
  have "callExpression 0 ex_env ex_main ex_main
       (CallExpression (Identifier ''require'' (Some False)) [StringLiteral ''lib.b'']) ex_state =
       Ok (CallExpression (Identifier ''__OL__require'' (Some True)) [NumericLiteral 1], ex_state)"
    by (simp add: run_simps ex_defs ex_state_def)
  then show ?thesis
    using extra_arguments_discarded [of "Identifier ''require'' (Some False)" 0 ex_env ex_main ex_main
        "''lib.b''" "[NumericLiteral 5, Identifier ''x'' (Some False)]" ex_state]
    by simp
qed

subsection \<open>The emitted program\<close>

lemma body_push [simp]: "body (push c ns) = body c @ ns"
  by (simp add: push_def)

lemma body_push_globals [simp]: "body (push_globals c ns) = body c"
  by (simp add: push_globals_def)

lemma body_foldl_push_module:
  "\<forall>k \<in> set ks. map_of m k \<noteq> None \<Longrightarrow>
   body (foldl (push_module m) c ks) =
     body c @ map (\<lambda>key. createRequireDef key (body (the (map_of m key)))) ks"
  by (induction ks arbitrary: c) (auto simp: push_module_def)

lemma set_Object_keys: "set (Object_keys m) = fst ` set m"
  by (auto simp: Object_keys_def Let_def)

lemma sorted_Object_keys:
  "\<forall>k \<in> fst ` set m. is_array_index k \<Longrightarrow> sorted (Object_keys m)"
proof -
  assume a: "\<forall>k \<in> fst ` set m. is_array_index k"
  then have "filter (\<lambda>k. \<not> is_array_index k) (map fst m) = []"
    by (auto simp: filter_empty_conv)
  then show ?thesis by (simp add: Object_keys_def Let_def)
qed

lemma distinct_Object_keys: "distinct (map fst m) \<Longrightarrow> distinct (Object_keys m)"
  by (auto simp: Object_keys_def Let_def)

lemma map_of_key: "k \<in> fst ` set m \<Longrightarrow> map_of m k \<noteq> None"
  by (simp add: map_of_eq_None_iff)

text \<open>
  Claim C6. The body of the emitted tree is, in this order: the forward declaration
  \<open>local __OL__require\<close>; the empty registry \<open>local __OL__packages = {}\<close> and the empty
  cache \<open>local __OL__cached_packages = {}\<close>; for every key of \<open>modulesAst\<close>, in the order
  of \<open>Object.keys\<close>, the registry entry \<open>__OL__packages[key] = function() ... end\<close>, a
  function without parameters whose body is the module's rewritten body; the loader
  \<open>__OL__require = function(id) if __OL__cached_packages[id] then return
  __OL__cached_packages[id] end local package = __OL__packages[id]()
  __OL__cached_packages[id] = package return package end\<close>; the statements of the rewritten
  entry script. The keys are the ids of \<open>modulesAst\<close>, each once, and in ascending order
  when they are array indices (below \<open>2 ^ 32 - 1\<close>).
\<close>

theorem createFinalAst_layout:
  "body (createFinalAst modsIds modsAst main) =
     [LocalStatement [Identifier ''__OL__require'' (Some True)] [],
      LocalStatement [Identifier ''__OL__packages'' (Some True)] [TableConstructorExpression []],
      LocalStatement [Identifier ''__OL__cached_packages'' (Some True)]
        [TableConstructorExpression []]]
     @ map (\<lambda>key. AssignmentStatement
                     [IndexExpression (Identifier ''__OL__packages'' (Some True))
                        (NumericLiteral key)]
                     [FunctionDeclaration None False [] (body (the (map_of modsAst key)))])
         (Object_keys modsAst)
     @ [AssignmentStatement [Identifier ''__OL__require'' (Some True)]
          [FunctionDeclaration None False [Identifier ''id'' (Some True)]
             [IfStatement
                [IfClause
                   (IndexExpression (Identifier ''__OL__cached_packages'' (Some True))
                      (Identifier ''id'' (Some True)))
                   [ReturnStatement
                      [IndexExpression (Identifier ''__OL__cached_packages'' (Some True))
                         (Identifier ''id'' (Some True))]]],
              LocalStatement [Identifier ''package'' (Some True)]
                [CallExpression
                   (IndexExpression (Identifier ''__OL__packages'' (Some True))
                      (Identifier ''id'' (Some True))) []],
              AssignmentStatement
                [IndexExpression (Identifier ''__OL__cached_packages'' (Some True))
                   (Identifier ''id'' (Some True))]
                [Identifier ''package'' (Some True)],
              ReturnStatement [Identifier ''package'' (Some True)]]]]
     @ body main
   \<and> set (Object_keys modsAst) = fst ` set modsAst
   \<and> (distinct (map fst modsAst) \<longrightarrow> distinct (Object_keys modsAst))
   \<and> ((\<forall>key \<in> fst ` set modsAst. is_array_index key) \<longrightarrow> sorted (Object_keys modsAst))
   \<and> (\<forall>key \<in> fst ` set modsAst. \<exists>m. map_of modsAst key = Some m)"
proof -
  have "\<forall>k \<in> set (Object_keys modsAst). map_of modsAst k \<noteq> None"
    by (simp add: set_Object_keys map_of_key)
  then have "body (createFinalAst modsIds modsAst main) =
     [LocalStatement [ident ''__OL__require''] [],
      LocalStatement [ident ''__OL__packages''] [TableConstructorExpression []],
      LocalStatement [ident ''__OL__cached_packages''] [TableConstructorExpression []]]
     @ map (\<lambda>key. createRequireDef key (body (the (map_of modsAst key)))) (Object_keys modsAst)
     @ [loader_def]
     @ body main"
    by (simp add: createFinalAst_def Let_def body_foldl_push_module)
  then have 1: "body (createFinalAst modsIds modsAst main) =
     [LocalStatement [Identifier ''__OL__require'' (Some True)] [],
      LocalStatement [Identifier ''__OL__packages'' (Some True)] [TableConstructorExpression []],
      LocalStatement [Identifier ''__OL__cached_packages'' (Some True)]
        [TableConstructorExpression []]]
     @ map (\<lambda>key. AssignmentStatement
                     [IndexExpression (Identifier ''__OL__packages'' (Some True))
                        (NumericLiteral key)]
                     [FunctionDeclaration None False [] (body (the (map_of modsAst key)))])
         (Object_keys modsAst)
     @ [AssignmentStatement [Identifier ''__OL__require'' (Some True)]
          [FunctionDeclaration None False [Identifier ''id'' (Some True)]
             [IfStatement
                [IfClause
                   (IndexExpression (Identifier ''__OL__cached_packages'' (Some True))
                      (Identifier ''id'' (Some True)))
                   [ReturnStatement
                      [IndexExpression (Identifier ''__OL__cached_packages'' (Some True))
                         (Identifier ''id'' (Some True))]]],
              LocalStatement [Identifier ''package'' (Some True)]
                [CallExpression
                   (IndexExpression (Identifier ''__OL__packages'' (Some True))
                      (Identifier ''id'' (Some True))) []],
              AssignmentStatement
                [IndexExpression (Identifier ''__OL__cached_packages'' (Some True))
                   (Identifier ''id'' (Some True))]
                [Identifier ''package'' (Some True)],
              ReturnStatement [Identifier ''package'' (Some True)]]]]
     @ body main"
    by (simp add: ident_def createRequireDef_def loader_def_def cached_at_id_def)
  have 5: "\<forall>key \<in> fst ` set modsAst. \<exists>m. map_of modsAst key = Some m"
    using map_of_key [of _ modsAst] by blast
  have 2: "set (Object_keys modsAst) = fst ` set modsAst" by (rule set_Object_keys)
  have 3: "distinct (map fst modsAst) \<longrightarrow> distinct (Object_keys modsAst)"
    using distinct_Object_keys [of modsAst] by blast
  have 4: "(\<forall>key \<in> fst ` set modsAst. is_array_index key) \<longrightarrow> sorted (Object_keys modsAst)"
    using sorted_Object_keys [of modsAst] by blast
  show ?thesis
    by (intro conjI) (fact 1, fact 2, fact 3, fact 4, fact 5)
qed

text \<open>The claim at the two modules of the small project, stored in completion order.\<close>

theorem createFinalAst_layout_witness:
  "distinct (map fst ex_modulesAst) \<and>
   list_all is_array_index (map fst ex_modulesAst) \<and>
   map fst ex_modulesAst = [2, 1] \<and>
   sorted (Object_keys ex_modulesAst) \<and>
   Object_keys ex_modulesAst = [1, 2] \<and>
   body (createFinalAst Map.empty ex_modulesAst ex_mainAst) =
     [LocalStatement [Identifier ''__OL__require'' (Some True)] [],
      LocalStatement [Identifier ''__OL__packages'' (Some True)] [TableConstructorExpression []],
      LocalStatement [Identifier ''__OL__cached_packages'' (Some True)]
        [TableConstructorExpression []],
      AssignmentStatement
        [IndexExpression (Identifier ''__OL__packages'' (Some True)) (NumericLiteral 1)]
        [FunctionDeclaration None False []
           [CallStatement (CallExpression (Identifier ''__OL__require'' (Some True))
                             [NumericLiteral 2]),
            AssignmentStatement
              [IndexExpression (Identifier ''__OL__cached_packages'' None) (NumericLiteral 1)]
              [NumericLiteral 1]]],
      AssignmentStatement
        [IndexExpression (Identifier ''__OL__packages'' (Some True)) (NumericLiteral 2)]
        [FunctionDeclaration None False [] [ReturnStatement [NumericLiteral 2]]],
      AssignmentStatement [Identifier ''__OL__require'' (Some True)]
        [FunctionDeclaration None False [Identifier ''id'' (Some True)]
           [IfStatement
              [IfClause
                 (IndexExpression (Identifier ''__OL__cached_packages'' (Some True))
                    (Identifier ''id'' (Some True)))
                 [ReturnStatement
                    [IndexExpression (Identifier ''__OL__cached_packages'' (Some True))
                       (Identifier ''id'' (Some True))]]],
            LocalStatement [Identifier ''package'' (Some True)]
              [CallExpression
                 (IndexExpression (Identifier ''__OL__packages'' (Some True))
                    (Identifier ''id'' (Some True))) []],
            AssignmentStatement
              [IndexExpression (Identifier ''__OL__cached_packages'' (Some True))
                 (Identifier ''id'' (Some True))]
              [Identifier ''package'' (Some True)],
            ReturnStatement [Identifier ''package'' (Some True)]]],
      LocalStatement [Identifier ''a'' (Some True)]
        [CallExpression (Identifier ''__OL__require'' (Some True)) [NumericLiteral 1]],
      CallStatement (CallExpression (Identifier ''__OL__require'' (Some True))
                       [NumericLiteral 2])]"
proof -
  have k: "Object_keys ex_modulesAst = [1, 2]"
    by (simp add: Object_keys_def ex_modulesAst_def is_array_index_def)
  show ?thesis
    using createFinalAst_layout [of Map.empty ex_modulesAst ex_mainAst]
    by (simp add: k) (simp add: ex_modulesAst_def ex_mainAst_def is_array_index_def cache_slot_def)
qed

subsection \<open>Import calls without a literal\<close>

lemma callExpression_non_literal:
  "has_name ''require'' b \<Longrightarrow> node_type a \<noteq> ''StringLiteral'' \<Longrightarrow>
   callExpression f E en sc (CallExpression b (a # args)) s =
     Throw (InvalidRequireArgument (node_type a))"
  by (subst callExpression.simps) (cases a; simp)

lemma walk_nodes_never_Ok:
  assumes "c \<in> set ns" "\<And>s r. walk_node f E en sc ie tid c s \<noteq> Ok r"
  shows "walk_nodes f E en sc ie tid ns s \<noteq> Ok r"
  using assms(1)
proof (induction ns arbitrary: s r)
  case Nil
  then show ?case by simp
next
  case (Cons n ns)
  obtain r1 r2 where r: "r = (r1, r2)" by (cases r)
  show ?case
  proof (cases "c = n")
    case True
    then show ?thesis
      unfolding r walk_nodes_Cons_Ok using assms(2) by blast
  next
    case False
    with Cons.prems have "c \<in> set ns" by simp
    from Cons.IH [OF this] show ?thesis
      unfolding r walk_nodes_Cons_Ok by blast
  qed
qed

lemma walk_node_never_Ok_up:
  assumes "occurs x n" "\<And>s r. walk_node f E en sc ie tid x s \<noteq> Ok r"
  shows "walk_node f E en sc ie tid n s \<noteq> Ok r"
  using assms(1)
proof (induction arbitrary: s r rule: occurs.induct)
  case here
  show ?case by (rule assms(2))
next
  case (below c n)
  obtain r1 r2 where r: "r = (r1, r2)" by (cases r)
  have "walk_nodes f E en sc ie tid (children n) s \<noteq> Ok q" for q
    using below.hyps(1) below.IH by (rule walk_nodes_never_Ok)
  then show ?case
    unfolding r using walk_node_Ok_cases [of f E en sc ie tid n s r1 r2] by blast
qed

lemma bad_call_never_Ok:
  assumes "has_name ''require'' b" "node_type a \<noteq> ''StringLiteral''"
  shows "walk_node f E en sc ie tid (CallExpression b (a # args)) s \<noteq> Ok r"
proof
  assume run: "walk_node f E en sc ie tid (CallExpression b (a # args)) s = Ok r"
  obtain n' s' where r: "r = (n', s')" by (cases r)
  from run [unfolded r] obtain ch s1 where
    w: "walk_nodes f E en sc ie tid (children (CallExpression b (a # args))) s = Ok (ch, s1)"
    and h: "callExpression f E en sc (rebuild (CallExpression b (a # args)) ch) s1 = Ok (n', s')"
    by (rule walk_node_Ok_cases) auto
  from w obtain b' sa a' sb args' where
    b: "walk_node f E en sc ie tid b s = Ok (b', sa)"
    and a: "walk_node f E en sc ie tid a sa = Ok (a', sb)"
    and ch: "ch = b' # a' # args'"
    by (auto simp: walk_nodes_Cons_Ok simp del: walk_nodes.simps(2))
  from b assms(1) have "b' = b" by (simp add: has_name_walk)
  moreover from a assms(2) have "node_type a' \<noteq> ''StringLiteral''"
    by (rule walk_node_not_StringLiteral)
  ultimately show False
    using h ch assms(1) by (simp add: callExpression_non_literal)
qed

lemma recurseResolve_never_Ok:
  assumes "modulesIds s (path sc) = None" "contents E sc = Some src"
    "stmt \<in> set (built (luaparse_parse E src))"
    "\<And>f ie tid s r. walk_node f E en sc ie tid stmt s \<noteq> Ok r"
  shows "recurseResolve fuel E en sc prev s \<noteq> Ok r"
proof (cases fuel)
  case 0
  with assms(1) show ?thesis by (simp add: recurseResolve_no_fuel)
next
  case (Suc fuel')
  have "walk_nodes fuel' E en sc ie tid (built (luaparse_parse E src)) s0 \<noteq> Ok q" for ie tid s0 q
    using assms(3,4) by (rule walk_nodes_never_Ok)
  then show ?thesis
    unfolding Suc using assms(1,2)
    by (cases prev) (auto simp: recurseResolve_entry recurseResolve_fresh split: result.splits)
qed

lemma process_never_Ok:
  assumes "contents E (entryScript_of E entry) = Some src"
    "stmt \<in> set (built (luaparse_parse E src))"
    "\<And>f en sc ie tid s r. walk_node f E en sc ie tid stmt s \<noteq> Ok r"
  shows "process fuel E entry \<noteq> Ok c"
proof -
  have "recurseResolve fuel E (entryScript_of E entry) (entryScript_of E entry) None init_state \<noteq> Ok r" for r
    using assms by (intro recurseResolve_never_Ok) (simp_all add: init_state_def)
  then show ?thesis
    by (auto simp: process_def Let_def split: result.splits option.splits)
qed

lemma walk_bad_call:
  assumes "has_name ''require'' b" "node_type a \<noteq> ''StringLiteral''"
    and "walk_nodes f E en sc ie tid (a # args) s = Ok (ch, s1)"
  shows "node_type (hd ch) \<noteq> ''StringLiteral'' \<and>
         (node_type (hd ch) = node_type a \<or>
          (node_type a = ''StringCallExpression'' \<and> node_type (hd ch) = ''CallExpression'')) \<and>
         walk_node f E en sc ie tid (CallExpression b (a # args)) s =
           Throw (InvalidRequireArgument (node_type (hd ch)))"
proof -
  from assms(3) obtain a' sa args' where
    a: "walk_node f E en sc ie tid a s = Ok (a', sa)"
    and ch: "ch = a' # args'"
    unfolding walk_nodes_Cons_Ok by blast
  from a assms(2) have n: "node_type a' \<noteq> ''StringLiteral''"
    by (rule walk_node_not_StringLiteral)
  from walk_node_type [OF a] have t: "node_type a' = node_type a \<or>
          (node_type a = ''StringCallExpression'' \<and> node_type a' = ''CallExpression'')" .
  have w: "walk_nodes f E en sc ie tid (children (CallExpression b (a # args))) s = Ok (b # ch, s1)"
    using assms(1,3) by (simp add: has_name_walk del: walk_nodes.simps(2)) (simp add: has_name_walk)
  have "walk_node f E en sc ie tid (CallExpression b (a # args)) s =
           callExpression f E en sc (CallExpression b (a' # args')) s1"
    using w by (subst walk_node.simps) (simp add: ch del: walk_nodes.simps)
  with assms(1) n have "walk_node f E en sc ie tid (CallExpression b (a # args)) s =
           Throw (InvalidRequireArgument (node_type a'))"
    by (simp add: callExpression_non_literal)
  with n t ch show ?thesis by simp
qed

text \<open>
  Claim C8, as amended. For every call of \<open>require\<close> in the general form whose first
  argument is present and is not a string literal, the call factory raises
  \<open>InvalidRequireArgument\<close> with the type of that argument. Through the parser, once the
  arguments of the call are built, the call raises it with the type of the first
  argument as built; and a build that reaches the call, the nodes before it and its
  arguments built without an error, raises \<open>InvalidRequireArgument\<close>. No file in whose
  trees the call occurs is ever resolved, also when a syntax error follows the call:
  \<open>recurseResolve\<close> does not return for it, whatever the fuel, and a build whose entry
  script holds the call produces no artifact.
\<close>

theorem non_literal_require_rejected:
  assumes "has_name ''require'' b" and "node_type a \<noteq> ''StringLiteral''"
  shows "callExpression f E en sc (CallExpression b (a # args)) s =
           Throw (InvalidRequireArgument (node_type a))
     \<and> (\<forall>ie tid ch s1. walk_nodes f E en sc ie tid (a # args) s = Ok (ch, s1) \<longrightarrow>
          node_type (hd ch) \<noteq> ''StringLiteral'' \<and>
          walk_node f E en sc ie tid (CallExpression b (a # args)) s =
            Throw (InvalidRequireArgument (node_type (hd ch))))
     \<and> (\<forall>entry fuel ie tid ch s1.
          build_reaches E entry fuel f sc ie tid (CallExpression b (a # args)) s \<longrightarrow>
          walk_nodes f E (entryScript_of E entry) sc ie tid (a # args) s = Ok (ch, s1) \<longrightarrow>
          process fuel E entry = Throw (InvalidRequireArgument (node_type (hd ch))))
     \<and> (\<forall>stmt src fuel prev r.
          occurs (CallExpression b (a # args)) stmt \<longrightarrow>
          stmt \<in> set (built (luaparse_parse E src)) \<longrightarrow>
          contents E sc = Some src \<longrightarrow>
          modulesIds s (path sc) = None \<longrightarrow>
          recurseResolve fuel E en sc prev s \<noteq> Ok r)
     \<and> (\<forall>stmt src fuel entry c.
          occurs (CallExpression b (a # args)) stmt \<longrightarrow>
          stmt \<in> set (built (luaparse_parse E src)) \<longrightarrow>
          contents E (entryScript_of E entry) = Some src \<longrightarrow>
          process fuel E entry \<noteq> Ok c)"
proof (intro conjI allI impI)
  show "callExpression f E en sc (CallExpression b (a # args)) s =
           Throw (InvalidRequireArgument (node_type a))"
    using assms by (rule callExpression_non_literal)
next
  fix ie tid ch s1
  assume w: "walk_nodes f E en sc ie tid (a # args) s = Ok (ch, s1)"
  from walk_bad_call [OF assms w]
  show "node_type (hd ch) \<noteq> ''StringLiteral''"
    "walk_node f E en sc ie tid (CallExpression b (a # args)) s =
            Throw (InvalidRequireArgument (node_type (hd ch)))"
    by blast+
next
  fix entry fuel ie tid ch s1
  assume r: "build_reaches E entry fuel f sc ie tid (CallExpression b (a # args)) s"
    and w: "walk_nodes f E (entryScript_of E entry) sc ie tid (a # args) s = Ok (ch, s1)"
  from walk_bad_call [OF assms w]
  have "walk_node f E (entryScript_of E entry) sc ie tid (CallExpression b (a # args)) s =
            Throw (InvalidRequireArgument (node_type (hd ch)))"
    by blast
  with r show "process fuel E entry = Throw (InvalidRequireArgument (node_type (hd ch)))"
    by (rule build_reaches_Throw)
next
  fix stmt src fuel prev r
  assume o: "occurs (CallExpression b (a # args)) stmt"
    and "stmt \<in> set (built (luaparse_parse E src))"
    "contents E sc = Some src" "modulesIds s (path sc) = None"
  moreover have "walk_node f E en sc ie tid stmt s \<noteq> Ok r" for f ie tid s r
    using o bad_call_never_Ok [OF assms] by (rule walk_node_never_Ok_up)
  ultimately show "recurseResolve fuel E en sc prev s \<noteq> Ok r"
    by (intro recurseResolve_never_Ok)
next
  fix stmt src fuel entry c
  assume o: "occurs (CallExpression b (a # args)) stmt"
    and "stmt \<in> set (built (luaparse_parse E src))"
    "contents E (entryScript_of E entry) = Some src"
  moreover have "walk_node f E en sc ie tid stmt s \<noteq> Ok r" for f en sc ie tid s r
    using o bad_call_never_Ok [OF assms] by (rule walk_node_never_Ok_up)
  ultimately show "process fuel E entry \<noteq> Ok c"
    by (intro process_never_Ok)
qed

text \<open>
  The amended claim at \<open>require(name)\<close>, the only statement of \<open>/p/bad.lua\<close>: the build of
  \<open>/p/uses_bad.lua\<close>, which imports \<open>bad\<close>, reaches the call in the module, and the build of
  \<open>/p/bad.lua\<close> meets it in the entry script; in \<open>/p/broken_bad.lua\<close> a syntax error follows
  the call.
\<close>

lemma bad_files:
  "built (luaparse_parse ex_env ''/p/uses_bad.lua'') = [CallStatement (require_call ''bad'')]"
  "built (luaparse_parse ex_env ''/p/bad.lua'') =
     [CallStatement (CallExpression (Identifier ''require'' (Some False))
                       [Identifier ''name'' (Some False)])]"
  "contents ex_env bad_main = Some ''/p/uses_bad.lua''"
  "contents ex_env bad_module = Some ''/p/bad.lua''"
  "path bad_main = ''/p/uses_bad.lua''" "path bad_module = ''/p/bad.lua''"
  "getRequiredModule ex_env bad_main bad_main ''bad'' = Ok (Some bad_module)"
  "exists_script ex_env bad_main"
  by (simp_all add: getRequiredModule_def Let_def ex_defs bad_main_def bad_module_def)

lemma bad_reaches:
  "build_reaches ex_env ''uses_bad.lua'' (Suc (Suc 0)) 0 bad_module False 1
     (CallExpression (Identifier ''require'' (Some False)) [Identifier ''name'' (Some False)])
     (entered False ''/p/bad.lua'' (entered True ''/p/uses_bad.lua'' init_state))"
proof -
  let ?bad = "CallExpression (Identifier ''require'' (Some False)) [Identifier ''name'' (Some False)]"
  let ?s0 = "entered True ''/p/uses_bad.lua'' init_state"
  let ?s1 = "entered False ''/p/bad.lua'' ?s0"
  have b: "reaches_list ex_env bad_main 0 bad_module False 1 ?bad ?s1 0 bad_module False 1
             (built (luaparse_parse ex_env ''/p/bad.lua'')) ?s1"
    unfolding bad_files by (intro reaches_statement reaches_reaches_list.here)
  have "reaches ex_env bad_main 0 bad_module False 1 ?bad ?s1 (Suc 0) bad_main True 0
            (require_call ''bad'') ?s0"
    using b
    by (intro reaches_import [OF bad_files(7) _ bad_files(4)])
       (simp_all add: entered_simps bad_files init_state_def)
  then have m: "reaches_list ex_env bad_main 0 bad_module False 1 ?bad ?s1 (Suc 0) bad_main True 0
             (built (luaparse_parse ex_env ''/p/uses_bad.lua'')) ?s0"
    unfolding bad_files by (intro reaches_statement)
  show ?thesis
    unfolding build_reaches_def Let_def bad_main_def [symmetric]
    using m by (simp add: bad_files)
qed

lemma broken_bad_reaches:
  "build_reaches ex_env ''broken_bad.lua'' (Suc 0) 0 (entryScript_of ex_env ''broken_bad.lua'')
     True 0
     (CallExpression (Identifier ''require'' (Some False)) [Identifier ''name'' (Some False)])
     (entered True ''/p/broken_bad.lua'' init_state)"
  unfolding build_reaches_def Let_def
  by (simp add: ex_defs) (intro reaches_statement reaches_reaches_list.here)

theorem non_literal_require_rejected_witness:
  "has_name ''require'' (Identifier ''require'' (Some False))
   \<and> node_type (Identifier ''name'' (Some False)) \<noteq> ''StringLiteral''
   \<and> callExpression 0 ex_env bad_main bad_module
       (CallExpression (Identifier ''require'' (Some False)) [Identifier ''name'' (Some False)])
       (entered False ''/p/bad.lua'' (entered True ''/p/uses_bad.lua'' init_state)) =
       Throw (InvalidRequireArgument ''Identifier'')
   \<and> build_reaches ex_env ''uses_bad.lua'' (Suc (Suc 0)) 0 bad_module False 1
       (CallExpression (Identifier ''require'' (Some False)) [Identifier ''name'' (Some False)])
       (entered False ''/p/bad.lua'' (entered True ''/p/uses_bad.lua'' init_state))
   \<and> walk_nodes 0 ex_env (entryScript_of ex_env ''uses_bad.lua'') bad_module False 1
       [Identifier ''name'' (Some False)]
       (entered False ''/p/bad.lua'' (entered True ''/p/uses_bad.lua'' init_state)) =
       Ok ([Identifier ''name'' (Some False)],
           entered False ''/p/bad.lua'' (entered True ''/p/uses_bad.lua'' init_state))
   \<and> process (Suc (Suc 0)) ex_env ''uses_bad.lua'' = Throw (InvalidRequireArgument ''Identifier'')
   \<and> process 1 ex_env ''bad.lua'' = Throw (InvalidRequireArgument ''Identifier'')
   \<and> luaparse_parse ex_env ''/p/broken_bad.lua'' =
       SyntaxErrorAfter
         [CallStatement (CallExpression (Identifier ''require'' (Some False))
                           [Identifier ''name'' (Some False)])]
   \<and> build_reaches ex_env ''broken_bad.lua'' (Suc 0) 0 (entryScript_of ex_env ''broken_bad.lua'')
       True 0
       (CallExpression (Identifier ''require'' (Some False)) [Identifier ''name'' (Some False)])
       (entered True ''/p/broken_bad.lua'' init_state)
   \<and> process (Suc 0) ex_env ''broken_bad.lua'' = Throw (InvalidRequireArgument ''Identifier'')"
proof -
  let ?bad = "CallExpression (Identifier ''require'' (Some False)) [Identifier ''name'' (Some False)]"
  let ?s1 = "entered False ''/p/bad.lua'' (entered True ''/p/uses_bad.lua'' init_state)"
  have h: "has_name ''require'' (Identifier ''require'' (Some False))"
    "node_type (Identifier ''name'' (Some False)) \<noteq> ''StringLiteral''"
    by simp_all
  have w: "walk_nodes 0 ex_env (entryScript_of ex_env ''uses_bad.lua'') bad_module False 1
       [Identifier ''name'' (Some False)] ?s1 = Ok ([Identifier ''name'' (Some False)], ?s1)"
    by simp
  note t = non_literal_require_rejected [OF h, of 0 ex_env bad_main bad_module "[]" ?s1]
  from t have 1: "callExpression 0 ex_env bad_main bad_module ?bad ?s1 =
       Throw (InvalidRequireArgument ''Identifier'')"
    by simp
  from t bad_reaches w
  have 2: "process (Suc (Suc 0)) ex_env ''uses_bad.lua'' =
      Throw (InvalidRequireArgument (node_type (hd [Identifier ''name'' (Some False)])))"
    by blast
  have 3: "process 1 ex_env ''bad.lua'' = Throw (InvalidRequireArgument ''Identifier'')"
    by code_simp
  have 4: "luaparse_parse ex_env ''/p/broken_bad.lua'' = SyntaxErrorAfter [CallStatement ?bad]"
    by code_simp
  let ?eb = "entryScript_of ex_env ''broken_bad.lua''"
  let ?sb = "entered True ''/p/broken_bad.lua'' init_state"
  have wb: "walk_nodes 0 ex_env ?eb ?eb True 0 [Identifier ''name'' (Some False)] ?sb =
       Ok ([Identifier ''name'' (Some False)], ?sb)"
    by simp
  from non_literal_require_rejected [OF h, of 0 ex_env ?eb ?eb "[]" ?sb, THEN conjunct2,
      THEN conjunct2, THEN conjunct1, rule_format, OF broken_bad_reaches wb]
  have 5: "process (Suc 0) ex_env ''broken_bad.lua'' = Throw (InvalidRequireArgument ''Identifier'')"
    by simp
  from h 1 2 3 4 5 w bad_reaches broken_bad_reaches show ?thesis by simp
qed

text \<open>
  Claim C8 as stated fails. The argument list of \<open>require("lib.b", 5)\<close> is not a single
  string literal, and the build of \<open>/p/two.lua\<close>, which holds only that call, succeeds:
  the factory looks at the first argument only. The argument of \<open>require{}\<close> is a table,
  and the build of \<open>/p/table.lua\<close> succeeds with the call as it is: no factory is
  installed for a call in the table form. \<open>require()\<close> in \<open>/p/none.lua\<close> raises a
  \<open>TypeError\<close>, and \<open>require(require("missing"))\<close> in \<open>/p/nested.lua\<close> raises
  \<open>ModuleNotFound\<close>, for the inner call is built first.
\<close>

theorem non_single_literal_requires:
  "process 2 ex_env ''two.lua'' =
     Ok (emitted [createRequireDef 1 [ReturnStatement [NumericLiteral 2]]]
           [CallStatement (loader_call 1)])
   \<and> process 1 ex_env ''table.lua'' =
     Ok ((emitted []
            [CallStatement (TableCallExpression (Identifier ''require'' (Some False))
                              (TableConstructorExpression []))])
         \<lparr>globals := [Identifier ''require'' (Some False)]\<rparr>)
   \<and> process 1 ex_env ''none.lua'' = Throw TypeError
   \<and> process 1 ex_env ''nested.lua'' = Throw (ModuleNotFound ''missing'' ''/p/nested.lua'')"
  by code_simp

subsection \<open>Identifiers\<close>

lemma recurseResolve_entry_Ok:
  assumes "recurseResolve fuel E en sc None s = Ok (r, s')" "modulesIds s (path sc) = None"
  obtains fuel' src ast0 body' s2 where "fuel = Suc fuel'"
    "contents E sc = Some src" "luaparse_parse E src = Parsed ast0"
    "walk_nodes fuel' E en sc True 0 (body ast0) (entered True (path sc) s) = Ok (body', s2)"
    "r = None" "s' = s2\<lparr>mainAst := Some (ast0\<lparr>body := body'\<rparr>)\<rparr>"
proof (cases fuel)
  case 0
  with assms show ?thesis by (simp add: recurseResolve_no_fuel)
next
  case (Suc fuel')
  note e = assms(1) [unfolded Suc recurseResolve_entry [OF assms(2)]]
  from e obtain src where src: "contents E sc = Some src"
    by (cases "contents E sc") auto
  from e src obtain body' s2 where
    w0: "walk_nodes fuel' E en sc True 0 (built (luaparse_parse E src))
          (s\<lparr>modulesIds := (modulesIds s)(path sc \<mapsto> - 1), reads := reads s @ [path sc]\<rparr>)
          = Ok (body', s2)"
    by (auto split: result.splits)
  from e src w0 obtain ast0 where ast0: "luaparse_parse E src = Parsed ast0"
    by (cases "luaparse_parse E src") auto
  from w0 ast0 have
    w: "walk_nodes fuel' E en sc True 0 (body ast0)
          (s\<lparr>modulesIds := (modulesIds s)(path sc \<mapsto> - 1), reads := reads s @ [path sc]\<rparr>)
          = Ok (body', s2)"
    by simp
  from e src ast0 w have "r = None" "s' = s2\<lparr>mainAst := Some (ast0\<lparr>body := body'\<rparr>)\<rparr>"
    by auto
  with Suc src ast0 w show ?thesis
    using that by (simp add: entered_def)
qed

lemma ok_state_mainAst [simp]: "ok_state (s\<lparr>mainAst := m\<rparr>) = ok_state s"
  by (simp add: ok_state_def)

lemma in_module_mainAst [simp]: "in_module sc ie tid (s\<lparr>mainAst := m\<rparr>) = in_module sc ie tid s"
  by (simp add: in_module_def)

lemma extends_in_mainAst [simp]: "extends_in p t s0 (s\<lparr>mainAst := m\<rparr>) = extends_in p t s0 s"
  by (simp add: extends_in_def)

lemma build_final_state:
  assumes "recurseResolve fuel E en en None init_state = Ok (r, s')"
  shows "ok_state s' \<and> in_module en True 0 s' \<and>
         extends_in (path en) 0 (entered True (path en) init_state) s'"
proof -
  have n: "modulesIds init_state (path en) = None" by (simp add: init_state_def)
  from assms n obtain fuel' src ast0 body' s2 where
    w: "walk_nodes fuel' E en en True 0 (body ast0) (entered True (path en) init_state) = Ok (body', s2)"
    and s': "s' = s2\<lparr>mainAst := Some (ast0\<lparr>body := body'\<rparr>)\<rparr>"
    by (rule recurseResolve_entry_Ok)
  from traversal_invariants(6) [of "entered True (path en) init_state" en True 0 fuel' E en "body ast0"]
    entered_entry_ok [of "path en" en] w
  have "ok_state s2 \<and> in_module en True 0 s2 \<and>
         extends_in (path en) 0 (entered True (path en) init_state) s2"
    by blast
  then show ?thesis
    unfolding s' by simp
qed

lemma visit_fresh:
  assumes "ok_state s" "modulesIds s (path sc) = None"
    "recurseResolve fuel E en sc (Some prev) s = Ok (r, s1)"
  shows "r = Some (currModuleId s + 1) \<and> ok_state s1 \<and>
         (\<forall>q v. modulesIds s q = Some v \<longrightarrow> v < currModuleId s + 1) \<and>
         (\<forall>q v. q \<noteq> path sc \<longrightarrow> modulesIds s q = None \<longrightarrow> modulesIds s1 q = Some v \<longrightarrow>
                currModuleId s + 1 < v)"
proof -
  from recurseResolve_Ok_cases [OF assms(3,1)] assms(2) obtain fuel' src ast0 body' s2 where
    w: "walk_nodes fuel' E en sc False (currModuleId s + 1) (body ast0)
            (s\<lparr>currModuleId := currModuleId s + 1,
               modulesIds := (modulesIds s)(path sc \<mapsto> - 1), reads := reads s @ [path sc]\<rparr>)
            = Ok (body', s2)"
    and r: "r = Some (currModuleId s + 1)"
    and s1: "s1 = s2\<lparr>modulesIds := (modulesIds s2)(path sc \<mapsto> currModuleId s + 1),
                  modulesAst := obj_set (modulesAst s2) (currModuleId s + 1) (ast0\<lparr>body := body'\<rparr>)\<rparr>"
    by auto
  let ?e = "s\<lparr>currModuleId := currModuleId s + 1,
               modulesIds := (modulesIds s)(path sc \<mapsto> - 1), reads := reads s @ [path sc]\<rparr>"
  have oke: "ok_state ?e" using assms(1,2) by (rule enter_ok)
  have ine: "in_module sc False (currModuleId s + 1) ?e"
    using assms(1,2) by (rule enter_in_module) simp
  from traversal_invariants(6) [of ?e sc False "currModuleId s + 1" fuel' E en "body ast0"] oke ine w
  have x: "extends_in (path sc) (currModuleId s + 1) ?e s2" by blast
  have ok1: "ok_state s1"
    using traversal_invariants(1) [of "Some prev" s fuel E en sc] assms(1,3) by blast
  have a: "v < currModuleId s + 1" if "modulesIds s q = Some v" for q v
    using ok_state_bound [OF assms(1) that] by simp
  have b: "currModuleId s + 1 < v"
    if "q \<noteq> path sc" "modulesIds s q = None" "modulesIds s1 q = Some v" for q v
  proof -
    from that have "modulesIds ?e q = None" "modulesIds s2 q = Some v" by (simp_all add: s1)
    with x that(1) have "currModuleId ?e < v" unfolding extends_in_def by blast
    then show ?thesis by simp
  qed
  have a': "\<forall>q v. modulesIds s q = Some v \<longrightarrow> v < currModuleId s + 1"
    using a by blast
  have b': "\<forall>q v. q \<noteq> path sc \<longrightarrow> modulesIds s q = None \<longrightarrow> modulesIds s1 q = Some v \<longrightarrow>
                currModuleId s + 1 < v"
    using b by blast
  show ?thesis
    by (intro conjI) (fact r, fact ok1, fact a', fact b')
qed

text \<open>
  Claim C2. In every successful build the entry script is parsed as the entry with the
  id \<open>0\<close> and keeps its record in progress; the record of every other path is a positive
  id, no id is the record of two paths, and no two trees of \<open>modulesAst\<close> share a key.
  The ids follow the order of first encounter: a module met for the first time takes the
  counter plus one, which is above every id given before, and every module first met
  while its file is parsed (a module below it) has a greater id.
\<close>

theorem ids_assigned_in_preorder:
  assumes "recurseResolve fuel E en en None init_state = Ok (r, s')"
  shows "r = None
     \<and> (\<exists>fuel' src ast0 body' s2.
          fuel = Suc fuel' \<and> contents E en = Some src \<and> luaparse_parse E src = Parsed ast0 \<and>
          walk_nodes fuel' E en en True 0 (body ast0) (entered True (path en) init_state)
            = Ok (body', s2) \<and>
          s' = s2\<lparr>mainAst := Some (ast0\<lparr>body := body'\<rparr>)\<rparr>)
     \<and> ok_state s'
     \<and> modulesIds s' (path en) = Some (- 1)
     \<and> (\<forall>p v. p \<noteq> path en \<longrightarrow> modulesIds s' p = Some v \<longrightarrow> 0 < v \<and> v \<le> currModuleId s')
     \<and> (\<forall>p q v. modulesIds s' p = Some v \<longrightarrow> modulesIds s' q = Some v \<longrightarrow> 0 < v \<longrightarrow> p = q)
     \<and> distinct (map fst (modulesAst s'))
     \<and> (\<forall>k \<in> fst ` set (modulesAst s'). 0 < k)
     \<and> (\<forall>f sc prev s i s1.
          ok_state s \<longrightarrow> modulesIds s (path sc) = None \<longrightarrow>
          recurseResolve f E en sc (Some prev) s = Ok (i, s1) \<longrightarrow>
          i = Some (currModuleId s + 1) \<and> ok_state s1 \<and>
          (\<forall>q v. modulesIds s q = Some v \<longrightarrow> v < currModuleId s + 1) \<and>
          (\<forall>q v. q \<noteq> path sc \<longrightarrow> modulesIds s q = None \<longrightarrow> modulesIds s1 q = Some v \<longrightarrow>
                 currModuleId s + 1 < v))"
proof -
  have n: "modulesIds init_state (path en) = None" by (simp add: init_state_def)
  from assms n have 1: "r = None \<and> (\<exists>fuel' src ast0 body' s2.
          fuel = Suc fuel' \<and> contents E en = Some src \<and> luaparse_parse E src = Parsed ast0 \<and>
          walk_nodes fuel' E en en True 0 (body ast0) (entered True (path en) init_state)
            = Ok (body', s2) \<and>
          s' = s2\<lparr>mainAst := Some (ast0\<lparr>body := body'\<rparr>)\<rparr>)"
    by (rule recurseResolve_entry_Ok) blast
  from build_final_state [OF assms] have
    ok: "ok_state s'" and im: "in_module en True 0 s'"
    and ex: "extends_in (path en) 0 (entered True (path en) init_state) s'"
    by blast+
  from im have 2: "modulesIds s' (path en) = Some (- 1)" by (simp add: in_module_def)
  have 3: "\<forall>p v. p \<noteq> path en \<longrightarrow> modulesIds s' p = Some v \<longrightarrow> 0 < v \<and> v \<le> currModuleId s'"
  proof (intro allI impI)
    fix p v
    assume that: "p \<noteq> path en" "modulesIds s' p = Some v"
    from that(1) have "modulesIds (entered True (path en) init_state) p = None"
      by (simp add: entered_def init_state_def)
    with ex that have "currModuleId (entered True (path en) init_state) < v \<and> v \<le> currModuleId s'"
      unfolding extends_in_def by blast
    then show "0 < v \<and> v \<le> currModuleId s'" by (simp add: entered_def init_state_def)
  qed
  from ok have 4: "\<forall>p q v. modulesIds s' p = Some v \<longrightarrow> modulesIds s' q = Some v \<longrightarrow> 0 < v \<longrightarrow> p = q"
    unfolding ok_state_def by blast
  from ok have 5: "distinct (map fst (modulesAst s'))"
    unfolding ok_state_def by blast
  from ok have 6: "\<forall>k \<in> fst ` set (modulesAst s'). 0 < k"
    unfolding ok_state_def by blast
  have 7: "\<forall>f sc prev s i s1.
          ok_state s \<longrightarrow> modulesIds s (path sc) = None \<longrightarrow>
          recurseResolve f E en sc (Some prev) s = Ok (i, s1) \<longrightarrow>
          i = Some (currModuleId s + 1) \<and> ok_state s1 \<and>
          (\<forall>q v. modulesIds s q = Some v \<longrightarrow> v < currModuleId s + 1) \<and>
          (\<forall>q v. q \<noteq> path sc \<longrightarrow> modulesIds s q = None \<longrightarrow> modulesIds s1 q = Some v \<longrightarrow>
                 currModuleId s + 1 < v)"
    by (intro allI impI) (rule visit_fresh; assumption)
  from 1 have ra: "r = None" and rb: "\<exists>fuel' src ast0 body' s2.
          fuel = Suc fuel' \<and> contents E en = Some src \<and> luaparse_parse E src = Parsed ast0 \<and>
          walk_nodes fuel' E en en True 0 (body ast0) (entered True (path en) init_state)
            = Ok (body', s2) \<and>
          s' = s2\<lparr>mainAst := Some (ast0\<lparr>body := body'\<rparr>)\<rparr>"
    by blast+
  show ?thesis
    by (intro conjI) (fact ra, fact rb, fact ok, fact 2, fact 3, fact 4, fact 5, fact 6, fact 7)
qed

text \<open>The claim at the build of \<open>/p/main.lua\<close>: \<open>a.lua\<close> is met first, \<open>lib/b.lua\<close> below it.\<close>

lemma ex_build:
  "\<exists>s'. recurseResolve (Suc (Suc (Suc 0))) ex_env ex_main ex_main None init_state = Ok (None, s')
     \<and> modulesIds s' ''/p/main.lua'' = Some (- 1)
     \<and> modulesIds s' ''/p/a.lua'' = Some 1
     \<and> modulesIds s' ''/p/lib/b.lua'' = Some 2
     \<and> currModuleId s' = 2
     \<and> reads s' = [''/p/main.lua'', ''/p/a.lua'', ''/p/lib/b.lua'']"
  by (simp add: run_simps ex_defs)

theorem ids_assigned_in_preorder_witness:
  "\<exists>s'. recurseResolve (Suc (Suc (Suc 0))) ex_env ex_main ex_main None init_state = Ok (None, s')
     \<and> ok_state s'
     \<and> modulesIds s' ''/p/main.lua'' = Some (- 1)
     \<and> modulesIds s' ''/p/a.lua'' = Some 1
     \<and> modulesIds s' ''/p/lib/b.lua'' = Some 2
     \<and> distinct (map fst (modulesAst s'))"
proof -
  obtain s' where
    run: "recurseResolve (Suc (Suc (Suc 0))) ex_env ex_main ex_main None init_state = Ok (None, s')"
    and ids: "modulesIds s' ''/p/main.lua'' = Some (- 1)" "modulesIds s' ''/p/a.lua'' = Some 1"
      "modulesIds s' ''/p/lib/b.lua'' = Some 2"
    using ex_build by blast
  from ids_assigned_in_preorder [OF run] have "ok_state s'" "distinct (map fst (modulesAst s'))"
    by blast+
  with run ids show ?thesis by blast
qed

subsection \<open>The cycle guard\<close>

lemma walk_keeps_resolved:
  assumes "ok_state s" "in_module sc ie tid s"
    "walk_nodes f E en sc ie tid ns s = Ok (ns', s')"
    "modulesIds s p = Some v" "0 < v"
  shows "modulesIds s' p = Some v"
proof -
  from traversal_invariants(6) [of s sc ie tid f E en ns] assms(1-3)
  have x: "extends_in (path sc) tid s s'" by blast
  with assms(4) have "modulesIds s' p = Some v \<or> (p = path sc \<and> modulesIds s' p = Some tid)"
    unfolding extends_in_def by blast
  moreover have "v = tid" if "p = path sc"
  proof -
    from assms(2) have "modulesIds s (path sc) = Some (- 1) \<or> modulesIds s (path sc) = Some tid"
      unfolding in_module_def by blast
    with assms(4) [unfolded that] have "v = - 1 \<or> v = tid" by auto
    with assms(5) show ?thesis by auto
  qed
  ultimately show ?thesis by blast
qed

lemma export_sets_record:
  assumes "is_export_slot v"
    and "walk_node f E en sc False tid (AssignmentStatement (v # vs) init) s = Ok (n', s')"
  shows "modulesIds s' (path sc) = Some tid"
proof -
  from assms(2) obtain ch0 s1 where
    w: "walk_nodes f E en sc False tid (children (AssignmentStatement (v # vs) init)) s = Ok (ch0, s1)"
    by (rule walk_node_Ok_cases)
  then obtain ch where "walk_nodes f E en sc False tid (vs @ init) s = Ok (ch, s1)"
    using assms(1) by (auto simp: walk_nodes_Cons_Ok is_export_slot_walk simp del: walk_nodes.simps(2))
  from walk_export_assignment [OF assms(1) this] assms(2) show ?thesis
    by auto
qed

lemma not_export_rebuild:
  assumes "not_export n"
    and "walk_nodes fuel E en sc ie tid (children n) s = Ok (ch, s1)"
    and "node_type n = ''AssignmentStatement''"
  shows "assignmentStatement sc ie' tid' (rebuild n ch) s1 = Ok (rebuild n ch, s1)"
proof -
  from assms(3) obtain vs init where n: "n = AssignmentStatement vs init" by (cases n) simp_all
  from assms(2) obtain vs' sa init' where
    v: "walk_nodes fuel E en sc ie tid vs s = Ok (vs', sa)"
    and ch: "ch = vs' @ init'"
    unfolding n children.simps walk_nodes_append_Ok by blast
  from v have len: "length vs' = length vs" by (rule walk_nodes_length)
  have rb: "rebuild n ch = AssignmentStatement vs' init'"
    by (simp add: n ch len [symmetric])
  show ?thesis
  proof (cases vs')
    case Nil
    then show ?thesis by (simp add: rb)
  next
    case (Cons v' rest')
    with len obtain v0 rest where vs: "vs = v0 # rest" by (cases vs) auto
    from v Cons obtain sb where w: "walk_node fuel E en sc ie tid v0 s = Ok (v', sb)"
      unfolding vs walk_nodes_Cons_Ok by auto
    from assms(1) have "\<not> is_export_slot v0" by (simp add: n vs)
    with is_export_slot_walked [OF w] have "\<not> is_export_slot v'" by blast
    with Cons show ?thesis by (simp add: rb)
  qed
qed

lemma extends_keeps: "extends s s' \<Longrightarrow> modulesIds s p = Some v \<Longrightarrow> modulesIds s' p = Some v"
  unfolding extends_def by blast

lemma in_module_record: "in_module sc ie tid s \<Longrightarrow> \<exists>v. modulesIds s (path sc) = Some v"
  unfolding in_module_def by blast

lemma walk_keeps_in_progress:
  shows "recurseResolve fuel E entryScript script previousScript s =
           recurseResolve fuel E entryScript script previousScript s"
    and "new_astnode fuel E entryScript script module node s =
           new_astnode fuel E entryScript script module node s"
    and "stringCallExpression fuel E entryScript script node s =
           stringCallExpression fuel E entryScript script node s"
    and "callExpression fuel E entryScript script node s =
           callExpression fuel E entryScript script node s"
    and "\<forall>n' s'. ok_state s \<longrightarrow> in_module script is_entry thisModuleId s \<longrightarrow> no_export n \<longrightarrow>
           walk_node fuel E entryScript script is_entry thisModuleId n s = Ok (n', s') \<longrightarrow>
           modulesIds s' (path script) = modulesIds s (path script)"
    and "\<forall>ns' s'. ok_state s \<longrightarrow> in_module script is_entry thisModuleId s \<longrightarrow>
           list_all no_export ns \<longrightarrow>
           walk_nodes fuel E entryScript script is_entry thisModuleId ns s = Ok (ns', s') \<longrightarrow>
           modulesIds s' (path script) = modulesIds s (path script)"
proof (induction fuel E entryScript script previousScript s
    and fuel E entryScript script module node s
    and fuel E entryScript script node s
    and fuel E entryScript script node s
    and fuel E entryScript script is_entry thisModuleId n s
    and fuel E entryScript script is_entry thisModuleId ns s
    rule: recurseResolve_new_astnode_stringCallExpression_callExpression_walk_node_walk_nodes.induct)
  case (5 fuel E entryScript script is_entry thisModuleId n s)
  show ?case
  proof (intro allI impI)
    fix n' s'
    assume ok: "ok_state s" and im: "in_module script is_entry thisModuleId s"
      and ne: "no_export n"
      and run: "walk_node fuel E entryScript script is_entry thisModuleId n s = Ok (n', s')"
    from ne have lo: "not_export n" and ch: "list_all no_export (children n)"
      by (subst (asm) no_export.simps, simp)+
    from run obtain ch' s1 where
      w: "walk_nodes fuel E entryScript script is_entry thisModuleId (children n) s = Ok (ch', s1)"
      and h: "(node_type n = ''StringCallExpression'' \<and>
           stringCallExpression fuel E entryScript script (rebuild n ch') s1 = Ok (n', s'))
       \<or> (node_type n = ''CallExpression'' \<and>
           callExpression fuel E entryScript script (rebuild n ch') s1 = Ok (n', s'))
       \<or> (node_type n = ''AssignmentStatement'' \<and>
           assignmentStatement script is_entry thisModuleId (rebuild n ch') s1 = Ok (n', s'))
       \<or> (node_type n \<noteq> ''StringCallExpression'' \<and> node_type n \<noteq> ''CallExpression'' \<and>
           node_type n \<noteq> ''AssignmentStatement'' \<and> n' = rebuild n ch' \<and> s' = s1)"
      by (rule walk_node_Ok_cases)
    from "5.IH"(1) ok im ch w have
      1: "modulesIds s1 (path script) = modulesIds s (path script)" by blast
    from traversal_invariants(6) [of s script is_entry thisModuleId fuel E entryScript "children n"]
      ok im w
    have ok1: "ok_state s1" and im1: "in_module script is_entry thisModuleId s1"
      by blast+
    from im1 obtain v where v: "modulesIds s1 (path script) = Some v"
      using in_module_record by blast
    have nested: "modulesIds s' (path script) = modulesIds s (path script)" if "extends s1 s'"
      using extends_keeps [OF that v] v 1 by simp
    from h show "modulesIds s' (path script) = modulesIds s (path script)"
    proof (elim disjE conjE)
      assume "node_type n = ''StringCallExpression''"
        and r: "stringCallExpression fuel E entryScript script (rebuild n ch') s1 = Ok (n', s')"
      from traversal_invariants(3) [of s1 fuel E entryScript script "rebuild n ch'"] ok1 r
      have "extends s1 s'" by blast
      then show ?thesis by (rule nested)
    next
      assume "node_type n = ''CallExpression''"
        and r: "callExpression fuel E entryScript script (rebuild n ch') s1 = Ok (n', s')"
      from traversal_invariants(4) [of s1 fuel E entryScript script "rebuild n ch'"] ok1 r
      have "extends s1 s'" by blast
      then show ?thesis by (rule nested)
    next
      assume t: "node_type n = ''AssignmentStatement''"
        and r: "assignmentStatement script is_entry thisModuleId (rebuild n ch') s1 = Ok (n', s')"
      from not_export_rebuild [OF lo w t, of is_entry thisModuleId] r have "s' = s1" by simp
      with 1 show ?thesis by simp
    next
      assume "s' = s1"
      with 1 show ?thesis by simp
    qed
  qed
next
  case (7 fuel E entryScript script is_entry thisModuleId n ns s)
  show ?case
  proof (intro allI impI)
    fix ns' s'
    assume ok: "ok_state s" and im: "in_module script is_entry thisModuleId s"
      and ne: "list_all no_export (n # ns)"
      and run: "walk_nodes fuel E entryScript script is_entry thisModuleId (n # ns) s = Ok (ns', s')"
    from run obtain n' s1 ns1 where
      a: "walk_node fuel E entryScript script is_entry thisModuleId n s = Ok (n', s1)"
      and b: "walk_nodes fuel E entryScript script is_entry thisModuleId ns s1 = Ok (ns1, s')"
      unfolding walk_nodes_Cons_Ok by blast
    from ne have n1: "no_export n" and n2: "list_all no_export ns" by simp_all
    from "7.IH"(1) ok im n1 a have
      1: "modulesIds s1 (path script) = modulesIds s (path script)" by blast
    from traversal_invariants(5) [of s script is_entry thisModuleId fuel E entryScript n] ok im a
    have ok1: "ok_state s1" and im1: "in_module script is_entry thisModuleId s1"
      by blast+
    from "7.IH"(2) [OF a refl] ok1 im1 n2 b have
      "modulesIds s' (path script) = modulesIds s1 (path script)" by blast
    with 1 show "modulesIds s' (path script) = modulesIds s (path script)" by simp
  qed
qed simp_all

lemma import_site_in_progress:
  assumes "walk_nodes f E en sc ie tid (children x) s = Ok (ch, s1)"
    and "import_of (rebuild x ch) = Some m"
    and "getRequiredModule E en sc m = Ok (Some t)"
    and "modulesIds s1 (path t) = Some v" "v < 0"
  shows "walk_node f E en sc ie tid x s = Throw (CircularDependency (path t) (path sc))"
proof -
  have "recurseResolve f E en t (Some sc) s1 = Throw (CircularDependency (path t) (path sc))"
    using assms(4,5) by (rule recurseResolve_in_progress)
  with assms(3) have "new_astnode f E en sc m (rebuild x ch) s1 =
      Throw (CircularDependency (path t) (path sc))"
    by (rule new_astnode_Throw)
  with walk_node_import [OF assms(1,2)] show ?thesis by simp
qed

lemma import_site_resolved:
  assumes "walk_nodes f E en sc ie tid (children x) s = Ok (ch, s1)"
    and "import_of (rebuild x ch) = Some m"
    and "getRequiredModule E en sc m = Ok (Some t)"
    and "modulesIds s1 (path t) = Some v" "0 < v"
  shows "walk_node f E en sc ie tid x s =
    Ok (CallExpression (Identifier ''__OL__require'' (Some True)) [NumericLiteral v], s1)"
proof -
  have "recurseResolve f E en t (Some sc) s1 = Ok (Some v, s1)"
    using assms(4,5) by (rule recurseResolve_resolved)
  with assms(3) have "new_astnode f E en sc m (rebuild x ch) s1 =
      Ok (CallExpression (Identifier ''__OL__require'' (Some True)) [NumericLiteral v], s1)"
    by (subst new_astnode.simps) simp
  with walk_node_import [OF assms(1,2)] show ?thesis by simp
qed

lemma reaches_keeps_records:
  shows "reaches E en f' sc' ie' tid' x s' f sc ie tid n s \<Longrightarrow>
           ok_state s \<Longrightarrow> in_module sc ie tid s \<Longrightarrow>
           ok_state s' \<and> in_module sc' ie' tid' s' \<and> keeps_records (path sc) tid s s'"
    and "reaches_list E en f' sc' ie' tid' x s' f sc ie tid ns s \<Longrightarrow>
           ok_state s \<Longrightarrow> in_module sc ie tid s \<Longrightarrow>
           ok_state s' \<and> in_module sc' ie' tid' s' \<and> keeps_records (path sc) tid s s'"
proof (induction rule: reaches_reaches_list.inducts)
  case here
  then show ?case by simp
next
  case (below f sc ie tid n s)
  then show ?case by blast
next
  case (imported f sc ie tid n s ch s1 m t src)
  have w: "walk_nodes (Suc f) E en sc ie tid (children n) s = Ok (ch, s1)" by fact
  have fresh: "modulesIds s1 (path t) = None" by fact
  have ok: "ok_state s" and im: "in_module sc ie tid s" by fact+
  from traversal_invariants(6) [of s sc ie tid "Suc f" E en "children n"] ok im w
  have ok1: "ok_state s1" and x1: "extends_in (path sc) tid s s1" by blast+
  have oke: "ok_state (entered False (path t) s1)"
    using ok1 fresh by (rule entered_module_ok)
  have ime: "in_module t False (currModuleId s1 + 1) (entered False (path t) s1)"
    using ok1 fresh by (rule entered_in_module)
  from imported.IH oke ime have
    r: "ok_state s'" "in_module sc' ie' tid' s'"
       "keeps_records (path t) (currModuleId s1 + 1) (entered False (path t) s1) s'"
    by blast+
  from extends_in_keeps [OF x1] fresh r(3) have "keeps_records (path sc) tid s s'"
    by (rule keeps_records_enter)
  with r show ?case by blast
next
  case (first f sc ie tid c s cs)
  then show ?case by blast
next
  case (later f sc ie tid c s c' s1 cs)
  have w: "walk_node f E en sc ie tid c s = Ok (c', s1)" by fact
  have ok: "ok_state s" and im: "in_module sc ie tid s" by fact+
  from traversal_invariants(5) [of s sc ie tid f E en c] ok im w
  have ok1: "ok_state s1" and im1: "in_module sc ie tid s1"
    and x1: "extends_in (path sc) tid s s1" by blast+
  from later.IH ok1 im1 have
    r: "ok_state s'" "in_module sc' ie' tid' s'" "keeps_records (path sc) tid s1 s'"
    by blast+
  from extends_in_keeps [OF x1] r(3) have "keeps_records (path sc) tid s s'"
    by (rule keeps_records_trans)
  with r show ?case by blast
qed

lemma reaches_keeps_in_progress:
  shows "reaches E en f' sc' ie' tid' x s' f sc ie tid n s \<Longrightarrow>
           ok_state s \<Longrightarrow> in_module sc ie tid s \<Longrightarrow> no_export n \<Longrightarrow>
           modulesIds s' (path sc) = modulesIds s (path sc)"
    and "reaches_list E en f' sc' ie' tid' x s' f sc ie tid ns s \<Longrightarrow>
           ok_state s \<Longrightarrow> in_module sc ie tid s \<Longrightarrow> list_all no_export ns \<Longrightarrow>
           modulesIds s' (path sc) = modulesIds s (path sc)"
proof (induction rule: reaches_reaches_list.inducts)
  case here
  show ?case by simp
next
  case (below f sc ie tid n s)
  have "no_export n" by fact
  then have "list_all no_export (children n)" by (subst (asm) no_export.simps) simp
  with below show ?case by blast
next
  case (imported f sc ie tid n s ch s1 m t src)
  have w: "walk_nodes (Suc f) E en sc ie tid (children n) s = Ok (ch, s1)" by fact
  have fresh: "modulesIds s1 (path t) = None" by fact
  have r: "reaches_list E en f' sc' ie' tid' x s' f t False (currModuleId s1 + 1)
       (built (luaparse_parse E src)) (entered False (path t) s1)" by fact
  have ok: "ok_state s" and im: "in_module sc ie tid s" and ne: "no_export n" by fact+
  from ne have ch: "list_all no_export (children n)" by (subst (asm) no_export.simps) simp
  from walk_keeps_in_progress(6) [of s sc ie tid "children n" "Suc f" E en] ok im ch w
  have 1: "modulesIds s1 (path sc) = modulesIds s (path sc)" by blast
  from traversal_invariants(6) [of s sc ie tid "Suc f" E en "children n"] ok im w
  have ok1: "ok_state s1" and im1: "in_module sc ie tid s1" by blast+
  from im1 obtain v where v: "modulesIds s1 (path sc) = Some v"
    using in_module_record by blast
  with fresh have ne: "path sc \<noteq> path t" by auto
  have oke: "ok_state (entered False (path t) s1)"
    using ok1 fresh by (rule entered_module_ok)
  have ime: "in_module t False (currModuleId s1 + 1) (entered False (path t) s1)"
    using ok1 fresh by (rule entered_in_module)
  from reaches_keeps_records(2) [OF r oke ime]
  have k: "keeps_records (path t) (currModuleId s1 + 1) (entered False (path t) s1) s'"
    by blast
  from v ne have "modulesIds (entered False (path t) s1) (path sc) = Some v"
    by (simp add: entered_simps)
  with k ne have "modulesIds s' (path sc) = Some v"
    unfolding keeps_records_def by blast
  with v 1 show ?case by simp
next
  case (first f sc ie tid c s cs)
  then show ?case by simp
next
  case (later f sc ie tid c s c' s1 cs)
  have w: "walk_node f E en sc ie tid c s = Ok (c', s1)" by fact
  have ok: "ok_state s" and im: "in_module sc ie tid s"
    and ne: "list_all no_export (c # cs)" by fact+
  from ne have n1: "no_export c" and n2: "list_all no_export cs" by simp_all
  from walk_keeps_in_progress(5) [of s sc ie tid c f E en] ok im n1 w
  have 1: "modulesIds s1 (path sc) = modulesIds s (path sc)" by blast
  from traversal_invariants(5) [of s sc ie tid f E en c] ok im w
  have ok1: "ok_state s1" and im1: "in_module sc ie tid s1" by blast+
  from later.IH ok1 im1 n2 have "modulesIds s' (path sc) = modulesIds s1 (path sc)" by blast
  with 1 show ?case by simp
qed

text \<open>
  Claim C3, as amended. A module met for the first time is parsed from a state in which
  its record is in progress, and when \<open>recurseResolve\<close> returns its record is its id.
  While the parser is inside a file, the records of all other paths stay as they are,
  and the file's own record is in progress or, in a module, already its id. The record of
  a module becomes its id when an assignment of the module with the export slot as first
  target is rewritten, and stays so; while no such assignment is built it stays as it is.
  An import site whose module has a record in progress raises \<open>CircularDependency\<close> with
  the path of the module and the path of the importing file, and an import site whose
  module has an id as record is rewritten into the loader call with that id, without
  entering the module. Whenever a build reaches an import site whose module has a record
  in progress, the build raises \<open>CircularDependency\<close> with the two paths. And from a
  node of a file to any node the traversal reaches from it, in that file or in a module
  met below it, every record stays what it is, except that the file's own record may have
  become its id; and from a tree of a file that holds no assignment with the export
  slot as first target, the file's own record stays what it is: the record of a file
  stays in progress while the modules it imports are parsed, unless it has exported.
\<close>

theorem in_progress_guard:
  "(\<forall>v prev fuel. modulesIds s (path sc) = Some v \<longrightarrow> v < 0 \<longrightarrow>
        recurseResolve fuel E en sc (Some prev) s =
          Throw (CircularDependency (path sc) (path prev)))
   \<and> (\<forall>fuel prev r s'. ok_state s \<longrightarrow> modulesIds s (path sc) = None \<longrightarrow>
        recurseResolve fuel E en sc (Some prev) s = Ok (r, s') \<longrightarrow>
        (\<exists>fuel' src ast0 body' s2.
           fuel = Suc fuel' \<and> contents E sc = Some src \<and> luaparse_parse E src = Parsed ast0 \<and>
           walk_nodes fuel' E en sc False (currModuleId s + 1) (body ast0)
             (entered False (path sc) s) = Ok (body', s2) \<and>
           modulesIds (entered False (path sc) s) (path sc) = Some (- 1) \<and>
           r = Some (currModuleId s + 1) \<and>
           modulesIds s' (path sc) = Some (currModuleId s + 1)))
   \<and> (\<forall>fuel ie tid ns ns' s'. ok_state s \<longrightarrow> in_module sc ie tid s \<longrightarrow>
        walk_nodes fuel E en sc ie tid ns s = Ok (ns', s') \<longrightarrow>
        (\<forall>p v. p \<noteq> path sc \<longrightarrow> modulesIds s p = Some v \<longrightarrow> modulesIds s' p = Some v)
        \<and> (modulesIds s' (path sc) = Some (- 1) \<or> (\<not> ie \<and> modulesIds s' (path sc) = Some tid)))
   \<and> (\<forall>fuel tid l ix l' vs init n' s'.
        walk_node fuel E en sc False tid
          (AssignmentStatement
             (IndexExpression
                (MemberExpression (Identifier ''package'' l) ix (Identifier ''loaded'' l'))
                VarargLiteral # vs) init) s = Ok (n', s') \<longrightarrow>
        modulesIds s' (path sc) = Some tid)
   \<and> (\<forall>fuel tid ns ns' s'. ok_state s \<longrightarrow> in_module sc False tid s \<longrightarrow>
        modulesIds s (path sc) = Some tid \<longrightarrow>
        walk_nodes fuel E en sc False tid ns s = Ok (ns', s') \<longrightarrow>
        modulesIds s' (path sc) = Some tid)
   \<and> (\<forall>fuel ie tid ns ns' s'. ok_state s \<longrightarrow> in_module sc ie tid s \<longrightarrow>
        list_all no_export ns \<longrightarrow>
        walk_nodes fuel E en sc ie tid ns s = Ok (ns', s') \<longrightarrow>
        modulesIds s' (path sc) = modulesIds s (path sc))
   \<and> (\<forall>fuel ie tid x ch s1 m t v.
        walk_nodes fuel E en sc ie tid (children x) s = Ok (ch, s1) \<longrightarrow>
        import_of (rebuild x ch) = Some m \<longrightarrow>
        getRequiredModule E en sc m = Ok (Some t) \<longrightarrow>
        modulesIds s1 (path t) = Some v \<longrightarrow>
        (v < 0 \<longrightarrow> walk_node fuel E en sc ie tid x s =
                     Throw (CircularDependency (path t) (path sc)))
        \<and> (0 < v \<longrightarrow> walk_node fuel E en sc ie tid x s =
                     Ok (CallExpression (Identifier ''__OL__require'' (Some True))
                           [NumericLiteral v], s1)))
   \<and> (\<forall>entry fuel f ie tid x ch s1 m t v.
        build_reaches E entry fuel f sc ie tid x s \<longrightarrow>
        walk_nodes f E (entryScript_of E entry) sc ie tid (children x) s = Ok (ch, s1) \<longrightarrow>
        import_of (rebuild x ch) = Some m \<longrightarrow>
        getRequiredModule E (entryScript_of E entry) sc m = Ok (Some t) \<longrightarrow>
        modulesIds s1 (path t) = Some v \<longrightarrow> v < 0 \<longrightarrow>
        process fuel E entry = Throw (CircularDependency (path t) (path sc)))
   \<and> (\<forall>f' sc' ie' tid' x s' f ie tid n.
        reaches E en f' sc' ie' tid' x s' f sc ie tid n s \<longrightarrow>
        ok_state s \<longrightarrow> in_module sc ie tid s \<longrightarrow>
        (\<forall>p v. modulesIds s p = Some v \<longrightarrow>
           modulesIds s' p = Some v \<or> (p = path sc \<and> modulesIds s' p = Some tid)))
   \<and> (\<forall>f' sc' ie' tid' x s' f ie tid n.
        reaches E en f' sc' ie' tid' x s' f sc ie tid n s \<longrightarrow>
        ok_state s \<longrightarrow> in_module sc ie tid s \<longrightarrow> no_export n \<longrightarrow>
        modulesIds s' (path sc) = modulesIds s (path sc))"
proof (intro conjI allI impI)
  fix v prev fuel
  assume "modulesIds s (path sc) = Some v" "v < 0"
  then show "recurseResolve fuel E en sc (Some prev) s =
          Throw (CircularDependency (path sc) (path prev))"
    by (rule recurseResolve_in_progress)
next
  fix fuel prev r s'
  assume ok: "ok_state s" and n: "modulesIds s (path sc) = None"
    and run: "recurseResolve fuel E en sc (Some prev) s = Ok (r, s')"
  from recurseResolve_Ok_cases [OF run ok] n
  show "\<exists>fuel' src ast0 body' s2.
           fuel = Suc fuel' \<and> contents E sc = Some src \<and> luaparse_parse E src = Parsed ast0 \<and>
           walk_nodes fuel' E en sc False (currModuleId s + 1) (body ast0)
             (entered False (path sc) s) = Ok (body', s2) \<and>
           modulesIds (entered False (path sc) s) (path sc) = Some (- 1) \<and>
           r = Some (currModuleId s + 1) \<and>
           modulesIds s' (path sc) = Some (currModuleId s + 1)"
    by (auto simp: entered_def)
next
  fix fuel ie tid ns ns' s' p v
  assume "ok_state s" "in_module sc ie tid s" "walk_nodes fuel E en sc ie tid ns s = Ok (ns', s')"
    and pv: "p \<noteq> path sc" "modulesIds s p = Some v"
  with traversal_invariants(6) [of s sc ie tid fuel E en ns]
  have "extends_in (path sc) tid s s'" by blast
  with pv show "modulesIds s' p = Some v" unfolding extends_in_def by blast
next
  fix fuel ie tid ns ns' s'
  assume "ok_state s" "in_module sc ie tid s" "walk_nodes fuel E en sc ie tid ns s = Ok (ns', s')"
  with traversal_invariants(6) [of s sc ie tid fuel E en ns]
  have "in_module sc ie tid s'" by blast
  then show "modulesIds s' (path sc) = Some (- 1) \<or> (\<not> ie \<and> modulesIds s' (path sc) = Some tid)"
    by (simp add: in_module_def)
next
  fix fuel tid l ix l' vs init n' s'
  assume "walk_node fuel E en sc False tid
          (AssignmentStatement
             (IndexExpression
                (MemberExpression (Identifier ''package'' l) ix (Identifier ''loaded'' l'))
                VarargLiteral # vs) init) s = Ok (n', s')"
  then show "modulesIds s' (path sc) = Some tid"
    by (intro export_sets_record [of _ fuel E en sc tid vs init s n' s']) simp_all
next
  fix fuel tid ns ns' s'
  assume ok: "ok_state s" and im: "in_module sc False tid s"
    and r: "modulesIds s (path sc) = Some tid"
    and w: "walk_nodes fuel E en sc False tid ns s = Ok (ns', s')"
  from im have "0 < tid" by (simp add: in_module_def)
  with ok im w r show "modulesIds s' (path sc) = Some tid" by (rule walk_keeps_resolved)
next
  fix fuel ie tid ns ns' s'
  assume "ok_state s" "in_module sc ie tid s" "list_all no_export ns"
    "walk_nodes fuel E en sc ie tid ns s = Ok (ns', s')"
  with walk_keeps_in_progress(6) [of s sc ie tid ns fuel E en]
  show "modulesIds s' (path sc) = modulesIds s (path sc)" by blast
next
  fix fuel ie tid x ch s1 m t v
  assume "walk_nodes fuel E en sc ie tid (children x) s = Ok (ch, s1)"
    "import_of (rebuild x ch) = Some m" "getRequiredModule E en sc m = Ok (Some t)"
    "modulesIds s1 (path t) = Some v" "v < 0"
  then show "walk_node fuel E en sc ie tid x s = Throw (CircularDependency (path t) (path sc))"
    by (rule import_site_in_progress)
next
  fix fuel ie tid x ch s1 m t v
  assume "walk_nodes fuel E en sc ie tid (children x) s = Ok (ch, s1)"
    "import_of (rebuild x ch) = Some m" "getRequiredModule E en sc m = Ok (Some t)"
    "modulesIds s1 (path t) = Some v" "0 < v"
  then show "walk_node fuel E en sc ie tid x s =
     Ok (CallExpression (Identifier ''__OL__require'' (Some True)) [NumericLiteral v], s1)"
    by (rule import_site_resolved)
next
  fix entry fuel f ie tid x ch s1 m t v
  assume r: "build_reaches E entry fuel f sc ie tid x s"
    and "walk_nodes f E (entryScript_of E entry) sc ie tid (children x) s = Ok (ch, s1)"
    "import_of (rebuild x ch) = Some m"
    "getRequiredModule E (entryScript_of E entry) sc m = Ok (Some t)"
    "modulesIds s1 (path t) = Some v" "v < 0"
  then have "walk_node f E (entryScript_of E entry) sc ie tid x s =
      Throw (CircularDependency (path t) (path sc))"
    by (intro import_site_in_progress)
  with r show "process fuel E entry = Throw (CircularDependency (path t) (path sc))"
    by (rule build_reaches_Throw)
next
  fix f' sc' ie' tid' x s' f ie tid n p v
  assume "reaches E en f' sc' ie' tid' x s' f sc ie tid n s" "ok_state s" "in_module sc ie tid s"
  then have "keeps_records (path sc) tid s s'"
    using reaches_keeps_records(1) by blast
  moreover assume "modulesIds s p = Some v"
  ultimately show "modulesIds s' p = Some v \<or> (p = path sc \<and> modulesIds s' p = Some tid)"
    unfolding keeps_records_def by blast
next
  fix f' sc' ie' tid' x s' f ie tid n
  assume "reaches E en f' sc' ie' tid' x s' f sc ie tid n s" "ok_state s" "in_module sc ie tid s"
    "no_export n"
  then show "modulesIds s' (path sc) = modulesIds s (path sc)"
    by (rule reaches_keeps_in_progress(1))
qed

text \<open>
  The amended claim at a state in which \<open>/p/main.lua\<close> is in progress; at the export of
  \<open>/d/a.lua\<close>; and at the cycle of \<open>/d\<close>, where \<open>a.lua\<close> imports \<open>b.lua\<close> before it exports:
  the build of \<open>/d/main.lua\<close> reaches the import of \<open>a\<close> in \<open>b.lua\<close> while the record of
  \<open>a.lua\<close> is in progress.
\<close>

lemma d_files:
  "built (luaparse_parse d_env ''/d/main.lua'') = [CallStatement (require_call ''a'')]"
  "built (luaparse_parse d_env ''/d/a.lua'') =
     [CallStatement (require_call ''b''), AssignmentStatement [export_slot] [NumericLiteral 1]]"
  "built (luaparse_parse d_env ''/d/b.lua'') = [CallStatement (require_call ''a'')]"
  "contents d_env d_main = Some ''/d/main.lua''"
  "contents d_env d_a = Some ''/d/a.lua''"
  "contents d_env d_b = Some ''/d/b.lua''"
  "path d_main = ''/d/main.lua''" "path d_a = ''/d/a.lua''" "path d_b = ''/d/b.lua''"
  "getRequiredModule d_env d_main d_main ''a'' = Ok (Some d_a)"
  "getRequiredModule d_env d_main d_a ''b'' = Ok (Some d_b)"
  "getRequiredModule d_env d_main d_b ''a'' = Ok (Some d_a)"
  "exists_script d_env d_main"
  by (simp_all add: getRequiredModule_def Let_def ex_defs d_main_def d_a_def d_b_def)

lemma d_reaches:
  "build_reaches d_env ''main.lua'' (Suc (Suc (Suc 0))) 0 d_b False 2 (require_call ''a'')
     (entered False ''/d/b.lua'' (entered False ''/d/a.lua'' (entered True ''/d/main.lua'' init_state)))"
proof -
  let ?s0 = "entered True ''/d/main.lua'' init_state"
  let ?s1 = "entered False ''/d/a.lua'' ?s0"
  let ?s2 = "entered False ''/d/b.lua'' ?s1"
  have b: "reaches_list d_env d_main 0 d_b False 2 (require_call ''a'') ?s2 0 d_b False 2
             (built (luaparse_parse d_env ''/d/b.lua'')) ?s2"
    unfolding d_files by (intro reaches_statement reaches_reaches_list.here)
  have "reaches d_env d_main 0 d_b False 2 (require_call ''a'') ?s2 (Suc 0) d_a False 1
            (require_call ''b'') ?s1"
    using b
    by (intro reaches_import [OF d_files(11) _ d_files(6)])
       (simp_all add: entered_simps d_files init_state_def)
  then have a: "reaches_list d_env d_main 0 d_b False 2 (require_call ''a'') ?s2 (Suc 0) d_a False 1
             (built (luaparse_parse d_env ''/d/a.lua'')) ?s1"
    unfolding d_files by (intro reaches_statement)
  have "reaches d_env d_main 0 d_b False 2 (require_call ''a'') ?s2 (Suc (Suc 0)) d_main True 0
            (require_call ''a'') ?s0"
    using a
    by (intro reaches_import [OF d_files(10) _ d_files(5)])
       (simp_all add: entered_simps d_files init_state_def)
  then have m: "reaches_list d_env d_main 0 d_b False 2 (require_call ''a'') ?s2 (Suc (Suc 0)) d_main True 0
             (built (luaparse_parse d_env ''/d/main.lua'')) ?s0"
    unfolding d_files by (intro reaches_statement)
  show ?thesis
    unfolding build_reaches_def Let_def d_main_def [symmetric]
    using m by (simp add: d_files)
qed

theorem in_progress_guard_witness:
  "modulesIds ex_state (path ex_main) = Some (- 1)
   \<and> recurseResolve 0 ex_env ex_main ex_main (Some ex_main) ex_state =
       Throw (CircularDependency ''/p/main.lua'' ''/p/main.lua'')
   \<and> walk_node 0 d_env d_main d_a False 1
       (AssignmentStatement
          [IndexExpression
             (MemberExpression (Identifier ''package'' (Some False)) ''.'' (Identifier ''loaded'' None))
             VarargLiteral]
          [NumericLiteral 1])
       (entered False ''/d/a.lua'' (entered True ''/d/main.lua'' init_state)) =
       Ok (AssignmentStatement
             [IndexExpression (Identifier ''__OL__cached_packages'' None) (NumericLiteral 1)]
             [NumericLiteral 1],
           (entered False ''/d/a.lua'' (entered True ''/d/main.lua'' init_state))
             \<lparr>modulesIds :=
                (modulesIds (entered False ''/d/a.lua'' (entered True ''/d/main.lua'' init_state)))
                  (''/d/a.lua'' \<mapsto> 1)\<rparr>)
   \<and> modulesIds
        ((entered False ''/d/a.lua'' (entered True ''/d/main.lua'' init_state))
             \<lparr>modulesIds :=
                (modulesIds (entered False ''/d/a.lua'' (entered True ''/d/main.lua'' init_state)))
                  (''/d/a.lua'' \<mapsto> 1)\<rparr>) (path d_a) = Some 1
   \<and> build_reaches d_env ''main.lua'' (Suc (Suc (Suc 0))) 0 d_b False 2 (require_call ''a'')
       (entered False ''/d/b.lua'' (entered False ''/d/a.lua'' (entered True ''/d/main.lua'' init_state)))
   \<and> walk_nodes 0 d_env (entryScript_of d_env ''main.lua'') d_b False 2 (children (require_call ''a''))
       (entered False ''/d/b.lua'' (entered False ''/d/a.lua'' (entered True ''/d/main.lua'' init_state))) =
       Ok ([Identifier ''require'' (Some False), StringLiteral ''a''],
           entered False ''/d/b.lua'' (entered False ''/d/a.lua'' (entered True ''/d/main.lua'' init_state)))
   \<and> import_of (rebuild (require_call ''a'') [Identifier ''require'' (Some False), StringLiteral ''a''])
       = Some ''a''
   \<and> getRequiredModule d_env (entryScript_of d_env ''main.lua'') d_b ''a'' = Ok (Some d_a)
   \<and> modulesIds
        (entered False ''/d/b.lua'' (entered False ''/d/a.lua'' (entered True ''/d/main.lua'' init_state)))
        (path d_a) = Some (- 1)
   \<and> process (Suc (Suc (Suc 0))) d_env ''main.lua'' =
       Throw (CircularDependency ''/d/a.lua'' ''/d/b.lua'')"
proof -
  let ?sa = "entered False ''/d/a.lua'' (entered True ''/d/main.lua'' init_state)"
  let ?sb = "entered False ''/d/b.lua'' ?sa"
  let ?slot = "IndexExpression
             (MemberExpression (Identifier ''package'' (Some False)) ''.'' (Identifier ''loaded'' None))
             VarargLiteral"
  have m: "modulesIds ex_state (path ex_main) = Some (- 1)"
    by (simp add: ex_state_def ex_defs)
  have p: "path ex_main = ''/p/main.lua''"
    by (simp add: ex_defs)
  from in_progress_guard [of ex_state ex_main ex_env ex_main] m
  have 1: "recurseResolve 0 ex_env ex_main ex_main (Some ex_main) ex_state =
       Throw (CircularDependency (path ex_main) (path ex_main))"
    by simp
  have w: "walk_node 0 d_env d_main d_a False 1 (AssignmentStatement [?slot] [NumericLiteral 1]) ?sa =
       Ok (AssignmentStatement
             [IndexExpression (Identifier ''__OL__cached_packages'' None) (NumericLiteral 1)]
             [NumericLiteral 1],
           ?sa\<lparr>modulesIds := (modulesIds ?sa)(''/d/a.lua'' \<mapsto> 1)\<rparr>)"
    using walk_export_assignment [of ?slot 0 d_env d_main d_a False 1 "[]" "[NumericLiteral 1]" ?sa
        "[NumericLiteral 1]" ?sa]
    by (simp add: cache_slot_def d_files)
  have 2: "modulesIds (?sa\<lparr>modulesIds := (modulesIds ?sa)(''/d/a.lua'' \<mapsto> 1)\<rparr>) (path d_a) = Some 1"
    by (rule in_progress_guard [of ?sa d_a d_env d_main, THEN conjunct2, THEN conjunct2,
          THEN conjunct2, THEN conjunct1, rule_format, OF w])
  have c: "walk_nodes 0 d_env (entryScript_of d_env ''main.lua'') d_b False 2
             (children (require_call ''a'')) ?sb =
           Ok ([Identifier ''require'' (Some False), StringLiteral ''a''], ?sb)"
    by (rule walk_require_children)
  have i: "import_of (rebuild (require_call ''a'') [Identifier ''require'' (Some False), StringLiteral ''a''])
       = Some ''a''"
    by (simp add: rebuild_require)
  have g: "getRequiredModule d_env (entryScript_of d_env ''main.lua'') d_b ''a'' = Ok (Some d_a)"
    using d_files(12) by (simp add: d_main_def)
  have r: "modulesIds ?sb (path d_a) = Some (- 1)"
    by (simp add: entered_simps d_files)
  have 3: "process (Suc (Suc (Suc 0))) d_env ''main.lua'' =
       Throw (CircularDependency (path d_a) (path d_b))"
    by (rule in_progress_guard [of ?sb d_b d_env d_main, THEN conjunct2, THEN conjunct2,
          THEN conjunct2, THEN conjunct2, THEN conjunct2, THEN conjunct2, THEN conjunct2,
          THEN conjunct1, rule_format, OF d_reaches c i g r]) simp
  from m 1 w 2 d_reaches c i g r 3 show ?thesis
    by (simp only: p d_files simp_thms)
qed

text \<open>
  Claim C3 as stated fails: in \<open>/c\<close>, \<open>a.lua\<close> exports and then imports \<open>b.lua\<close>, which
  imports \<open>a.lua\<close>. The export marks \<open>a.lua\<close> resolved before it is fully parsed, the
  cycle is not reported, and the build succeeds.
\<close>

theorem export_before_import_cycle_builds:
  "process 3 c_env ''main.lua'' =
     Ok (emitted
           [createRequireDef 1
              [AssignmentStatement [cache_slot 1] [NumericLiteral 1], CallStatement (loader_call 2)],
            createRequireDef 2 [CallStatement (loader_call 1)]]
           [CallStatement (loader_call 1)])"
  by code_simp

subsection \<open>Acyclic projects\<close>

lemma no_new_neg_refl [simp]: "no_new_neg s s"
  by (simp add: no_new_neg_def)

lemma no_new_neg_trans: "no_new_neg s1 s2 \<Longrightarrow> no_new_neg s2 s3 \<Longrightarrow> no_new_neg s1 s3"
  unfolding no_new_neg_def by blast

lemma above_no_new_neg: "above rk b s \<Longrightarrow> no_new_neg s s' \<Longrightarrow> above rk b s'"
  unfolding above_def no_new_neg_def by blast

lemma above_mono: "above rk b s \<Longrightarrow> c \<le> b \<Longrightarrow> above rk c s"
  unfolding above_def by (meson order_trans)

lemma local_ok_other:
  "node_type n \<noteq> ''StringCallExpression'' \<Longrightarrow> node_type n \<noteq> ''CallExpression'' \<Longrightarrow>
   node_type n \<noteq> ''AssignmentStatement'' \<Longrightarrow> local_ok P ie (rebuild n ch)"
  by (cases n) simp_all

lemma local_ok_rebuild:
  assumes "local_ok P ie n"
    and "walk_nodes fuel E en sc ie' tid (children n) s = Ok (ch, s1)"
  shows "local_ok P ie (rebuild n ch)"
proof (cases n)
  case (CallExpression b args)
  from assms(2) obtain b' sa args' where
    b: "walk_node fuel E en sc ie' tid b s = Ok (b', sa)"
    and a: "walk_nodes fuel E en sc ie' tid args sa = Ok (args', s1)"
    and ch: "ch = b' # args'"
    unfolding CallExpression children.simps walk_nodes_Cons_Ok by blast
  have "case args' of StringLiteral m # _ \<Rightarrow> P m | _ \<Rightarrow> False" if "has_name ''require'' b'"
  proof -
    from b that have "b = b'" by (rule has_name_walked)
    with that assms(1) CallExpression obtain m rest where
      args: "args = StringLiteral m # rest" and m: "P m"
      by (auto split: list.splits node.splits)
    from a obtain rest' where "args' = StringLiteral m # rest'"
      unfolding args walk_nodes_Cons_Ok by auto
    with m show ?thesis by simp
  qed
  then show ?thesis by (simp add: CallExpression ch)
next
  case (StringCallExpression b a)
  from assms(2) obtain b' sa a' where
    b: "walk_node fuel E en sc ie' tid b s = Ok (b', sa)"
    and a: "walk_node fuel E en sc ie' tid a sa = Ok (a', s1)"
    and ch: "ch = [b', a']"
    unfolding StringCallExpression children.simps walk_nodes_two by blast
  have "case a' of StringLiteral m \<Rightarrow> P m | _ \<Rightarrow> False" if "has_name ''require'' b'"
  proof -
    from b that have "b = b'" by (rule has_name_walked)
    with that assms(1) StringCallExpression obtain m where
      am: "a = StringLiteral m" and m: "P m"
      by (auto split: node.splits)
    from a am have "a' = StringLiteral m" by simp
    with m show ?thesis by simp
  qed
  then show ?thesis by (simp add: StringCallExpression ch)
next
  case (AssignmentStatement vs init)
  from assms(2) obtain vs' sa init' where
    v: "walk_nodes fuel E en sc ie' tid vs s = Ok (vs', sa)"
    and ch: "ch = vs' @ init'"
    unfolding AssignmentStatement children.simps walk_nodes_append_Ok by blast
  from v have len: "length vs' = length vs" by (rule walk_nodes_length)
  have "case vs' of v' # _ \<Rightarrow> \<not> is_export_slot v' | [] \<Rightarrow> True" if ie
  proof (cases vs')
    case Nil
    then show ?thesis by simp
  next
    case (Cons v' rest')
    with len obtain v0 rest where vs: "vs = v0 # rest" by (cases vs) auto
    from v Cons obtain sb where w: "walk_node fuel E en sc ie' tid v0 s = Ok (v', sb)"
      unfolding vs walk_nodes_Cons_Ok by auto
    from assms(1) that have "\<not> is_export_slot v0"
      by (simp add: AssignmentStatement vs)
    with is_export_slot_walked [OF w] have "\<not> is_export_slot v'" by blast
    with Cons show ?thesis by simp
  qed
  then show ?thesis by (simp add: AssignmentStatement ch len)
qed (simp_all)

lemma assignmentStatement_succeeds:
  assumes "local_ok P ie node" "in_module sc ie tid s"
  shows "\<exists>n' s'. assignmentStatement sc ie tid node s = Ok (n', s') \<and> no_new_neg s s'"
proof (cases node)
  case (AssignmentStatement vs init)
  show ?thesis
  proof (cases "vs \<noteq> [] \<and> is_export_slot (hd vs)")
    case True
    then obtain v rest where vs: "vs = v # rest" and e: "is_export_slot v" by (cases vs) auto
    with assms(1) AssignmentStatement have nie: "\<not> ie" by auto
    with assms(2) have "0 < tid" by (simp add: in_module_def)
    then have "no_new_neg s (s\<lparr>modulesIds := (modulesIds s)(path sc \<mapsto> tid)\<rparr>)"
      by (auto simp: no_new_neg_def split: if_splits)
    with nie e show ?thesis by (simp add: AssignmentStatement vs)
  next
    case False
    then show ?thesis by (cases vs) (simp_all add: AssignmentStatement)
  qed
qed simp_all

lemma parses_okD:
  assumes "parses_ok E en R rk ie sc"
  obtains src ast where "contents E sc = Some src" "luaparse_parse E src = Parsed ast"
    "list_all (imports_ok (resolves_below E en R rk sc) ie) (body ast)"
  using assms unfolding parses_ok_def by (auto split: option.splits parsed.splits)

lemma resolves_belowD:
  assumes "resolves_below E en R rk sc m"
  obtains t where "getRequiredModule E en sc m = Ok (Some t)" "t \<in> R" "rk (path t) < rk (path sc)"
  using assms unfolding resolves_below_def by (auto split: result.splits option.splits)

lemma enter_above:
  assumes "above rk (Suc (rk p)) s"
  shows "above rk (rk p)
           (s\<lparr>currModuleId := currModuleId s + 1,
              modulesIds := (modulesIds s)(p \<mapsto> - 1), reads := reads s @ [p]\<rparr>)"
  using assms unfolding above_def by (auto split: if_splits) (meson Suc_leD)

lemma leave_no_new_neg:
  assumes "0 \<le> currModuleId s" "modulesIds s p = None"
    and "no_new_neg (s\<lparr>currModuleId := currModuleId s + 1,
              modulesIds := (modulesIds s)(p \<mapsto> - 1), reads := reads s @ [p]\<rparr>) s2"
  shows "no_new_neg s (s2\<lparr>modulesIds := (modulesIds s2)(p \<mapsto> currModuleId s + 1),
                           modulesAst := m\<rparr>)"
  unfolding no_new_neg_def
proof (intro allI impI)
  fix q v
  assume a: "modulesIds (s2\<lparr>modulesIds := (modulesIds s2)(p \<mapsto> currModuleId s + 1),
                           modulesAst := m\<rparr>) q = Some v" and v: "v < 0"
  from a v assms(1) have qp: "q \<noteq> p" by (auto split: if_splits)
  with a have "modulesIds s2 q = Some v" by simp
  with assms(3) v have "modulesIds (s\<lparr>currModuleId := currModuleId s + 1,
              modulesIds := (modulesIds s)(p \<mapsto> - 1), reads := reads s @ [p]\<rparr>) q = Some v"
    unfolding no_new_neg_def by blast
  with qp show "modulesIds s q = Some v" by simp
qed

lemma traversal_succeeds:
  fixes R :: "LuaScript set" and rk :: "string \<Rightarrow> nat"
  shows "\<forall>pv. previousScript = Some pv \<longrightarrow> acyclic_project E entryScript R rk \<longrightarrow>
           script \<in> R \<longrightarrow> rk (path script) < fuel \<longrightarrow> ok_state s \<longrightarrow>
           above rk (Suc (rk (path script))) s \<longrightarrow>
           (\<exists>i s'. recurseResolve fuel E entryScript script previousScript s = Ok (Some i, s') \<and>
                    no_new_neg s s')"
    and "acyclic_project E entryScript R rk \<longrightarrow>
           resolves_below E entryScript R rk script module \<longrightarrow> rk (path script) \<le> fuel \<longrightarrow>
           ok_state s \<longrightarrow> above rk (rk (path script)) s \<longrightarrow>
           (\<exists>n' s'. new_astnode fuel E entryScript script module node s = Ok (n', s') \<and>
                     no_new_neg s s')"
    and "acyclic_project E entryScript R rk \<longrightarrow>
           local_ok (resolves_below E entryScript R rk script) False node \<longrightarrow>
           rk (path script) \<le> fuel \<longrightarrow> ok_state s \<longrightarrow> above rk (rk (path script)) s \<longrightarrow>
           (\<exists>n' s'. stringCallExpression fuel E entryScript script node s = Ok (n', s') \<and>
                     no_new_neg s s')"
    and "acyclic_project E entryScript R rk \<longrightarrow>
           local_ok (resolves_below E entryScript R rk script) False node \<longrightarrow>
           rk (path script) \<le> fuel \<longrightarrow> ok_state s \<longrightarrow> above rk (rk (path script)) s \<longrightarrow>
           (\<exists>n' s'. callExpression fuel E entryScript script node s = Ok (n', s') \<and>
                     no_new_neg s s')"
    and "acyclic_project E entryScript R rk \<longrightarrow>
           imports_ok (resolves_below E entryScript R rk script) is_entry n \<longrightarrow>
           rk (path script) \<le> fuel \<longrightarrow> ok_state s \<longrightarrow>
           in_module script is_entry thisModuleId s \<longrightarrow> above rk (rk (path script)) s \<longrightarrow>
           (\<exists>n' s'. walk_node fuel E entryScript script is_entry thisModuleId n s = Ok (n', s') \<and>
                     no_new_neg s s')"
    and "acyclic_project E entryScript R rk \<longrightarrow>
           list_all (imports_ok (resolves_below E entryScript R rk script) is_entry) ns \<longrightarrow>
           rk (path script) \<le> fuel \<longrightarrow> ok_state s \<longrightarrow>
           in_module script is_entry thisModuleId s \<longrightarrow> above rk (rk (path script)) s \<longrightarrow>
           (\<exists>ns' s'. walk_nodes fuel E entryScript script is_entry thisModuleId ns s = Ok (ns', s') \<and>
                      no_new_neg s s')"
proof (induction fuel E entryScript script previousScript s
    and fuel E entryScript script module node s
    and fuel E entryScript script node s
    and fuel E entryScript script node s
    and fuel E entryScript script is_entry thisModuleId n s
    and fuel E entryScript script is_entry thisModuleId ns s
    rule: recurseResolve_new_astnode_stringCallExpression_callExpression_walk_node_walk_nodes.induct)
  case (1 fuel E entryScript script previousScript s)
  show ?case
  proof (intro allI impI)
    fix pv
    assume pv: "previousScript = Some pv" and ac: "acyclic_project E entryScript R rk"
      and inR: "script \<in> R" and fu: "rk (path script) < fuel" and ok: "ok_state s"
      and ab: "above rk (Suc (rk (path script))) s"
    show "\<exists>i s'. recurseResolve fuel E entryScript script previousScript s = Ok (Some i, s') \<and>
                    no_new_neg s s'"
    proof (cases "modulesIds s (path script)")
      case (Some v)
      from ok Some have "v = - 1 \<or> 0 < v" by (rule ok_state_lookup)
      moreover have "v \<noteq> - 1"
      proof
        assume "v = - 1"
        with Some ab have "Suc (rk (path script)) \<le> rk (path script)"
          unfolding above_def by force
        then show False by simp
      qed
      ultimately have "0 < v" by simp
      with Some show ?thesis by (simp add: recurseResolve_resolved)
    next
      case None
      from fu obtain fuel' where fuel: "fuel = Suc fuel'" by (cases fuel) auto
      from ac inR have "parses_ok E entryScript R rk False script"
        unfolding acyclic_project_def by blast
      then obtain src ast0 where src: "contents E script = Some src"
        and ast0: "luaparse_parse E src = Parsed ast0"
        and imp: "list_all (imports_ok (resolves_below E entryScript R rk script) False) (body ast0)"
        by (rule parses_okD)
      let ?s1 = "s\<lparr>currModuleId := currModuleId s + 1,
               modulesIds := (modulesIds s)(path script \<mapsto> - 1),
               reads := reads s @ [path script]\<rparr>"
      let ?tid = "currModuleId s + 1"
      have ok1: "ok_state ?s1" using ok None by (rule enter_ok)
      have in1: "in_module script False ?tid ?s1"
        using ok None by (rule enter_in_module) simp
      have ab1: "above rk (rk (path script)) ?s1" using ab by (rule enter_above)
      have IH: "acyclic_project E entryScript R rk \<longrightarrow>
           list_all (imports_ok (resolves_below E entryScript R rk script) False) (body ast0) \<longrightarrow>
           rk (path script) \<le> fuel' \<longrightarrow> ok_state ?s1 \<longrightarrow>
           in_module script False ?tid ?s1 \<longrightarrow> above rk (rk (path script)) ?s1 \<longrightarrow>
           (\<exists>ns' s'. walk_nodes fuel' E entryScript script False ?tid (body ast0) ?s1 = Ok (ns', s') \<and>
                      no_new_neg ?s1 s')"
        using "1.IH" [of False None fuel' ?tid
            "s\<lparr>currModuleId := currModuleId s + 1,
               modulesIds := (modulesIds s)(path script \<mapsto> - 1)\<rparr>" src]
          pv None fuel src ast0
        by simp
      from fu fuel have "rk (path script) \<le> fuel'" by simp
      with IH ac imp ok1 in1 ab1 obtain body' s2 where
        w: "walk_nodes fuel' E entryScript script False ?tid (body ast0) ?s1 = Ok (body', s2)"
        and nn: "no_new_neg ?s1 s2"
        by blast
      have "no_new_neg s (s2\<lparr>modulesIds := (modulesIds s2)(path script \<mapsto> ?tid),
                  modulesAst := obj_set (modulesAst s2) ?tid (ast0\<lparr>body := body'\<rparr>)\<rparr>)"
        using ok_state_pos [OF ok] None nn by (rule leave_no_new_neg)
      then show ?thesis
        unfolding pv fuel recurseResolve_fresh [OF None] by (simp add: src ast0 w)
    qed
  qed
next
  case (2 fuel E entryScript script module node s)
  show ?case
  proof (intro impI)
    assume ac: "acyclic_project E entryScript R rk"
      and rb: "resolves_below E entryScript R rk script module"
      and fu: "rk (path script) \<le> fuel" and ok: "ok_state s"
      and ab: "above rk (rk (path script)) s"
    from rb obtain t where g: "getRequiredModule E entryScript script module = Ok (Some t)"
      and tR: "t \<in> R" and tr: "rk (path t) < rk (path script)"
      by (rule resolves_belowD)
    from ab tr have "above rk (Suc (rk (path t))) s" by (auto intro: above_mono)
    with "2.IH" [OF g refl] ac tR tr fu ok obtain i s' where
      "recurseResolve fuel E entryScript t (Some script) s = Ok (Some i, s')" "no_new_neg s s'"
      by (metis less_le_trans)
    then show "\<exists>n' s'. new_astnode fuel E entryScript script module node s = Ok (n', s') \<and>
                     no_new_neg s s'"
      by (subst new_astnode.simps) (simp add: g)
  qed
next
  case (3 fuel E entryScript script node s)
  show ?case
  proof (intro impI)
    assume ac: "acyclic_project E entryScript R rk"
      and lo: "local_ok (resolves_below E entryScript R rk script) False node"
      and fu: "rk (path script) \<le> fuel" and ok: "ok_state s"
      and ab: "above rk (rk (path script)) s"
    show "\<exists>n' s'. stringCallExpression fuel E entryScript script node s = Ok (n', s') \<and>
                     no_new_neg s s'"
    proof (cases "\<exists>b a. node = StringCallExpression b a \<and> has_name ''require'' b")
      case True
      then obtain b a where n: "node = StringCallExpression b a" and h: "has_name ''require'' b"
        by blast
      with lo obtain m where a: "a = StringLiteral m"
        and rb: "resolves_below E entryScript R rk script m"
        by (auto split: node.splits)
      from "3.IH" [OF n h a] ac rb fu ok ab show ?thesis
        by (subst stringCallExpression.simps) (simp add: n h a)
    next
      case False
      then show ?thesis
        by (subst stringCallExpression.simps) (auto split: node.splits)
    qed
  qed
next
  case (4 fuel E entryScript script node s)
  show ?case
  proof (intro impI)
    assume ac: "acyclic_project E entryScript R rk"
      and lo: "local_ok (resolves_below E entryScript R rk script) False node"
      and fu: "rk (path script) \<le> fuel" and ok: "ok_state s"
      and ab: "above rk (rk (path script)) s"
    show "\<exists>n' s'. callExpression fuel E entryScript script node s = Ok (n', s') \<and>
                     no_new_neg s s'"
    proof (cases "\<exists>b args. node = CallExpression b args \<and> has_name ''require'' b")
      case True
      then obtain b args where n: "node = CallExpression b args" and h: "has_name ''require'' b"
        by blast
      with lo obtain m rest where a: "args = StringLiteral m # rest"
        and rb: "resolves_below E entryScript R rk script m"
        by (auto split: list.splits node.splits)
      from "4.IH" [OF n h a refl] ac rb fu ok ab show ?thesis
        by (subst callExpression.simps) (simp add: n h a)
    next
      case False
      then show ?thesis
        by (subst callExpression.simps) (auto split: node.splits)
    qed
  qed
next
  case (5 fuel E entryScript script is_entry thisModuleId n s)
  show ?case
  proof (intro impI)
    assume ac: "acyclic_project E entryScript R rk"
      and io: "imports_ok (resolves_below E entryScript R rk script) is_entry n"
      and fu: "rk (path script) \<le> fuel" and ok: "ok_state s"
      and im: "in_module script is_entry thisModuleId s"
      and ab: "above rk (rk (path script)) s"
    let ?P = "resolves_below E entryScript R rk script"
    from io have lo: "local_ok ?P is_entry n"
      and ch: "list_all (imports_ok ?P is_entry) (children n)"
      by (subst (asm) imports_ok.simps, simp)+
    from "5.IH"(1) ac ch fu ok im ab obtain ch' s1 where
      w: "walk_nodes fuel E entryScript script is_entry thisModuleId (children n) s = Ok (ch', s1)"
      and nn: "no_new_neg s s1"
      by blast
    from traversal_invariants(6) [of s script is_entry thisModuleId fuel E entryScript "children n"]
      ok im w
    have ok1: "ok_state s1" and im1: "in_module script is_entry thisModuleId s1"
      by blast+
    from ab nn have ab1: "above rk (rk (path script)) s1" by (rule above_no_new_neg)
    from lo w have lo1: "local_ok ?P is_entry (rebuild n ch')" by (rule local_ok_rebuild)
    have lo2: "local_ok ?P False (rebuild n ch')"
      if "node_type n \<noteq> ''AssignmentStatement''"
      using lo1 that by (cases n) simp_all
    have "\<exists>n' s'. (if node_type n = ''StringCallExpression''
               then stringCallExpression fuel E entryScript script (rebuild n ch') s1
             else if node_type n = ''CallExpression''
               then callExpression fuel E entryScript script (rebuild n ch') s1
             else if node_type n = ''AssignmentStatement''
               then assignmentStatement script is_entry thisModuleId (rebuild n ch') s1
             else Ok (rebuild n ch', s1)) = Ok (n', s') \<and> no_new_neg s1 s'"
    proof (cases "node_type n = ''StringCallExpression''")
      case True
      with "5.IH"(2) [OF w refl refl True] ac lo2 fu ok1 ab1 show ?thesis by simp
    next
      case f1: False
      show ?thesis
      proof (cases "node_type n = ''CallExpression''")
        case True
        with "5.IH"(3) [OF w refl refl f1 True] ac lo2 fu ok1 ab1 f1 show ?thesis by simp
      next
        case f2: False
        show ?thesis
        proof (cases "node_type n = ''AssignmentStatement''")
          case True
          with assignmentStatement_succeeds [OF lo1 im1] f1 f2 show ?thesis by simp
        next
          case False
          with f1 f2 show ?thesis by simp
        qed
      qed
    qed
    then obtain n' s' where
      "(if node_type n = ''StringCallExpression''
               then stringCallExpression fuel E entryScript script (rebuild n ch') s1
             else if node_type n = ''CallExpression''
               then callExpression fuel E entryScript script (rebuild n ch') s1
             else if node_type n = ''AssignmentStatement''
               then assignmentStatement script is_entry thisModuleId (rebuild n ch') s1
             else Ok (rebuild n ch', s1)) = Ok (n', s')" and nn1: "no_new_neg s1 s'"
      by blast
    with w have "walk_node fuel E entryScript script is_entry thisModuleId n s = Ok (n', s')"
      by (subst walk_node.simps) (simp add: Let_def)
    moreover from nn nn1 have "no_new_neg s s'" by (rule no_new_neg_trans)
    ultimately show "\<exists>n' s'. walk_node fuel E entryScript script is_entry thisModuleId n s = Ok (n', s') \<and>
                     no_new_neg s s'"
      by blast
  qed
next
  case (6 fuel E entryScript script is_entry thisModuleId s)
  show ?case by simp
next
  case (7 fuel E entryScript script is_entry thisModuleId n ns s)
  show ?case
  proof (intro impI)
    assume ac: "acyclic_project E entryScript R rk"
      and io: "list_all (imports_ok (resolves_below E entryScript R rk script) is_entry) (n # ns)"
      and fu: "rk (path script) \<le> fuel" and ok: "ok_state s"
      and im: "in_module script is_entry thisModuleId s"
      and ab: "above rk (rk (path script)) s"
    from io have i1: "imports_ok (resolves_below E entryScript R rk script) is_entry n"
      and i2: "list_all (imports_ok (resolves_below E entryScript R rk script) is_entry) ns"
      by simp_all
    from "7.IH"(1) ac i1 fu ok im ab obtain n' s1 where
      a: "walk_node fuel E entryScript script is_entry thisModuleId n s = Ok (n', s1)"
      and nn: "no_new_neg s s1"
      by blast
    from traversal_invariants(5) [of s script is_entry thisModuleId fuel E entryScript n] ok im a
    have ok1: "ok_state s1" and im1: "in_module script is_entry thisModuleId s1"
      by blast+
    from ab nn have ab1: "above rk (rk (path script)) s1" by (rule above_no_new_neg)
    from "7.IH"(2) [OF a refl] ac i2 fu ok1 im1 ab1 obtain ns' s' where
      b: "walk_nodes fuel E entryScript script is_entry thisModuleId ns s1 = Ok (ns', s')"
      and nn2: "no_new_neg s1 s'"
      by blast
    from a b have "walk_nodes fuel E entryScript script is_entry thisModuleId (n # ns) s
        = Ok (n' # ns', s')"
      by simp
    moreover from nn nn2 have "no_new_neg s s'" by (rule no_new_neg_trans)
    ultimately show "\<exists>ns' s'. walk_nodes fuel E entryScript script is_entry thisModuleId (n # ns) s
        = Ok (ns', s') \<and> no_new_neg s s'"
      by blast
  qed
qed

lemma process_succeeds:
  assumes "acyclic_project E (entryScript_of E entry) R rk"
    "exists_script E (entryScript_of E entry)"
    "rk (path (entryScript_of E entry)) < fuel"
  shows "\<exists>c. process fuel E entry = Ok c"
proof -
  let ?en = "entryScript_of E entry"
  from assms(1) have "parses_ok E ?en R rk True ?en" by (simp add: acyclic_project_def)
  then obtain src ast0 where src: "contents E ?en = Some src"
    and ast0: "luaparse_parse E src = Parsed ast0"
    and imp: "list_all (imports_ok (resolves_below E ?en R rk ?en) True) (body ast0)"
    by (rule parses_okD)
  from assms(3) obtain fuel' where fuel: "fuel = Suc fuel'" by (cases fuel) auto
  let ?s1 = "entered True (path ?en) init_state"
  have ok1: "ok_state ?s1" and in1: "in_module ?en True 0 ?s1"
    using entered_entry_ok [of "path ?en" ?en] by blast+
  have ab1: "above rk (rk (path ?en)) ?s1"
    by (auto simp: above_def entered_def init_state_def split: if_splits)
  from assms(3) fuel have "rk (path ?en) \<le> fuel'" by simp
  with traversal_succeeds(6) [of E ?en R rk ?en True "body ast0" fuel' ?s1 0] assms(1) imp ok1 in1 ab1
  obtain body' s2 where
    w: "walk_nodes fuel' E ?en ?en True 0 (body ast0) ?s1 = Ok (body', s2)"
    by blast
  have n: "modulesIds init_state (path ?en) = None" by (simp add: init_state_def)
  have "recurseResolve fuel E ?en ?en None init_state =
      Ok (None, s2\<lparr>mainAst := Some (ast0\<lparr>body := body'\<rparr>)\<rparr>)"
    unfolding fuel recurseResolve_entry [OF n] using w
    by (simp add: src ast0 entered_def)
  with assms(2) show ?thesis
    by (simp add: process_def Let_def)
qed

lemma import_site_id:
  assumes "ok_state s" "new_astnode f E en sc m node s = Ok (n', s')"
  shows "\<exists>t v. getRequiredModule E en sc m = Ok (Some t) \<and> 0 < v \<and>
           modulesIds s' (path t) = Some v \<and>
           n' = CallExpression (Identifier ''__OL__require'' (Some True)) [NumericLiteral v] \<and>
           (\<forall>f2 sc2 m2 node2 s2 t2.
               getRequiredModule E en sc2 m2 = Ok (Some t2) \<longrightarrow> path t2 = path t \<longrightarrow>
               modulesIds s2 (path t) = Some v \<longrightarrow>
               new_astnode f2 E en sc2 m2 node2 s2 =
                 Ok (CallExpression (Identifier ''__OL__require'' (Some True)) [NumericLiteral v],
                     s2))"
proof -
  from assms(2) obtain t i where
    g: "getRequiredModule E en sc m = Ok (Some t)"
    and r: "recurseResolve f E en t (Some sc) s = Ok (Some i, s')"
    and n': "n' = CallExpression (Identifier ''__OL__require'' (Some True)) [NumericLiteral i]"
    by (rule new_astnode_Ok)
  from traversal_invariants(1) [of "Some sc" s f E en t] assms(1) r have
    v: "0 < i" "modulesIds s' (path t) = Some i"
    by auto
  have "new_astnode f2 E en sc2 m2 node2 s2 =
          Ok (CallExpression (Identifier ''__OL__require'' (Some True)) [NumericLiteral i], s2)"
    if "getRequiredModule E en sc2 m2 = Ok (Some t2)" "path t2 = path t"
      "modulesIds s2 (path t) = Some i" for f2 sc2 m2 node2 s2 t2
  proof -
    from that(2,3) v(1) have "recurseResolve f2 E en t2 (Some sc2) s2 = Ok (Some i, s2)"
      by (simp add: recurseResolve_resolved)
    with that(1) show ?thesis by (subst new_astnode.simps) simp
  qed
  with g v n' show ?thesis by blast
qed

text \<open>
  Claim C5, as amended. For every build of an acyclic dependency graph in which every
  hooked import call has a string literal as first argument that resolves to a file
  that is read and parsed, and whose entry script holds no export assignment, the build
  succeeds, given fuel above the rank of the entry script. In every successful build
  each file with a record is read and parsed exactly once. A visit of a script returns
  an id that is positive and is the record of the script's path; a record that is an id
  never changes while the parser goes on; and every later visit of a script with that
  path returns the same id without reading anything. An import site is built by
  \<open>new_astnode\<close>, which rewrites it into the loader call \<open>__OL__require(v)\<close>, \<open>v\<close> being the
  record of the path its specifier resolves to; and any import site whose specifier
  resolves to a script with that path, built while the record is \<open>v\<close>, is rewritten into
  the loader call with the identical \<open>v\<close>.
\<close>

theorem acyclic_build_succeeds:
  "(acyclic_project E (entryScript_of E entry) R rk \<longrightarrow>
      exists_script E (entryScript_of E entry) \<longrightarrow>
      rk (path (entryScript_of E entry)) < fuel \<longrightarrow>
      (\<exists>c. process fuel E entry = Ok c))
   \<and> (\<forall>r s'. recurseResolve fuel E en en None init_state = Ok (r, s') \<longrightarrow>
        distinct (reads s') \<and> set (reads s') = dom (modulesIds s'))
   \<and> (\<forall>f sc prev s i s1. ok_state s \<longrightarrow>
        recurseResolve f E en sc (Some prev) s = Ok (i, s1) \<longrightarrow>
        (\<exists>v. i = Some v \<and> 0 < v \<and> modulesIds s1 (path sc) = Some v \<and>
           (\<forall>f' sc' prev' s2. path sc' = path sc \<longrightarrow> modulesIds s2 (path sc) = Some v \<longrightarrow>
               recurseResolve f' E en sc' prev' s2 = Ok (Some v, s2))))
   \<and> (\<forall>f sc ie tid ns ns' s s' p v. ok_state s \<longrightarrow> in_module sc ie tid s \<longrightarrow>
        walk_nodes f E en sc ie tid ns s = Ok (ns', s') \<longrightarrow>
        modulesIds s p = Some v \<longrightarrow> 0 < v \<longrightarrow> modulesIds s' p = Some v)
   \<and> (\<forall>f sc m node s n' s'. ok_state s \<longrightarrow>
        new_astnode f E en sc m node s = Ok (n', s') \<longrightarrow>
        (\<exists>t v. getRequiredModule E en sc m = Ok (Some t) \<and> 0 < v \<and>
           modulesIds s' (path t) = Some v \<and>
           n' = CallExpression (Identifier ''__OL__require'' (Some True)) [NumericLiteral v] \<and>
           (\<forall>f2 sc2 m2 node2 s2 t2.
               getRequiredModule E en sc2 m2 = Ok (Some t2) \<longrightarrow> path t2 = path t \<longrightarrow>
               modulesIds s2 (path t) = Some v \<longrightarrow>
               new_astnode f2 E en sc2 m2 node2 s2 =
                 Ok (CallExpression (Identifier ''__OL__require'' (Some True)) [NumericLiteral v],
                     s2))))
   \<and> (\<forall>f sc ie tid x s ch s1 m.
        walk_nodes f E en sc ie tid (children x) s = Ok (ch, s1) \<longrightarrow>
        import_of (rebuild x ch) = Some m \<longrightarrow>
        walk_node f E en sc ie tid x s = new_astnode f E en sc m (rebuild x ch) s1)"
proof (intro conjI allI impI)
  assume "acyclic_project E (entryScript_of E entry) R rk"
    "exists_script E (entryScript_of E entry)" "rk (path (entryScript_of E entry)) < fuel"
  then show "\<exists>c. process fuel E entry = Ok c" by (rule process_succeeds)
next
  fix r s'
  assume "recurseResolve fuel E en en None init_state = Ok (r, s')"
  then have "ok_state s'" using build_final_state by blast
  then show "distinct (reads s')" "set (reads s') = dom (modulesIds s')"
    by (simp_all add: ok_state_def)
next
  fix f sc prev s i s1
  assume ok: "ok_state s" and run: "recurseResolve f E en sc (Some prev) s = Ok (i, s1)"
  from traversal_invariants(1) [of "Some prev" s f E en sc] ok run obtain v where
    v: "i = Some v" "0 < v" "modulesIds s1 (path sc) = Some v"
    by auto
  have "recurseResolve f' E en sc' prev' s2 = Ok (Some v, s2)"
    if "path sc' = path sc" "modulesIds s2 (path sc) = Some v" for f' sc' prev' s2
    using that v(2) by (simp add: recurseResolve_resolved)
  with v show "\<exists>v. i = Some v \<and> 0 < v \<and> modulesIds s1 (path sc) = Some v \<and>
           (\<forall>f' sc' prev' s2. path sc' = path sc \<longrightarrow> modulesIds s2 (path sc) = Some v \<longrightarrow>
               recurseResolve f' E en sc' prev' s2 = Ok (Some v, s2))"
    by blast
next
  fix f sc ie tid ns ns' s s' p v
  assume "ok_state s" "in_module sc ie tid s" "walk_nodes f E en sc ie tid ns s = Ok (ns', s')"
    "modulesIds s p = Some v" "0 < v"
  then show "modulesIds s' p = Some v" by (rule walk_keeps_resolved)
next
  fix f sc m node s n' s'
  assume "ok_state s" "new_astnode f E en sc m node s = Ok (n', s')"
  then show "\<exists>t v. getRequiredModule E en sc m = Ok (Some t) \<and> 0 < v \<and>
           modulesIds s' (path t) = Some v \<and>
           n' = CallExpression (Identifier ''__OL__require'' (Some True)) [NumericLiteral v] \<and>
           (\<forall>f2 sc2 m2 node2 s2 t2.
               getRequiredModule E en sc2 m2 = Ok (Some t2) \<longrightarrow> path t2 = path t \<longrightarrow>
               modulesIds s2 (path t) = Some v \<longrightarrow>
               new_astnode f2 E en sc2 m2 node2 s2 =
                 Ok (CallExpression (Identifier ''__OL__require'' (Some True)) [NumericLiteral v],
                     s2))"
    by (rule import_site_id)
next
  fix f sc ie tid x s ch s1 m
  assume "walk_nodes f E en sc ie tid (children x) s = Ok (ch, s1)"
    "import_of (rebuild x ch) = Some m"
  then show "walk_node f E en sc ie tid x s = new_astnode f E en sc m (rebuild x ch) s1"
    by (rule walk_node_import)
qed

text \<open>
  The amended claim at the build of \<open>/p/main.lua\<close>, which meets \<open>lib/b.lua\<close> twice: at
  \<open>require("lib.b")\<close> in \<open>a.lua\<close>, where the file is read, and at \<open>require "lib.b"\<close> in
  \<open>main.lua\<close>.
\<close>

lemma ex_acyclic: "acyclic_project ex_env (entryScript_of ex_env ''main.lua'') {ex_a, ex_b} ex_rank"
  unfolding acyclic_project_def parses_ok_def
  by (simp add: imports_ok.simps resolves_below_def getRequiredModule_def Let_def ex_defs
      ex_a_def ex_b_def ex_rank_def)

lemma ex_sites:
  "\<exists>s'. new_astnode (Suc 0) ex_env ex_main ex_a ''lib.b'' (require_call ''lib.b'')
           (entered False ''/p/a.lua'' (entered True ''/p/main.lua'' init_state)) =
           Ok (CallExpression (Identifier ''__OL__require'' (Some True)) [NumericLiteral 2], s')
     \<and> modulesIds s' ''/p/lib/b.lua'' = Some 2"
  by (simp add: run_simps ex_defs ex_a_def entered_def)

lemma ex_resolutions:
  "getRequiredModule ex_env ex_main ex_a ''lib.b'' = Ok (Some ex_b)"
  "getRequiredModule ex_env ex_main ex_main ''lib.b'' = Ok (Some ex_b)"
  "path ex_b = ''/p/lib/b.lua''"
  by (simp_all add: getRequiredModule_def Let_def ex_defs ex_a_def ex_b_def)

theorem acyclic_build_succeeds_witness:
  "acyclic_project ex_env (entryScript_of ex_env ''main.lua'') {ex_a, ex_b} ex_rank
   \<and> exists_script ex_env (entryScript_of ex_env ''main.lua'')
   \<and> ex_rank (path (entryScript_of ex_env ''main.lua'')) < 3
   \<and> (\<exists>c. process 3 ex_env ''main.lua'' = Ok c)
   \<and> (\<exists>s'. recurseResolve (Suc (Suc (Suc 0))) ex_env ex_main ex_main None init_state = Ok (None, s')
          \<and> reads s' = [''/p/main.lua'', ''/p/a.lua'', ''/p/lib/b.lua'']
          \<and> distinct (reads s'))
   \<and> ok_state (entered False ''/p/a.lua'' (entered True ''/p/main.lua'' init_state))
   \<and> getRequiredModule ex_env ex_main ex_a ''lib.b'' = Ok (Some ex_b)
   \<and> getRequiredModule ex_env ex_main ex_main ''lib.b'' = Ok (Some ex_b)
   \<and> (\<exists>s'. new_astnode (Suc 0) ex_env ex_main ex_a ''lib.b'' (require_call ''lib.b'')
              (entered False ''/p/a.lua'' (entered True ''/p/main.lua'' init_state)) =
              Ok (CallExpression (Identifier ''__OL__require'' (Some True)) [NumericLiteral 2], s')
          \<and> modulesIds s' (path ex_b) = Some 2
          \<and> new_astnode 0 ex_env ex_main ex_main ''lib.b''
              (StringCallExpression (Identifier ''require'' (Some False)) (StringLiteral ''lib.b''))
              s' =
              Ok (CallExpression (Identifier ''__OL__require'' (Some True)) [NumericLiteral 2], s'))"
proof -
  let ?sa = "entered False ''/p/a.lua'' (entered True ''/p/main.lua'' init_state)"
  have e: "exists_script ex_env (entryScript_of ex_env ''main.lua'')"
    by (simp add: ex_defs)
  have r: "ex_rank (path (entryScript_of ex_env ''main.lua'')) < 3"
    by (simp add: ex_defs ex_rank_def)
  note t = acyclic_build_succeeds [of ex_env "''main.lua''" "{ex_a, ex_b}" ex_rank 3 ex_main]
  from t ex_acyclic e r have p: "\<exists>c. process 3 ex_env ''main.lua'' = Ok c" by blast
  obtain s' where
    run: "recurseResolve (Suc (Suc (Suc 0))) ex_env ex_main ex_main None init_state = Ok (None, s')"
    and rd: "reads s' = [''/p/main.lua'', ''/p/a.lua'', ''/p/lib/b.lua'']"
    using ex_build by blast
  from t [THEN conjunct2, THEN conjunct1] run have d: "distinct (reads s')"
    by (simp add: numeral_3_eq_3)
  have ok0: "ok_state (entered True ''/p/main.lua'' init_state)"
    using entered_entry_ok [of "''/p/main.lua''" ex_main] by blast
  have oka: "ok_state ?sa"
    by (rule entered_module_ok [OF ok0]) (simp add: entered_simps init_state_def)
  obtain s1 where
    n1: "new_astnode (Suc 0) ex_env ex_main ex_a ''lib.b'' (require_call ''lib.b'') ?sa =
           Ok (CallExpression (Identifier ''__OL__require'' (Some True)) [NumericLiteral 2], s1)"
    and m1: "modulesIds s1 ''/p/lib/b.lua'' = Some 2"
    using ex_sites by blast
  from t [THEN conjunct2, THEN conjunct2, THEN conjunct2, THEN conjunct2, THEN conjunct1,
      rule_format, OF oka n1]
  obtain t' v where g: "getRequiredModule ex_env ex_main ex_a ''lib.b'' = Ok (Some t')"
    and v: "modulesIds s1 (path t') = Some v"
    and same: "\<And>f2 sc2 m2 node2 s2 t2.
               getRequiredModule ex_env ex_main sc2 m2 = Ok (Some t2) \<Longrightarrow> path t2 = path t' \<Longrightarrow>
               modulesIds s2 (path t') = Some v \<Longrightarrow>
               new_astnode f2 ex_env ex_main sc2 m2 node2 s2 =
                 Ok (CallExpression (Identifier ''__OL__require'' (Some True)) [NumericLiteral v],
                     s2)"
    by blast
  from g ex_resolutions(1) have t': "t' = ex_b" by simp
  with v m1 ex_resolutions(3) have v2: "v = 2" by simp
  have n2: "new_astnode 0 ex_env ex_main ex_main ''lib.b''
              (StringCallExpression (Identifier ''require'' (Some False)) (StringLiteral ''lib.b''))
              s1 =
              Ok (CallExpression (Identifier ''__OL__require'' (Some True)) [NumericLiteral 2], s1)"
    using same [OF ex_resolutions(2), of s1 0] v t' v2 by simp
  from m1 ex_resolutions(3) have m1': "modulesIds s1 (path ex_b) = Some 2" by simp
  from ex_acyclic e r p run rd d oka ex_resolutions(1,2) n1 m1' n2 show ?thesis by blast
qed

text \<open>
  Claim C5 as stated fails: \<open>/p/bad.lua\<close> imports nothing, so its dependency graph has one
  node and no cycle, and its build fails on the import call without a literal. So do the
  builds of \<open>/p/lost.lua\<close>, whose import resolves to no file, of \<open>/p/export.lua\<close>, an
  entry script with an export assignment, of \<open>/p/broken.lua\<close>, which imports \<open>lib.b\<close>
  and has a syntax error, and of \<open>/p/main.lua\<close> where no file can be read: no import
  chain of theirs comes back.
\<close>

theorem non_literal_import_fails:
  "process 1 ex_env ''bad.lua'' = Throw (InvalidRequireArgument ''Identifier'')
   \<and> process 1 ex_env ''lost.lua'' = Throw (ModuleNotFound ''missing'' ''/p/lost.lua'')
   \<and> process 1 ex_env ''export.lua'' = Throw InvalidExportPosition
   \<and> process 2 ex_env ''broken.lua'' = Throw (SyntaxError ''/p/broken.lua'')
   \<and> process 1 unreadable_env ''main.lua'' = Throw (ReadError ''/p/main.lua'')"
  by code_simp

subsection \<open>The loader at run time\<close>

lemma OL_require_cached:
  "truthy (OL_cached_packages rt k) \<Longrightarrow> OL_require fuel k rt = Done (OL_cached_packages rt k, rt)"
  by (simp add: OL_require.simps)

lemma module_without_return_build:
  "process 2 r_env ''main.lua'' =
     Ok (emitted
           [createRequireDef 1
              [CallStatement (CallExpression (Identifier ''print'' (Some False))
                                [StringLiteral ''hello''])]]
           [CallStatement (loader_call 1), CallStatement (loader_call 1)])"
  by code_simp

text \<open>
  Claim C1 fails on the emitted loader. \<open>/r/m.lua\<close> is \<open>print("hello")\<close> and the entry script
  \<open>/r/main.lua\<close> imports it twice; the emitted program is the one above. The factory of
  the module returns no value, the loader stores \<open>nil\<close> in the cache, and the second call
  of the loader runs the factory again: the effect is observed twice.
\<close>

theorem loader_reruns_module_without_return:
  "run_body 1 0 [Require 1, Require 1] (start [(1, [Effect ''hello''])]) =
     Done (LNil, \<lparr>OL_packages = map_of [(1, [Effect ''hello''])],
                   OL_cached_packages = (\<lambda>_. LNil)(1 := LNil),
                   printed = [''hello'', ''hello''], executed = [1, 1]\<rparr>)"
  by (simp add: OL_require.simps start_def truthy_def)

text \<open>
  The same for a module that exports through \<open>package.loaded[...]\<close> only: the loader
  overwrites the export with the \<open>nil\<close> the factory returns, and returns \<open>nil\<close>.
\<close>

lemma loader_discards_export:
  "OL_require 1 1 (start [(1, [Effect ''hello'', Export (LTable 7)])]) =
     Done (LNil, \<lparr>OL_packages = map_of [(1, [Effect ''hello'', Export (LTable 7)])],
                   OL_cached_packages = (\<lambda>_. LNil)(1 := LNil),
                   printed = [''hello''], executed = [1]\<rparr>)"
  by (simp add: OL_require.simps start_def truthy_def)

end
